(* ===== verification/Prelude.thy ===== *)
theory Prelude
  imports Main "HOL-Library.Word" "HOL-Library.Multiset"
begin

text \<open>
  The vocabulary shared by the component theories: the machine integers of Go, its
  results (a value or an error), its panics, the operations of the standard library's
  \<^verbatim>\<open>strings\<close> and \<^verbatim>\<open>fmt\<close> packages the source uses, and the collections of
  rewrite rules the component proofs draw on.

  A Go string is a sequence of bytes, so it is Isabelle's \<^typ>\<open>string\<close>, a list of 8-bit
  characters. A result \<^verbatim>\<open>(T, error)\<close> is a sum: \<open>Inl\<close> the error, \<open>Inr\<close> the value.
  A run-time panic is a value as well: \<open>Inl\<close> of a \<open>go_panic\<close>.
\<close>

section \<open>Types\<close>

type_synonym u8 = "8 word"
type_synonym u32 = "32 word"
type_synonym u64 = "64 word"

text \<open>A point in time (\<^verbatim>\<open>time.Time\<close>) is its number of nanoseconds.\<close>

type_synonym time = int

datatype go_panic = SliceOutOfRange | IndexOutOfRange | NilPointer

text \<open>
  \<open>store_simps\<close> collects the equations of the sandbox store, \<open>model_simps\<close> the small
  definitions that every proof of a component unfolds.
\<close>

named_theorems store_simps
named_theorems model_simps

section \<open>Results\<close>

definition is_ok :: "'e + 'a \<Rightarrow> bool" where
  "is_ok r = (case r of Inl _ \<Rightarrow> False | Inr _ \<Rightarrow> True)"

lemma is_ok_simps [simp]: "is_ok (Inr x)" "\<not> is_ok (Inl e)"
  by (simp_all add: is_ok_def)

lemma is_ok_iff: "is_ok r \<longleftrightarrow> (\<exists>x. r = Inr x)"
  by (cases r) auto

lemma not_is_ok_iff: "\<not> is_ok r \<longleftrightarrow> (\<exists>e. r = Inl e)"
  by (cases r) auto

section \<open>Strings\<close>

text \<open>\<^verbatim>\<open>strings.HasPrefix\<close>, \<^verbatim>\<open>strings.HasSuffix\<close> and \<^verbatim>\<open>strings.TrimPrefix\<close>.\<close>

definition has_prefix :: "string \<Rightarrow> string \<Rightarrow> bool" where
  "has_prefix s p \<longleftrightarrow> take (length p) s = p"

definition has_suffix :: "string \<Rightarrow> string \<Rightarrow> bool" where
  "has_suffix s p \<longleftrightarrow> length p \<le> length s \<and> drop (length s - length p) s = p"

definition trim_prefix :: "string \<Rightarrow> string \<Rightarrow> string" where
  "trim_prefix s p = (if has_prefix s p then drop (length p) s else s)"

lemma has_prefix_append [simp]: "has_prefix (p @ s) p"
  by (simp add: has_prefix_def)

lemma trim_prefix_append [simp]: "trim_prefix (p @ s) p = s"
  by (simp add: trim_prefix_def)

lemma has_prefix_iff: "has_prefix s p \<longleftrightarrow> (\<exists>t. s = p @ t)"
  by (metis append_take_drop_id has_prefix_append has_prefix_def)

lemma has_suffix_append [simp]: "has_suffix (s @ p) p"
  by (simp add: has_suffix_def)

lemma has_suffix_iff: "has_suffix s p \<longleftrightarrow> (\<exists>t. s = t @ p)"
  by (metis append_take_drop_id has_suffix_append has_suffix_def)

text \<open>The slice expression \<^verbatim>\<open>s[:n]\<close> on a string panics beyond the length.\<close>

definition slice_to :: "'a list \<Rightarrow> nat \<Rightarrow> go_panic + 'a list" where
  "slice_to s n = (if n \<le> length s then Inr (take n s) else Inl SliceOutOfRange)"

text \<open>\<^verbatim>\<open>strings.Split\<close> for a separator of one byte, and \<^verbatim>\<open>strings.Join\<close>.\<close>

fun split_on :: "char \<Rightarrow> string \<Rightarrow> string list" where
  "split_on c [] = [[]]"
| "split_on c (x # xs) =
     (if x = c then [] # split_on c xs
      else (case split_on c xs of [] \<Rightarrow> [[x]] | w # ws \<Rightarrow> (x # w) # ws))"

fun join_with :: "string \<Rightarrow> string list \<Rightarrow> string" where
  "join_with sep [] = []"
| "join_with sep [w] = w"
| "join_with sep (w # v # ws) = w @ sep @ join_with sep (v # ws)"

lemma split_on_not_Nil [simp]: "split_on c s \<noteq> []"
  by (induction s) (auto split: list.splits)

lemma split_on_no_sep: "c \<notin> set s \<Longrightarrow> split_on c s = [s]"
  by (induction s) auto

lemma split_on_parts: "w \<in> set (split_on c s) \<Longrightarrow> c \<notin> set w"
  by (induction s arbitrary: w) (auto split: list.splits if_splits)

lemma split_on_append_sep:
  "c \<notin> set w \<Longrightarrow> split_on c (w @ c # s) = w # split_on c s"
  by (induction w) auto

lemma split_on_append: "split_on c (w @ c # s) = split_on c w @ split_on c s"
  by (induction w) (auto split: list.splits)

lemma join_split: "join_with [c] (split_on c s) = s"
proof (induction s)
  case Nil
  then show ?case by simp
next
  case (Cons x s)
  obtain w ws where w: "split_on c s = w # ws"
    by (cases "split_on c s") auto
  with Cons show ?case by (cases ws) auto
qed

lemma split_join:
  "ws \<noteq> [] \<Longrightarrow> \<forall>w \<in> set ws. c \<notin> set w \<Longrightarrow> split_on c (join_with [c] ws) = ws"
  by (induction "[c]" ws rule: join_with.induct)
    (auto simp: split_on_no_sep split_on_append_sep)

text \<open>\<^verbatim>\<open>strings.ReplaceAll\<close> where both strings are one byte, or the new one is empty.\<close>

definition replace_char :: "char \<Rightarrow> char \<Rightarrow> string \<Rightarrow> string" where
  "replace_char a b = map (\<lambda>c. if c = a then b else c)"

definition remove_char :: "char \<Rightarrow> string \<Rightarrow> string" where
  "remove_char a = filter (\<lambda>c. c \<noteq> a)"

lemma replace_char_free: "a \<noteq> b \<Longrightarrow> a \<notin> set (replace_char a b s)"
  by (auto simp: replace_char_def)

text \<open>
  White space, \<^verbatim>\<open>strings.TrimSpace\<close> and \<^verbatim>\<open>strings.Fields\<close>, for the bytes of ASCII: the texts the program
  splits are the kernel's and Firecracker's.
\<close>

definition is_space :: "char \<Rightarrow> bool" where
  "is_space c \<longleftrightarrow> of_char c \<in> {9, 10, 11, 12, 13, 32 :: nat}"

definition trim_space :: "string \<Rightarrow> string" where
  "trim_space s = rev (dropWhile is_space (rev (dropWhile is_space s)))"

fun words_of :: "string \<Rightarrow> string \<Rightarrow> string list" where
  "words_of w [] = (if w = [] then [] else [w])"
| "words_of w (c # s) =
     (if is_space c then (if w = [] then [] else [w]) @ words_of [] s else words_of (w @ [c]) s)"

definition fields_of :: "string \<Rightarrow> string list" where
  "fields_of s = words_of [] s"

text \<open>
  The verb \<^verbatim>\<open>%q\<close>: the text in quotes, with the escapes of a Go string. Bytes beyond ASCII are
  written in hexadecimal, as they are when they are not printable UTF-8.
\<close>

definition hex_byte :: "nat \<Rightarrow> string" where
  "hex_byte n = map (\<lambda>d. char_of (if d < 10 then 48 + d else 87 + d)) [n div 16, n mod 16]"

definition quote_char :: "char \<Rightarrow> string" where
  "quote_char c =
     (let n = of_char c :: nat; bs = CHR 0x5C
      in if c = CHR 0x22 \<or> c = bs then [bs, c]
         else if 32 \<le> n \<and> n < 127 then [c]
         else case map_of [(7, CHR ''a''), (8, CHR ''b''), (9, CHR ''t''), (10, CHR ''n''),
                           (11, CHR ''v''), (12, CHR ''f''), (13, CHR ''r'')] n of
                Some e \<Rightarrow> [bs, e]
              | None \<Rightarrow> bs # CHR ''x'' # hex_byte n)"

definition quote :: "string \<Rightarrow> string" where
  "quote s = CHR 0x22 # concat (map quote_char s) @ [CHR 0x22]"

section \<open>Decimal numbers\<close>

text \<open>The verb \<^verbatim>\<open>%d\<close> of \<^verbatim>\<open>fmt\<close> for a natural number.\<close>

definition digit_char :: "nat \<Rightarrow> char" where
  "digit_char d = char_of (48 + d)"

fun show_nat :: "nat \<Rightarrow> string" where
  "show_nat n =
     (if n < 10 then [digit_char n] else show_nat (n div 10) @ [digit_char (n mod 10)])"

declare show_nat.simps [simp del]

definition is_digit :: "char \<Rightarrow> bool" where
  "is_digit c \<longleftrightarrow> 48 \<le> (of_char c :: nat) \<and> (of_char c :: nat) \<le> 57"

definition digit_val :: "char \<Rightarrow> nat" where
  "digit_val c = of_char c - 48"

definition read_nat :: "string \<Rightarrow> nat" where
  "read_nat s = foldl (\<lambda>n c. 10 * n + digit_val c) 0 s"

lemma digit_char_inverse: "d < 10 \<Longrightarrow> digit_val (digit_char d) = d"
  by (simp add: digit_val_def digit_char_def)

lemma is_digit_digit_char: "d < 10 \<Longrightarrow> is_digit (digit_char d)"
  by (simp add: is_digit_def digit_char_def)

lemma show_nat_digits: "\<forall>c \<in> set (show_nat n). is_digit c"
proof (induction n rule: show_nat.induct)
  case (1 n)
  then show ?case
    by (subst show_nat.simps) (auto simp: is_digit_digit_char)
qed

lemma show_nat_nonempty [simp]: "show_nat n \<noteq> []"
  by (subst show_nat.simps) simp

lemma read_show_nat: "read_nat (show_nat n) = n"
proof (induction n rule: show_nat.induct)
  case (1 n)
  show ?case
  proof (cases "n < 10")
    case True
    then show ?thesis
      by (subst show_nat.simps) (simp add: read_nat_def digit_char_inverse)
  next
    case False
    with 1 have "read_nat (show_nat (n div 10)) = n div 10" by simp
    with False show ?thesis
      by (subst show_nat.simps) (simp add: read_nat_def digit_char_inverse)
  qed
qed

lemma show_nat_inject [simp]: "show_nat m = show_nat n \<longleftrightarrow> m = n"
  by (metis read_show_nat)

text \<open>The verb \<^verbatim>\<open>%d\<close> for an integer.\<close>

definition show_int :: "int \<Rightarrow> string" where
  "show_int n = (if n < 0 then CHR ''-'' # show_nat (nat (- n)) else show_nat (nat n))"

section \<open>Durations\<close>

text \<open>
  \<^verbatim>\<open>time.Duration(ms) * time.Millisecond\<close>: a \<^verbatim>\<open>time.Duration\<close> is an \<^verbatim>\<open>int64\<close> number of
  nanoseconds, and the product is taken at 64 bits. For a \<^verbatim>\<open>uint32\<close> number of
  milliseconds it never wraps around.
\<close>

definition duration_ms :: "u32 \<Rightarrow> u64" where
  "duration_ms ms = ucast ms * 1000000"

definition time_add :: "time \<Rightarrow> u64 \<Rightarrow> time" where
  "time_add t d = t + sint d"

lemma uint_duration_ms: "uint (duration_ms ms) = uint ms * 1000000"
proof -
  have bound: "uint ms < 2 ^ 32" using unsigned_less [of ms] by simp
  have "uint (ucast ms :: u64) = uint ms"
    using bound by (simp add: unsigned_ucast_eq take_bit_int_eq_self)
  with bound show ?thesis
    by (simp add: duration_ms_def uint_word_ariths)
qed

lemma duration_ms_exact: "sint (duration_ms ms) = uint ms * 1000000"
proof -
  have bound: "uint ms < 2 ^ 32" using unsigned_less [of ms] by simp
  moreover have "- (2 ^ 63) \<le> uint ms * 1000000"
    by (rule order_trans [of _ 0]) simp_all
  ultimately have "signed_take_bit 63 (uint ms * 1000000) = uint ms * 1000000"
    by (intro signed_take_bit_int_eq_self) simp_all
  then show ?thesis
    by (simp add: sint_uint uint_duration_ms)
qed

lemma time_add_duration_ms: "time_add t (duration_ms ms) = t + uint ms * 1000000"
  by (simp add: time_add_def duration_ms_exact)

end
