(* ===== verification/SandboxState.thy ===== *)
theory SandboxState
  imports Prelude
begin

text \<open>
  \<^verbatim>\<open>internal/state/state.go\<close>: the lifecycle graph of a sandbox and the in-memory store.

  \<^verbatim>\<open>State\<close> is a Go string, so it is a string here and a store may hold a value outside the six
  constants; \<^verbatim>\<open>validTransitions\<close> is the map of the source. A store is the map from sandbox
  identifiers to records; every method runs under the store's mutex, so a method is one atomic
  function from store to store. The clock reading a method takes is an argument. Records are
  values: the source stores the caller's pointer in \<^verbatim>\<open>Create\<close>, which its only caller drops, and
  returns copies everywhere else.
\<close>

section \<open>The lifecycle graph\<close>

type_synonym sandbox_state = string

definition StateQueued :: sandbox_state where "StateQueued = ''queued''"
definition StateProvisioning :: sandbox_state where "StateProvisioning = ''provisioning''"
definition StateRunning :: sandbox_state where "StateRunning = ''running''"
definition StateDraining :: sandbox_state where "StateDraining = ''draining''"
definition StateTerminated :: sandbox_state where "StateTerminated = ''terminated''"
definition StateFailed :: sandbox_state where "StateFailed = ''failed''"

lemmas state_names = StateQueued_def StateProvisioning_def StateRunning_def StateDraining_def
  StateTerminated_def StateFailed_def

definition validTransitions :: "sandbox_state \<rightharpoonup> sandbox_state list" where
  "validTransitions =
     [StateQueued \<mapsto> [StateProvisioning, StateFailed],
      StateProvisioning \<mapsto> [StateRunning, StateFailed],
      StateRunning \<mapsto> [StateDraining, StateFailed],
      StateDraining \<mapsto> [StateTerminated],
      StateTerminated \<mapsto> [],
      StateFailed \<mapsto> []]"

datatype state_error =
    UnknownSourceState sandbox_state
  | IllegalTransition sandbox_state sandbox_state
  | AlreadyExists string
  | NotFound string
  | WrongState string sandbox_state sandbox_state

definition state_Transition :: "sandbox_state \<Rightarrow> sandbox_state \<Rightarrow> state_error + unit" where
  "state_Transition s t =
     (case validTransitions s of
        None \<Rightarrow> Inl (UnknownSourceState s)
      | Some allowed \<Rightarrow>
          if List.member allowed t then Inr () else Inl (IllegalTransition s t))"

definition IsTerminal :: "sandbox_state \<Rightarrow> bool" where
  "IsTerminal s = (case validTransitions s of None \<Rightarrow> False | Some ts \<Rightarrow> ts = [])"

text \<open>The graph as a relation, one rule per edge.\<close>

inductive lifecycle :: "sandbox_state \<Rightarrow> sandbox_state \<Rightarrow> bool" where
  queued_provisioning: "lifecycle StateQueued StateProvisioning"
| queued_failed: "lifecycle StateQueued StateFailed"
| provisioning_running: "lifecycle StateProvisioning StateRunning"
| provisioning_failed: "lifecycle StateProvisioning StateFailed"
| running_draining: "lifecycle StateRunning StateDraining"
| running_failed: "lifecycle StateRunning StateFailed"
| draining_terminated: "lifecycle StateDraining StateTerminated"

code_pred lifecycle .

inductive_cases lifecycle_queuedE: "lifecycle StateQueued t"
inductive_cases lifecycle_drainingE: "lifecycle StateDraining t"
inductive_cases lifecycle_terminatedE: "lifecycle StateTerminated t"
inductive_cases lifecycle_failedE: "lifecycle StateFailed t"

lemma state_distinct [simp]:
  "StateQueued \<noteq> StateProvisioning" "StateQueued \<noteq> StateRunning"
  "StateQueued \<noteq> StateDraining" "StateQueued \<noteq> StateTerminated" "StateQueued \<noteq> StateFailed"
  "StateProvisioning \<noteq> StateQueued" "StateProvisioning \<noteq> StateRunning"
  "StateProvisioning \<noteq> StateDraining" "StateProvisioning \<noteq> StateTerminated"
  "StateProvisioning \<noteq> StateFailed"
  "StateRunning \<noteq> StateQueued" "StateRunning \<noteq> StateProvisioning"
  "StateRunning \<noteq> StateDraining" "StateRunning \<noteq> StateTerminated" "StateRunning \<noteq> StateFailed"
  "StateDraining \<noteq> StateQueued" "StateDraining \<noteq> StateProvisioning"
  "StateDraining \<noteq> StateRunning" "StateDraining \<noteq> StateTerminated" "StateDraining \<noteq> StateFailed"
  "StateTerminated \<noteq> StateQueued" "StateTerminated \<noteq> StateProvisioning"
  "StateTerminated \<noteq> StateRunning" "StateTerminated \<noteq> StateDraining"
  "StateTerminated \<noteq> StateFailed"
  "StateFailed \<noteq> StateQueued" "StateFailed \<noteq> StateProvisioning" "StateFailed \<noteq> StateRunning"
  "StateFailed \<noteq> StateDraining" "StateFailed \<noteq> StateTerminated"
  by (simp_all add: state_names)

lemma transition_lifecycle: "state_Transition s t = Inr () \<longleftrightarrow> lifecycle s t"
  by (auto simp: state_Transition_def validTransitions_def lifecycle.simps
      split: option.splits if_splits)

lemma is_ok_transition: "is_ok (state_Transition s t) \<longleftrightarrow> lifecycle s t"
  by (simp add: is_ok_iff transition_lifecycle flip: transition_lifecycle)

text \<open>The rank of a state grows along every edge, so a run of the graph has at most four steps.\<close>

definition state_rank :: "sandbox_state \<Rightarrow> nat" where
  "state_rank s =
     (if s = StateQueued then 0 else if s = StateProvisioning then 1
      else if s = StateRunning then 2 else if s = StateDraining then 3 else 4)"

lemma lifecycle_rank: "lifecycle s t \<Longrightarrow> state_rank s < state_rank t"
  by (erule lifecycle.cases) (simp_all add: state_rank_def)

lemma state_rank_le: "state_rank s \<le> 4"
  by (simp add: state_rank_def)

lemma lifecycle_steps_rank: "(lifecycle ^^ n) s t \<Longrightarrow> state_rank s + n \<le> state_rank t"
proof (induction n arbitrary: t)
  case 0
  then show ?case by simp
next
  case (Suc n)
  then obtain u where "(lifecycle ^^ n) s u" "lifecycle u t" by auto
  with Suc.IH [of u] lifecycle_rank [of u t] show ?case by simp
qed

lemma lifecycle_rtranclp_rank: "lifecycle\<^sup>*\<^sup>* s t \<Longrightarrow> state_rank s \<le> state_rank t"
  by (induction rule: rtranclp_induct) (auto dest: lifecycle_rank)

lemma terminal_iff: "IsTerminal s \<longleftrightarrow> s = StateTerminated \<or> s = StateFailed"
  by (auto simp: IsTerminal_def validTransitions_def)

lemma terminal_no_successor: "IsTerminal s \<Longrightarrow> \<not> lifecycle s t"
  by (auto simp: terminal_iff elim: lifecycle_terminatedE lifecycle_failedE)

lemma no_exit [simp]: "\<not> lifecycle StateFailed t" "\<not> lifecycle StateTerminated t"
  by (auto simp: terminal_iff terminal_no_successor)

lemma terminal_absorbing: "IsTerminal s \<Longrightarrow> lifecycle\<^sup>*\<^sup>* s t \<Longrightarrow> t = s"
  by (erule converse_rtranclpE) (auto dest: terminal_no_successor)

section \<open>The store\<close>

record SandboxRecord =
  r_ID :: string
  r_TenantID :: string
  r_State :: sandbox_state
  r_HostID :: string
  r_VsockCID :: u32
  r_VMAgentSocket :: string
  r_CreatedAt :: time
  r_UpdatedAt :: time
  r_FailReason :: string

type_synonym Store = "string \<rightharpoonup> SandboxRecord"

definition NewStore :: Store where
  "NewStore = Map.empty"

text \<open>A record as a composite literal leaves it, every field not named at its zero value.\<close>

definition zero_record :: SandboxRecord where
  "zero_record = \<lparr>r_ID = '''', r_TenantID = '''', r_State = '''', r_HostID = '''',
     r_VsockCID = 0, r_VMAgentSocket = '''', r_CreatedAt = 0, r_UpdatedAt = 0,
     r_FailReason = ''''\<rparr>"

definition store_Create :: "time \<Rightarrow> SandboxRecord \<Rightarrow> Store \<Rightarrow> (state_error + unit) \<times> Store" where
  "store_Create now r st =
     (case st (r_ID r) of
        Some _ \<Rightarrow> (Inl (AlreadyExists (r_ID r)), st)
      | None \<Rightarrow>
          (Inr (), st(r_ID r \<mapsto>
             r\<lparr>r_State := StateQueued, r_CreatedAt := now, r_UpdatedAt := now\<rparr>)))"

definition store_Transition ::
  "time \<Rightarrow> string \<Rightarrow> sandbox_state \<Rightarrow> sandbox_state \<Rightarrow> string \<Rightarrow> Store \<Rightarrow>
   (state_error + unit) \<times> Store" where
  "store_Transition now i expectedCurrent newState reason st =
     (case st i of
        None \<Rightarrow> (Inl (NotFound i), st)
      | Some r \<Rightarrow>
          if r_State r \<noteq> expectedCurrent
          then (Inl (WrongState i (r_State r) expectedCurrent), st)
          else
            (case state_Transition (r_State r) newState of
               Inl e \<Rightarrow> (Inl e, st)
             | Inr _ \<Rightarrow>
                 let r1 = r\<lparr>r_State := newState, r_UpdatedAt := now\<rparr>;
                     r2 = (if newState = StateFailed then r1\<lparr>r_FailReason := reason\<rparr> else r1)
                 in (Inr (), st(i \<mapsto> r2))))"

definition store_Get :: "string \<Rightarrow> Store \<Rightarrow> state_error + SandboxRecord" where
  "store_Get i st = (case st i of None \<Rightarrow> Inl (NotFound i) | Some r \<Rightarrow> Inr r)"

text \<open>
  \<^verbatim>\<open>List\<close> ranges over the map in an order Go leaves open; \<open>ord\<close> is that order, an enumeration
  of the keys.
\<close>

definition store_List :: "string list \<Rightarrow> string \<Rightarrow> Store \<Rightarrow> SandboxRecord list" where
  "store_List ord tenantID st =
     filter (\<lambda>r. \<not> (tenantID \<noteq> '''' \<and> r_TenantID r \<noteq> tenantID))
       (List.map_filter st ord)"

definition range_order :: "('k \<rightharpoonup> 'v) \<Rightarrow> 'k list \<Rightarrow> bool" where
  "range_order m ord \<longleftrightarrow> distinct ord \<and> set ord = dom m"

definition store_SetHostID ::
  "time \<Rightarrow> string \<Rightarrow> string \<Rightarrow> Store \<Rightarrow> (state_error + unit) \<times> Store" where
  "store_SetHostID now i hostID st =
     (case st i of
        None \<Rightarrow> (Inl (NotFound i), st)
      | Some r \<Rightarrow> (Inr (), st(i \<mapsto> r\<lparr>r_HostID := hostID, r_UpdatedAt := now\<rparr>)))"

definition store_SetVsockCID ::
  "time \<Rightarrow> string \<Rightarrow> u32 \<Rightarrow> string \<Rightarrow> Store \<Rightarrow> (state_error + unit) \<times> Store" where
  "store_SetVsockCID now i cid unixSocket st =
     (case st i of
        None \<Rightarrow> (Inl (NotFound i), st)
      | Some r \<Rightarrow>
          (Inr (), st(i \<mapsto> r\<lparr>r_VsockCID := cid, r_VMAgentSocket := unixSocket,
                            r_UpdatedAt := now\<rparr>)))"

section \<open>Functional behaviour\<close>

lemma store_Create_ok:
  "store_Create now r st = (Inr (), st') \<longleftrightarrow>
   st (r_ID r) = None \<and>
   st' = st(r_ID r \<mapsto> r\<lparr>r_State := StateQueued, r_CreatedAt := now, r_UpdatedAt := now\<rparr>)"
  by (auto simp: store_Create_def split: option.splits)

lemma store_Create_error:
  "store_Create now r st = (Inl e, st') \<longleftrightarrow>
   st (r_ID r) \<noteq> None \<and> e = AlreadyExists (r_ID r) \<and> st' = st"
  by (auto simp: store_Create_def split: option.splits)

text \<open>What a successful \<^verbatim>\<open>Transition\<close> writes.\<close>

definition moved :: "time \<Rightarrow> sandbox_state \<Rightarrow> string \<Rightarrow> SandboxRecord \<Rightarrow> SandboxRecord" where
  "moved now newState reason r =
     r\<lparr>r_State := newState, r_UpdatedAt := now,
       r_FailReason := (if newState = StateFailed then reason else r_FailReason r)\<rparr>"

lemma moved_simps [simp]:
  "r_ID (moved now t reason r) = r_ID r" "r_TenantID (moved now t reason r) = r_TenantID r"
  "r_State (moved now t reason r) = t" "r_HostID (moved now t reason r) = r_HostID r"
  "r_VsockCID (moved now t reason r) = r_VsockCID r"
  "r_VMAgentSocket (moved now t reason r) = r_VMAgentSocket r"
  "r_CreatedAt (moved now t reason r) = r_CreatedAt r"
  "r_UpdatedAt (moved now t reason r) = now"
  "r_FailReason (moved now t reason r) = (if t = StateFailed then reason else r_FailReason r)"
  by (simp_all add: moved_def)

lemma store_Transition_cases:
  "store_Transition now i cur new reason st =
     (case st i of
        None \<Rightarrow> (Inl (NotFound i), st)
      | Some r \<Rightarrow>
          if r_State r \<noteq> cur then (Inl (WrongState i (r_State r) cur), st)
          else if lifecycle cur new then (Inr (), st(i \<mapsto> moved now new reason r))
          else if cur \<in> dom validTransitions then (Inl (IllegalTransition cur new), st)
          else (Inl (UnknownSourceState cur), st))"
  by (auto simp: store_Transition_def moved_def Let_def state_Transition_def
      simp flip: transition_lifecycle split: option.splits sum.splits if_splits)

lemma store_Transition_ok:
  "store_Transition now i cur new reason st = (Inr u, st') \<longleftrightarrow>
   (\<exists>r. st i = Some r \<and> r_State r = cur \<and> lifecycle cur new \<and>
        st' = st(i \<mapsto> moved now new reason r))"
  by (auto simp: store_Transition_cases split: option.splits)

lemma store_Transition_error:
  "store_Transition now i cur new reason st = (Inl e, st') \<Longrightarrow> st' = st"
  by (auto simp: store_Transition_cases split: option.splits if_splits)

lemma store_Get_ok: "store_Get i st = Inr r \<longleftrightarrow> st i = Some r"
  by (auto simp: store_Get_def split: option.splits)

lemma store_Get_error: "store_Get i st = Inl e \<longleftrightarrow> st i = None \<and> e = NotFound i"
  by (auto simp: store_Get_def split: option.splits)

lemma set_map_filter_range:
  "range_order m ord \<Longrightarrow> set (List.map_filter m ord) = ran m"
  by (force simp: range_order_def List.map_filter_def ran_def dom_def)

lemma set_store_List:
  "range_order st ord \<Longrightarrow>
   set (store_List ord tid st) = {r \<in> ran st. tid = '''' \<or> r_TenantID r = tid}"
  by (auto simp: store_List_def set_map_filter_range)

section \<open>Runs of the store\<close>

datatype store_op =
    OpCreate SandboxRecord
  | OpTransition string sandbox_state sandbox_state string
  | OpSetHostID string string
  | OpSetVsockCID string u32 string

fun store_step :: "time \<Rightarrow> store_op \<Rightarrow> Store \<Rightarrow> Store" where
  "store_step now (OpCreate r) st = snd (store_Create now r st)"
| "store_step now (OpTransition i cur new reason) st =
     snd (store_Transition now i cur new reason st)"
| "store_step now (OpSetHostID i h) st = snd (store_SetHostID now i h st)"
| "store_step now (OpSetVsockCID i cid sock) st = snd (store_SetVsockCID now i cid sock st)"

fun store_run :: "(time \<times> store_op) list \<Rightarrow> Store \<Rightarrow> Store" where
  "store_run [] st = st"
| "store_run ((now, oper) # ops) st = store_run ops (store_step now oper st)"

text \<open>
  How a record may change: its identity, its tenant and its creation time never, its state
  along the graph, and the reason of a failure only on the way into \<^const>\<open>StateFailed\<close>.
\<close>

definition evolves :: "SandboxRecord \<Rightarrow> SandboxRecord \<Rightarrow> bool" where
  "evolves r r' \<longleftrightarrow>
     r_ID r' = r_ID r \<and> r_TenantID r' = r_TenantID r \<and> r_CreatedAt r' = r_CreatedAt r \<and>
     lifecycle\<^sup>*\<^sup>* (r_State r) (r_State r') \<and>
     (r_FailReason r' \<noteq> r_FailReason r \<longrightarrow> r_State r \<noteq> StateFailed \<and> r_State r' = StateFailed)"

lemma evolves_refl [simp]: "evolves r r"
  by (simp add: evolves_def)

lemma failed_absorbing: "lifecycle\<^sup>*\<^sup>* StateFailed t \<longleftrightarrow> t = StateFailed"
  using terminal_absorbing [of StateFailed t] by (auto simp: terminal_iff)

lemma evolves_trans:
  assumes "evolves r1 r2" and "evolves r2 r3"
  shows "evolves r1 r3"
proof -
  have "r_State r3 = StateFailed" if "r_State r2 = StateFailed"
    using assms(2) that by (simp add: evolves_def failed_absorbing)
  moreover have "r_State r2 = StateFailed" if "r_State r1 = StateFailed"
    using assms(1) that by (simp add: evolves_def failed_absorbing)
  ultimately show ?thesis
    using assms by (auto simp: evolves_def dest: rtranclp_trans)
qed

lemma evolves_moved:
  "lifecycle (r_State r) new \<Longrightarrow> evolves r (moved now new reason r)"
  by (cases "r_State r = StateFailed") (auto simp: evolves_def)

lemma evolves_fields [simp]:
  "evolves r (r\<lparr>r_HostID := h, r_UpdatedAt := now\<rparr>)"
  "evolves r (r\<lparr>r_VsockCID := c, r_VMAgentSocket := s, r_UpdatedAt := now\<rparr>)"
  by (simp_all add: evolves_def)

lemma store_step_evolves:
  assumes "st i = Some r"
  shows "\<exists>r'. store_step now oper st i = Some r' \<and> evolves r r'"
proof (cases oper)
  case (OpCreate x)
  with assms show ?thesis by (auto simp: store_Create_def split: option.splits)
next
  case (OpTransition j cur new reason)
  with assms show ?thesis
    by (auto simp: store_Transition_cases evolves_moved split: option.splits)
next
  case (OpSetHostID j h)
  with assms show ?thesis by (auto simp: store_SetHostID_def split: option.splits)
next
  case (OpSetVsockCID j c s)
  with assms show ?thesis by (auto simp: store_SetVsockCID_def split: option.splits)
qed

lemma store_run_evolves_aux:
  "st i = Some r \<Longrightarrow> \<exists>r'. store_run ops st i = Some r' \<and> evolves r r'"
proof (induction ops arbitrary: st r)
  case Nil
  then show ?case by simp
next
  case (Cons x ops)
  obtain now oper where x: "x = (now, oper)" by (cases x)
  from store_step_evolves [where i = i and r = r and st = st, OF Cons.prems, of now oper]
  obtain r1
    where r1: "store_step now oper st i = Some r1" "evolves r r1" by auto
  with Cons.IH [of "store_step now oper st" r1] show ?case by (auto simp: x intro: evolves_trans)
qed

section \<open>The store invariant\<close>

definition record_ok :: "time \<Rightarrow> string \<Rightarrow> SandboxRecord \<Rightarrow> bool" where
  "record_ok now i r \<longleftrightarrow>
     r_ID r = i \<and> r_State r \<in> dom validTransitions \<and>
     r_CreatedAt r \<le> r_UpdatedAt r \<and> r_UpdatedAt r \<le> now \<and>
     (r_FailReason r \<noteq> '''' \<longrightarrow> r_State r = StateFailed)"

definition store_inv :: "time \<Rightarrow> Store \<Rightarrow> bool" where
  "store_inv now st \<longleftrightarrow> (\<forall>i r. st i = Some r \<longrightarrow> record_ok now i r)"

text \<open>
  A run with a clock that does not go back, whose created records carry no reason yet.
\<close>

fun timed_ops :: "time \<Rightarrow> (time \<times> store_op) list \<Rightarrow> bool" where
  "timed_ops t [] = True"
| "timed_ops t ((now, oper) # ops) =
     (t \<le> now \<and> (case oper of OpCreate r \<Rightarrow> r_FailReason r = '''' | _ \<Rightarrow> True) \<and> timed_ops now ops)"

fun end_time :: "time \<Rightarrow> (time \<times> store_op) list \<Rightarrow> time" where
  "end_time t [] = t"
| "end_time t ((now, oper) # ops) = end_time now ops"

lemma lifecycle_known: "lifecycle s t \<Longrightarrow> t \<in> dom validTransitions"
  by (erule lifecycle.cases) (auto simp: validTransitions_def)

lemma record_ok_later: "record_ok t i r \<Longrightarrow> t \<le> now \<Longrightarrow> record_ok now i r"
  by (auto simp: record_ok_def)

lemma record_ok_moved:
  "record_ok t i r \<Longrightarrow> t \<le> now \<Longrightarrow> lifecycle (r_State r) new \<Longrightarrow>
   record_ok now i (moved now new reason r)"
  using lifecycle_known [of "r_State r" new]
  by (cases "r_State r = StateFailed") (auto simp: record_ok_def)

lemma store_step_inv:
  assumes inv: "store_inv t st" and now: "t \<le> now"
    and fresh: "case oper of OpCreate r \<Rightarrow> r_FailReason r = '''' | _ \<Rightarrow> True"
  shows "store_inv now (store_step now oper st)"
proof -
  have ok: "record_ok now i r" if "st i = Some r" for i r
    using inv that now record_ok_later [of t i r now] by (simp add: store_inv_def)
  have known: "StateQueued \<in> dom validTransitions" by (simp add: validTransitions_def)
  show ?thesis
  proof (cases oper)
    case (OpCreate x)
    with fresh ok known show ?thesis
      by (auto simp: store_inv_def store_Create_def record_ok_def split: option.splits)
  next
    case (OpTransition j cur new reason)
    with ok show ?thesis
      by (auto simp: store_inv_def store_Transition_cases intro: record_ok_moved
          split: option.splits)
  next
    case (OpSetHostID j h)
    with ok now show ?thesis
      by (fastforce simp: store_inv_def store_SetHostID_def record_ok_def split: option.splits)
  next
    case (OpSetVsockCID j c s)
    with ok now show ?thesis
      by (fastforce simp: store_inv_def store_SetVsockCID_def record_ok_def split: option.splits)
  qed
qed

lemma store_run_inv_aux:
  "store_inv t st \<Longrightarrow> timed_ops t ops \<Longrightarrow> store_inv (end_time t ops) (store_run ops st)"
proof (induction ops arbitrary: t st)
  case Nil
  then show ?case by simp
next
  case (Cons x ops)
  obtain now oper where x: "x = (now, oper)" by (cases x)
  with Cons.prems have "store_inv now (store_step now oper st)"
    by (intro store_step_inv) auto
  with Cons show ?case by (simp add: x)
qed

section \<open>The abstract machine\<close>

text \<open>
  What the store is for: every registered sandbox has a tenant, fixed, and a position in the
  graph. The abstract machine registers sandboxes and moves them along an edge; it knows
  nothing of hosts, sockets, clocks and reasons.
\<close>

type_synonym abs_store = "string \<rightharpoonup> string \<times> sandbox_state"

definition abs_store :: "Store \<Rightarrow> abs_store" where
  "abs_store st = (\<lambda>i. map_option (\<lambda>r. (r_TenantID r, r_State r)) (st i))"

inductive abs_step :: "abs_store \<Rightarrow> abs_store \<Rightarrow> bool" where
  register: "m i = None \<Longrightarrow> abs_step m (m(i \<mapsto> (tenant, StateQueued)))"
| advance: "m i = Some (tenant, s) \<Longrightarrow> lifecycle s t \<Longrightarrow> abs_step m (m(i \<mapsto> (tenant, t)))"

lemma abs_store_upd: "abs_store (st(i \<mapsto> r)) = (abs_store st)(i \<mapsto> (r_TenantID r, r_State r))"
  by (auto simp: abs_store_def)

lemma abs_store_same: "st i = Some r0 \<Longrightarrow> r_TenantID r = r_TenantID r0 \<Longrightarrow>
   r_State r = r_State r0 \<Longrightarrow> abs_store (st(i \<mapsto> r)) = abs_store st"
  by (auto simp: abs_store_def)

lemma store_step_simulation:
  "abs_store (store_step now oper st) = abs_store st \<or>
   abs_step (abs_store st) (abs_store (store_step now oper st))"
proof (cases oper)
  case (OpCreate x)
  show ?thesis
  proof (cases "st (r_ID x)")
    case None
    then have "abs_store st (r_ID x) = None" by (simp add: abs_store_def)
    from abs_step.register [where m = "abs_store st" and i = "r_ID x" and tenant = "r_TenantID x", OF this] OpCreate None
    show ?thesis
      by (simp add: store_Create_def abs_store_upd)
  qed (simp add: OpCreate store_Create_def)
next
  case (OpTransition i cur new reason)
  show ?thesis
  proof (cases "\<exists>r. st i = Some r \<and> r_State r = cur \<and> lifecycle cur new")
    case True
    then obtain r where r: "st i = Some r" "r_State r = cur" "lifecycle cur new" by auto
    then have "abs_store st i = Some (r_TenantID r, cur)" by (simp add: abs_store_def)
    from abs_step.advance [where m = "abs_store st" and i = i and tenant = "r_TenantID r", OF this r(3)] OpTransition r
    show ?thesis
      by (simp add: store_Transition_cases abs_store_upd)
  next
    case False
    then have "store_step now oper st = st"
      by (auto simp: OpTransition store_Transition_cases split: option.splits)
    then show ?thesis by simp
  qed
next
  case (OpSetHostID i h)
  then show ?thesis
    by (auto simp: store_SetHostID_def intro!: abs_store_same split: option.splits)
next
  case (OpSetVsockCID i c s)
  then show ?thesis
    by (auto simp: store_SetVsockCID_def intro!: abs_store_same split: option.splits)
qed

lemma store_run_simulation: "abs_step\<^sup>*\<^sup>* (abs_store st) (abs_store (store_run ops st))"
proof (induction ops arbitrary: st)
  case Nil
  then show ?case by simp
next
  case (Cons x ops)
  obtain now oper where x: "x = (now, oper)" by (cases x)
  have "abs_step\<^sup>*\<^sup>* (abs_store st) (abs_store (store_step now oper st))"
    using store_step_simulation [of now oper st] by auto
  then show ?case using Cons [of "store_step now oper st"]
    by (simp add: x rtranclp_trans)
qed

section \<open>Properties\<close>

text \<open>
  A record once in the store stays there, and over any sequence of store operations, with
  any arguments and clock readings, its identity, tenant and creation time never change, its
  state moves along the edges of the lifecycle graph only, and its failure reason is written
  only by the step that enters the failed state.
\<close>

theorem store_run_evolves:
  assumes "st i = Some r"
  shows "\<exists>r'. store_run ops st i = Some r' \<and> evolves r r'"
  using store_run_evolves_aux [of st i r ops] assms by simp

theorem store_run_evolves_witness:
  "\<exists>r'. store_run [(5, OpTransition ''sb-1'' StateQueued StateFailed ''deadline exceeded''),
                   (6, OpTransition ''sb-1'' StateQueued StateProvisioning '''')]
          [''sb-1'' \<mapsto> zero_record\<lparr>r_ID := ''sb-1'', r_State := StateQueued\<rparr>] ''sb-1'' = Some r' \<and>
        evolves (zero_record\<lparr>r_ID := ''sb-1'', r_State := StateQueued\<rparr>) r'"
  by (rule store_run_evolves) simp


text \<open>
  C21: from the empty store, with a clock that does not go back, every record is filed under its
  own identifier, is in one of the six states, was created no later than it was updated, and
  carries a failure reason only in the failed state.
\<close>

theorem store_run_inv:
  assumes "timed_ops t ops"
  shows "store_inv (end_time t ops) (store_run ops NewStore)"
  using store_run_inv_aux [of t NewStore ops] assms by (simp add: store_inv_def NewStore_def)

theorem store_run_inv_witness:
  "store_inv 9
     (store_run [(7, OpCreate (zero_record\<lparr>r_ID := ''sb-1'', r_TenantID := ''ten-a''\<rparr>)),
                 (9, OpTransition ''sb-1'' StateQueued StateFailed ''deadline exceeded'')] NewStore)"
  using store_run_inv [of 0 "[(7, OpCreate (zero_record\<lparr>r_ID := ''sb-1'', r_TenantID := ''ten-a''\<rparr>)),
                 (9, OpTransition ''sb-1'' StateQueued StateFailed ''deadline exceeded'')]"]
  by (simp add: zero_record_def)

text \<open>
  The lifecycle terminates. No run of legal transitions is longer than four steps, and the
  states without a successor are exactly the terminal ones among the states of the graph.
\<close>

theorem lifecycle_terminates:
  "(\<forall>n s t. (lifecycle ^^ n) s t \<longrightarrow> n \<le> 4) \<and>
   (\<forall>s \<in> dom validTransitions. IsTerminal s \<longleftrightarrow> (\<nexists>t. is_ok (state_Transition s t)))"
proof (intro conjI allI impI ballI)
  fix n s t
  assume "(lifecycle ^^ n) s t"
  then show "n \<le> 4" using lifecycle_steps_rank [of n s t] state_rank_le [of t] by simp
next
  fix s
  assume "s \<in> dom validTransitions"
  then show "IsTerminal s \<longleftrightarrow> (\<nexists>t. is_ok (state_Transition s t))"
    by (auto simp: terminal_iff is_ok_transition validTransitions_def lifecycle.simps
        split: if_splits)
qed

theorem lifecycle_terminates_witness:
  "(lifecycle ^^ 4) StateQueued StateTerminated \<and> (4::nat) \<le> 4 \<and>
   (\<nexists>t. is_ok (state_Transition StateFailed t))"
proof -
  have "(lifecycle ^^ 4) StateQueued StateTerminated"
    by (auto simp: numeral_eq_Suc OO_def intro: lifecycle.intros)
  moreover from this have "(4::nat) \<le> 4" using lifecycle_terminates by blast
  moreover have "\<nexists>t. is_ok (state_Transition StateFailed t)"
    using lifecycle_terminates by (auto simp: terminal_iff validTransitions_def)
  ultimately show ?thesis by blast
qed

text \<open>
  \<^verbatim>\<open>List\<close> isolates tenants: for a named tenant it returns every record of that tenant, none
  of another, and none twice, whatever the order of the map iteration.
\<close>

theorem store_List_tenant:
  assumes "range_order st ord" and "store_inv now st" and "tid \<noteq> ''''"
  shows "set (store_List ord tid st) = {r. st (r_ID r) = Some r \<and> r_TenantID r = tid} \<and>
         distinct (map r_ID (store_List ord tid st))"
proof
  have id: "r_ID r = i" if "st i = Some r" for i r
    using assms(2) that by (auto simp: store_inv_def record_ok_def)
  then show "set (store_List ord tid st) = {r. st (r_ID r) = Some r \<and> r_TenantID r = tid}"
    using assms by (auto simp: set_store_List ran_def)
  have "map r_ID (List.map_filter st ord) = filter (\<lambda>i. st i \<noteq> None) ord"
    using id by (induction ord) (auto simp: List.map_filter_def)
  with assms(1) have "distinct (map r_ID (List.map_filter st ord))"
    by (simp add: range_order_def)
  then show "distinct (map r_ID (store_List ord tid st))"
    by (simp add: store_List_def distinct_map inj_on_def)
qed

theorem store_List_tenant_witness:
  "let a = zero_record\<lparr>r_ID := ''sb-1'', r_TenantID := ''ten-a'', r_State := StateQueued\<rparr>;
       b = zero_record\<lparr>r_ID := ''sb-2'', r_TenantID := ''ten-b'', r_State := StateQueued\<rparr>;
       st = [''sb-1'' \<mapsto> a, ''sb-2'' \<mapsto> b]
   in set (store_List [''sb-2'', ''sb-1''] ''ten-a'' st) =
        {r. st (r_ID r) = Some r \<and> r_TenantID r = ''ten-a''} \<and>
      distinct (map r_ID (store_List [''sb-2'', ''sb-1''] ''ten-a'' st))"
  unfolding Let_def
  by (rule store_List_tenant [where now = 0])
    (auto simp: range_order_def store_inv_def record_ok_def zero_record_def validTransitions_def)

end
