(* ===== verification/Quota.thy ===== *)
theory Quota
  imports Prelude
begin

text \<open>
  \<^verbatim>\<open>internal/quota/quota.go\<close>: the per-tenant counters of concurrent sandboxes.

  \<open>quota_store\<close> is the interface \<^verbatim>\<open>quota.Store\<close> with the laws its comments promise;
  \<open>MemoryStore\<close> is the in-process implementation, first with each method run alone, then with
  the atomic operations of concurrent calls interleaved. A counter is an \<^verbatim>\<open>int64\<close> that moves by
  one per call; it is an \<^typ>\<open>int\<close> here, \<open>2\<^sup>6\<^sup>3\<close> simultaneous calls being out of reach.
\<close>

section \<open>The interface\<close>

datatype quota_error = AtLimit string int

text \<open>The text of the error: \<^verbatim>\<open>quota: tenant %s at limit %d\<close>.\<close>

fun quota_error_msg :: "quota_error \<Rightarrow> string" where
  "quota_error_msg (AtLimit t l) = ''quota: tenant '' @ t @ '' at limit '' @ show_int l"

locale quota_store =
  fixes acquire :: "string \<Rightarrow> int \<Rightarrow> 's \<Rightarrow> (quota_error + unit) \<times> 's"
    and release :: "string \<Rightarrow> 's \<Rightarrow> 's"
    and current :: "string \<Rightarrow> 's \<Rightarrow> int"
  assumes acquire_ok: "fst (acquire t limit s) = Inr () \<longleftrightarrow> current t s < limit"
    and acquire_current:
      "current u (snd (acquire t limit s)) =
       current u s + (if u = t \<and> current t s < limit then 1 else 0)"
    and release_current:
      "current u (release t s) =
       (if u = t \<and> 0 < current t s then current t s - 1 else current u s)"

datatype quota_op = QAcquire string | QRelease string

text \<open>A run of calls under one limit, with the number of slots each tenant was granted.\<close>

fun quota_run ::
  "(string \<Rightarrow> int \<Rightarrow> 's \<Rightarrow> (quota_error + unit) \<times> 's) \<Rightarrow> (string \<Rightarrow> 's \<Rightarrow> 's) \<Rightarrow>
   int \<Rightarrow> quota_op list \<Rightarrow> 's \<Rightarrow> 's" where
  "quota_run acq rel limit [] s = s"
| "quota_run acq rel limit (QAcquire t # ops) s =
     quota_run acq rel limit ops (snd (acq t limit s))"
| "quota_run acq rel limit (QRelease t # ops) s = quota_run acq rel limit ops (rel t s)"

context quota_store
begin

lemma run_bounds:
  "0 \<le> limit \<Longrightarrow> 0 \<le> current t s \<Longrightarrow> current t s \<le> limit \<Longrightarrow>
   0 \<le> current t (quota_run acquire release limit ops s) \<and>
   current t (quota_run acquire release limit ops s) \<le> limit"
proof (induction ops arbitrary: s)
  case Nil
  then show ?case by simp
next
  case (Cons oper ops)
  show ?case
  proof (cases oper)
    case (QAcquire u)
    with Cons.IH [of "snd (acquire u limit s)"] Cons.prems show ?thesis
      by (simp add: acquire_current)
  next
    case (QRelease u)
    have "0 \<le> current t (release u s) \<and> current t (release u s) \<le> limit"
      using Cons.prems by (auto simp: release_current)
    with QRelease Cons.IH [of "release u s"] Cons.prems(1) show ?thesis by simp
  qed
qed

lemma run_other_tenant:
  "(\<forall>oper \<in> set ops. oper \<noteq> QAcquire t \<and> oper \<noteq> QRelease t) \<Longrightarrow>
   current t (quota_run acquire release limit ops s) = current t s"
proof (induction ops arbitrary: s)
  case Nil
  then show ?case by simp
next
  case (Cons oper ops)
  then show ?case
    by (cases oper) (auto simp: acquire_current release_current)
qed

lemma release_frees:
  assumes "0 < limit" and "0 < current t s" and "current t s \<le> limit"
  shows "fst (acquire t limit (release t s)) = Inr ()"
  using assms by (simp add: acquire_ok release_current)

end

section \<open>MemoryStore, one call at a time\<close>

type_synonym MemoryStore = "string \<rightharpoonup> int"

definition NewMemoryStore :: MemoryStore where
  "NewMemoryStore = Map.empty"

text \<open>
  \<^verbatim>\<open>getOrCreate\<close> returns the tenant's cell, made on first use and never replaced: its content and
  the map that now has it.
\<close>

definition getOrCreate :: "string \<Rightarrow> MemoryStore \<Rightarrow> int \<times> MemoryStore" where
  "getOrCreate tenantID s =
     (case s tenantID of Some v \<Rightarrow> (v, s) | None \<Rightarrow> (0, s(tenantID \<mapsto> 0)))"

definition quota_Acquire ::
  "string \<Rightarrow> int \<Rightarrow> MemoryStore \<Rightarrow> (quota_error + unit) \<times> MemoryStore" where
  "quota_Acquire tenantID limit s =
     (let (v, s1) = getOrCreate tenantID s;
          newVal = v + 1;
          s2 = s1(tenantID \<mapsto> newVal)
      in if newVal > limit
         then (Inl (AtLimit tenantID limit), s2(tenantID \<mapsto> newVal - 1))
         else (Inr (), s2))"

definition quota_Release :: "string \<Rightarrow> MemoryStore \<Rightarrow> MemoryStore" where
  "quota_Release tenantID s =
     (let (v, s1) = getOrCreate tenantID s
      in if v > 0 then s1(tenantID \<mapsto> v - 1) else s1)"

definition quota_Current :: "string \<Rightarrow> MemoryStore \<Rightarrow> int" where
  "quota_Current tenantID s = fst (getOrCreate tenantID s)"

interpretation mq: quota_store quota_Acquire quota_Release quota_Current
  by unfold_locales
    (auto simp: quota_Acquire_def quota_Release_def quota_Current_def getOrCreate_def Let_def
      split: option.splits)

lemma quota_Current_new [simp]: "quota_Current t NewMemoryStore = 0"
  by (simp add: quota_Current_def getOrCreate_def NewMemoryStore_def)

lemma quota_Acquire_error:
  "fst (quota_Acquire t limit s) = Inl e \<longleftrightarrow> limit \<le> quota_Current t s \<and> e = AtLimit t limit"
  by (auto simp: quota_Acquire_def quota_Current_def getOrCreate_def Let_def split: option.splits)

section \<open>MemoryStore under concurrent calls\<close>

text \<open>
  The cell of one tenant, shared by the goroutines that serve requests. \<^verbatim>\<open>Acquire\<close> adds one
  (\<^verbatim>\<open>AddInt64\<close>), compares the value it got with the limit, and takes the one back when it is
  over; \<^verbatim>\<open>Release\<close> reads the counter (\<^verbatim>\<open>LoadInt64\<close>) and, if it was positive, subtracts one. Each
  of these is one step; between two steps of a call any other call may run. A call in flight is
  \<open>Added v\<close> (added, got \<open>v\<close>) or \<open>Loaded\<close> (read a positive counter). \<open>q_live\<close> is a ghost: the
  slots granted and not given back. With \<open>owned\<close> a slot is given back only by who holds it;
  without, \<^verbatim>\<open>Release\<close> may be called at any time.
\<close>

datatype quota_call = Added int | Loaded

record quota_cell =
  q_counter :: int
  q_live :: int
  q_calls :: "quota_call multiset"

inductive quota_step :: "bool \<Rightarrow> int \<Rightarrow> quota_cell \<Rightarrow> quota_cell \<Rightarrow> bool"
  for owned :: bool and limit :: int where
  acquire_add:
    "quota_step owned limit s
       (s\<lparr>q_counter := q_counter s + 1,
          q_calls := add_mset (Added (q_counter s + 1)) (q_calls s)\<rparr>)"
| acquire_grant:
    "Added v \<in># q_calls s \<Longrightarrow> v \<le> limit \<Longrightarrow>
     quota_step owned limit s
       (s\<lparr>q_live := q_live s + 1, q_calls := q_calls s - {#Added v#}\<rparr>)"
| acquire_roll_back:
    "Added v \<in># q_calls s \<Longrightarrow> v > limit \<Longrightarrow>
     quota_step owned limit s
       (s\<lparr>q_counter := q_counter s - 1, q_calls := q_calls s - {#Added v#}\<rparr>)"
| release_load:
    "(owned \<longrightarrow> q_live s > 0) \<Longrightarrow> q_counter s > 0 \<Longrightarrow>
     quota_step owned limit s
       (s\<lparr>q_live := max 0 (q_live s - 1), q_calls := add_mset Loaded (q_calls s)\<rparr>)"
| release_zero:
    "(owned \<longrightarrow> q_live s > 0) \<Longrightarrow> q_counter s \<le> 0 \<Longrightarrow>
     quota_step owned limit s (s\<lparr>q_live := max 0 (q_live s - 1)\<rparr>)"
| release_sub:
    "Loaded \<in># q_calls s \<Longrightarrow>
     quota_step owned limit s
       (s\<lparr>q_counter := q_counter s - 1, q_calls := q_calls s - {#Loaded#}\<rparr>)"

definition quota_start :: quota_cell where
  "quota_start = \<lparr>q_counter = 0, q_live = 0, q_calls = {#}\<rparr>"

definition quota_reachable :: "bool \<Rightarrow> int \<Rightarrow> quota_cell \<Rightarrow> bool" where
  "quota_reachable owned limit s \<longleftrightarrow> (quota_step owned limit)\<^sup>*\<^sup>* quota_start s"

text \<open>Calls that count against the limit: everything but an \<^verbatim>\<open>Acquire\<close> bound to be rolled back.\<close>

definition counts :: "int \<Rightarrow> quota_call \<Rightarrow> bool" where
  "counts limit c = (case c of Added v \<Rightarrow> v \<le> limit | Loaded \<Rightarrow> True)"

definition quota_inv :: "int \<Rightarrow> quota_cell \<Rightarrow> bool" where
  "quota_inv limit s \<longleftrightarrow>
     0 \<le> q_live s \<and>
     q_counter s = int (size (q_calls s)) + q_live s \<and>
     int (size (filter_mset (counts limit) (q_calls s))) + q_live s \<le> limit"

lemma quota_step_inv:
  assumes "quota_step True limit s s'" and "quota_inv limit s" and "0 \<le> limit"
  shows "quota_inv limit s'"
  using assms(1)
proof cases
  case acquire_add
  show ?thesis
  proof (cases "q_counter s + 1 \<le> limit")
    case True
    with acquire_add assms(2) show ?thesis
      by (simp add: quota_inv_def counts_def)
        (use size_filter_mset_lesseq [of "counts limit" "q_calls s"] in linarith)
  next
    case False
    with acquire_add assms(2) show ?thesis by (simp add: quota_inv_def counts_def)
  qed
next
  case (acquire_grant v)
  then obtain M where "q_calls s = add_mset (Added v) M" by (metis insert_DiffM)
  with acquire_grant assms(2) show ?thesis by (simp add: quota_inv_def counts_def)
next
  case (acquire_roll_back v)
  then obtain M where "q_calls s = add_mset (Added v) M" by (metis insert_DiffM)
  with acquire_roll_back assms(2) show ?thesis by (simp add: quota_inv_def counts_def)
next
  case release_load
  with assms(2) show ?thesis by (simp add: quota_inv_def counts_def)
next
  case release_zero
  with assms(2) show ?thesis by (simp add: quota_inv_def)
next
  case release_sub
  then obtain M where "q_calls s = add_mset Loaded M" by (metis insert_DiffM)
  with release_sub assms(2) show ?thesis by (simp add: quota_inv_def counts_def)
qed

lemma quota_reachable_inv:
  assumes "0 \<le> limit" and "quota_reachable True limit s"
  shows "quota_inv limit s"
  using assms(2) unfolding quota_reachable_def
proof (induction rule: rtranclp_induct)
  case base
  then show ?case using assms(1) by (simp add: quota_inv_def quota_start_def)
next
  case (step s s')
  then show ?case using assms(1) quota_step_inv by blast
qed

text \<open>An \<^verbatim>\<open>Acquire\<close> that runs alone, as two steps.\<close>

lemma acquire_alone:
  assumes "q_counter s + 1 \<le> limit"
  shows "(quota_step owned limit)\<^sup>*\<^sup>* s (s\<lparr>q_counter := q_counter s + 1, q_live := q_live s + 1\<rparr>)"
proof -
  let ?a = "s\<lparr>q_counter := q_counter s + 1,
    q_calls := add_mset (Added (q_counter s + 1)) (q_calls s)\<rparr>"
  have "quota_step owned limit s ?a" by (rule quota_step.acquire_add)
  moreover have "quota_step owned limit ?a
      (?a\<lparr>q_live := q_live ?a + 1, q_calls := q_calls ?a - {#Added (q_counter s + 1)#}\<rparr>)"
    using assms by (intro quota_step.acquire_grant) simp_all
  ultimately show ?thesis by (simp add: converse_rtranclp_into_rtranclp)
qed

lemma acquires_alone:
  "q_counter s + int n \<le> limit \<Longrightarrow>
   (quota_step owned limit)\<^sup>*\<^sup>* s
     (s\<lparr>q_counter := q_counter s + int n, q_live := q_live s + int n\<rparr>)"
proof (induction n)
  case 0
  then show ?case by simp
next
  case (Suc n)
  let ?m = "s\<lparr>q_counter := q_counter s + int n, q_live := q_live s + int n\<rparr>"
  have 1: "(quota_step owned limit)\<^sup>*\<^sup>* s ?m" using Suc by simp
  have 2: "(quota_step owned limit)\<^sup>*\<^sup>* ?m
      (?m\<lparr>q_counter := q_counter ?m + 1, q_live := q_live ?m + 1\<rparr>)"
    using Suc.prems by (intro acquire_alone) simp
  have "?m\<lparr>q_counter := q_counter ?m + 1, q_live := q_live ?m + 1\<rparr> =
      s\<lparr>q_counter := q_counter s + int (Suc n), q_live := q_live s + int (Suc n)\<rparr>"
    by (simp add: ac_simps)
  with rtranclp_trans [OF 1 2] show ?case by metis
qed

section \<open>Properties\<close>

text \<open>
  C22: run one call at a time, a store that starts empty keeps every tenant's count between zero
  and the limit, and the calls of one tenant never touch another's count.
\<close>

theorem quota_bounds:
  assumes "0 \<le> limit"
  shows "0 \<le> quota_Current t (quota_run quota_Acquire quota_Release limit ops NewMemoryStore) \<and>
         quota_Current t (quota_run quota_Acquire quota_Release limit ops NewMemoryStore) \<le> limit \<and>
         ((\<forall>oper \<in> set ops. oper \<noteq> QAcquire t \<and> oper \<noteq> QRelease t) \<longrightarrow>
          quota_Current t (quota_run quota_Acquire quota_Release limit ops NewMemoryStore) = 0)"
  using mq.run_bounds [of limit t NewMemoryStore ops] mq.run_other_tenant [of ops t limit NewMemoryStore]
    assms by simp

theorem quota_bounds_witness:
  "quota_Current ''ten-a''
     (quota_run quota_Acquire quota_Release 2
        [QAcquire ''ten-a'', QAcquire ''ten-a'', QAcquire ''ten-a''] NewMemoryStore) \<le> 2 \<and>
   quota_Current ''ten-b''
     (quota_run quota_Acquire quota_Release 2
        [QAcquire ''ten-a'', QAcquire ''ten-a'', QAcquire ''ten-a''] NewMemoryStore) = 0"
  using quota_bounds [of 2 "''ten-a''" "[QAcquire ''ten-a'', QAcquire ''ten-a'', QAcquire ''ten-a'']"]
    quota_bounds [of 2 "''ten-b''" "[QAcquire ''ten-a'', QAcquire ''ten-a'', QAcquire ''ten-a'']"]
  by simp

text \<open>
  C9: under any interleaving of the atomic operations of concurrent calls, as long as a slot is
  released only by its holder, no more than \<open>limit\<close> slots are held, the counter is never
  negative, and with no call in flight it is exactly the number of slots held.
\<close>

theorem quota_concurrent_safe:
  assumes "0 \<le> limit" and "quota_reachable True limit s"
  shows "q_live s \<le> limit \<and> 0 \<le> q_counter s \<and> (q_calls s = {#} \<longrightarrow> q_counter s = q_live s)"
proof -
  from quota_reachable_inv [OF assms] show ?thesis by (auto simp: quota_inv_def)
qed

theorem quota_concurrent_safe_witness:
  "q_live (quota_start\<lparr>q_counter := 2, q_live := 2\<rparr>) \<le> 2"
proof -
  have "quota_reachable True 2 (quota_start\<lparr>q_counter := 2, q_live := 2\<rparr>)"
    using acquires_alone [of quota_start 2 2 True]
    by (simp add: quota_reachable_def quota_start_def)
  from quota_concurrent_safe [OF _ this] show ?thesis by simp
qed

text \<open>
  When \<^verbatim>\<open>Release\<close> may also be called for a slot that was given back before, two calls that
  both read the counter at one drive it to \<open>-1\<close>, although the comment calls this safe; from
  there the store grants one slot more than the limit.
\<close>

theorem quota_release_race:
  assumes "1 \<le> limit"
  shows "(\<exists>s. quota_reachable False limit s \<and> q_counter s = -1) \<and>
         (\<exists>s. quota_reachable False limit s \<and> q_live s = limit + 1)"
proof -
  let ?one = "quota_start\<lparr>q_counter := 1, q_live := 1\<rparr>"
  let ?l1 = "?one\<lparr>q_live := 0, q_calls := {#Loaded#}\<rparr>"
  let ?l2 = "?l1\<lparr>q_calls := {#Loaded, Loaded#}\<rparr>"
  let ?d1 = "?l2\<lparr>q_counter := 0, q_calls := {#Loaded#}\<rparr>"
  let ?neg = "?d1\<lparr>q_counter := -1, q_calls := {#}\<rparr>"
  have "(quota_step False limit)\<^sup>*\<^sup>* quota_start ?one"
    using acquire_alone [of quota_start limit False] assms by (simp add: quota_start_def)
  moreover have "quota_step False limit ?one ?l1"
    using quota_step.release_load [of False ?one limit] by (simp add: quota_start_def)
  moreover have "quota_step False limit ?l1 ?l2"
    using quota_step.release_load [of False ?l1 limit] by (simp add: quota_start_def)
  moreover have "quota_step False limit ?l2 ?d1"
    using quota_step.release_sub [of ?l2 False limit] by (simp add: quota_start_def)
  moreover have "quota_step False limit ?d1 ?neg"
    using quota_step.release_sub [of ?d1 False limit] by (simp add: quota_start_def)
  ultimately have neg: "(quota_step False limit)\<^sup>*\<^sup>* quota_start ?neg"
    by (meson rtranclp.rtrancl_into_rtrancl)
  have "(quota_step False limit)\<^sup>*\<^sup>* ?neg
      (?neg\<lparr>q_counter := limit, q_live := limit + 1\<rparr>)"
    using acquires_alone [of ?neg "nat (limit + 1)" limit False] assms by (simp add: quota_start_def)
  from rtranclp_trans [OF neg this] neg show ?thesis
    unfolding quota_reachable_def by (intro conjI exI conjI) (assumption | simp)+
qed

theorem quota_release_race_witness:
  "\<exists>s. quota_reachable False 20 s \<and> q_live s = 21"
  using quota_release_race [of 20] by simp

end
