(* ===== verification/SandboxSpec.thy ===== *)
theory SandboxSpec
  imports Prelude
begin

text \<open>
  \<^verbatim>\<open>internal/spec/spec.go\<close> (the description of a sandbox and its validation) and
  \<^verbatim>\<open>internal/id/id.go\<close> (identifiers). The text of a UUID comes from the package
  \<^verbatim>\<open>google/uuid\<close> and is an argument.
\<close>

section \<open>Specifications\<close>

record SandboxSpec =
  sp_Image :: string
  sp_CPUMillis :: u32
  sp_MemoryMiB :: u32
  sp_TimeoutMs :: u32
  sp_EgressAllowlist :: "string list"
  sp_TenantID :: string

record SpecExecRequest =
  x_SandboxID :: string
  x_Command :: string
  x_Stdin :: string
  x_TimeoutMs :: u32

record SpecExecResult =
  xr_Stdout :: string
  xr_Stderr :: string
  xr_ExitCode :: int
  xr_DurationMs :: int

text \<open>The messages, in the order the checks run.\<close>

definition spec_errs :: "SandboxSpec \<Rightarrow> string list" where
  "spec_errs s =
     (if sp_Image s = '''' then [''image must not be empty''] else []) @
     (if sp_CPUMillis s = 0 \<or> sp_CPUMillis s > 32000
      then [''cpu_millis must be between 1 and 32000''] else []) @
     (if sp_MemoryMiB s < 64 \<or> sp_MemoryMiB s > 32768
      then [''memory_mib must be between 64 and 32768''] else []) @
     (if sp_TimeoutMs s = 0 \<or> sp_TimeoutMs s > 3600000
      then [''timeout_ms must be between 1 and 3600000 (1 hour)''] else [])"

definition spec_Validate :: "SandboxSpec \<Rightarrow> string + unit" where
  "spec_Validate s =
     (let errs = spec_errs s
      in if length errs > 0 then Inl (''spec validation: '' @ join_with ''; '' errs) else Inr ())"

definition spec_in_range :: "SandboxSpec \<Rightarrow> bool" where
  "spec_in_range s \<longleftrightarrow>
     sp_Image s \<noteq> '''' \<and>
     1 \<le> unat (sp_CPUMillis s) \<and> unat (sp_CPUMillis s) \<le> 32000 \<and>
     64 \<le> unat (sp_MemoryMiB s) \<and> unat (sp_MemoryMiB s) \<le> 32768 \<and>
     1 \<le> unat (sp_TimeoutMs s) \<and> unat (sp_TimeoutMs s) \<le> 3600000"

lemma spec_errs_empty: "spec_errs s = [] \<longleftrightarrow> spec_in_range s"
proof -
  have cpu: "(sp_CPUMillis s = 0 \<or> sp_CPUMillis s > 32000) \<longleftrightarrow>
      \<not> (1 \<le> unat (sp_CPUMillis s) \<and> unat (sp_CPUMillis s) \<le> 32000)"
    by (auto simp: word_less_nat_alt unat_eq_0 Suc_le_eq unat_gt_0)
  have mem: "(sp_MemoryMiB s < 64 \<or> sp_MemoryMiB s > 32768) \<longleftrightarrow>
      \<not> (64 \<le> unat (sp_MemoryMiB s) \<and> unat (sp_MemoryMiB s) \<le> 32768)"
    by (auto simp: word_less_nat_alt)
  have tmo: "(sp_TimeoutMs s = 0 \<or> sp_TimeoutMs s > 3600000) \<longleftrightarrow>
      \<not> (1 \<le> unat (sp_TimeoutMs s) \<and> unat (sp_TimeoutMs s) \<le> 3600000)"
    by (auto simp: word_less_nat_alt unat_eq_0 Suc_le_eq unat_gt_0)
  show ?thesis
    unfolding spec_errs_def spec_in_range_def cpu mem tmo by (auto split: if_splits)
qed

lemma spec_Validate_ok: "spec_Validate s = Inr () \<longleftrightarrow> spec_in_range s"
  by (simp add: spec_Validate_def Let_def spec_errs_empty)

section \<open>Identifiers\<close>

definition shortUUID :: "string \<Rightarrow> go_panic + string" where
  "shortUUID uuid = slice_to (remove_char (CHR ''-'') uuid) 12"

definition NewSandbox :: "string \<Rightarrow> go_panic + string" where
  "NewSandbox uuid = map_sum id (\<lambda>u. ''sb-'' @ u) (shortUUID uuid)"

definition NewTenant :: "string \<Rightarrow> go_panic + string" where
  "NewTenant uuid = map_sum id (\<lambda>u. ''ten-'' @ u) (shortUUID uuid)"

definition NewHost :: "string \<Rightarrow> go_panic + string" where
  "NewHost uuid = map_sum id (\<lambda>u. ''host-'' @ u) (shortUUID uuid)"

text \<open>
  What \<^verbatim>\<open>uuid.New().String()\<close> is documented to return: lower-case hexadecimal digits in groups
  of 8, 4, 4, 4 and 12, joined by dashes.
\<close>

definition is_hex :: "char \<Rightarrow> bool" where
  "is_hex c \<longleftrightarrow> c \<in> set ''0123456789abcdef''"

definition canonical_uuid :: "string \<Rightarrow> bool" where
  "canonical_uuid u \<longleftrightarrow>
     map length (split_on (CHR ''-'') u) = [8, 4, 4, 4, 12] \<and>
     (\<forall>c \<in> set u. c = CHR ''-'' \<or> is_hex c)"

lemma is_hex_no_dash: "is_hex c \<Longrightarrow> c \<noteq> CHR ''-''"
  by (auto simp: is_hex_def)

lemma remove_char_concat: "remove_char c s = concat (split_on c s)"
proof (induction s)
  case (Cons x s)
  then show ?case by (auto simp: remove_char_def split: list.splits)
qed (simp add: remove_char_def)

lemma canonical_uuid_parts:
  assumes "canonical_uuid u"
  obtains a b r where "remove_char (CHR ''-'') u = a @ b @ r" "length a = 8" "length b = 4"
    "length r = 20" "\<forall>c \<in> set (a @ b @ r). is_hex c"
proof -
  obtain a b c d e where s: "split_on (CHR ''-'') u = [a, b, c, d, e]"
    and len: "length a = 8" "length b = 4" "length c = 4" "length d = 4" "length e = 12"
    using assms by (auto simp: canonical_uuid_def map_eq_Cons_conv)
  have "remove_char (CHR ''-'') u = a @ b @ (c @ d @ e)"
    by (simp add: remove_char_concat s)
  moreover have "\<forall>x \<in> set (remove_char (CHR ''-'') u). is_hex x"
    using assms by (auto simp: canonical_uuid_def remove_char_def)
  ultimately show ?thesis using that [of a b "c @ d @ e"] len by simp
qed

lemma shortUUID_canonical:
  assumes "canonical_uuid u"
  shows "\<exists>w. shortUUID u = Inr w \<and> length w = 12 \<and> (\<forall>c \<in> set w. is_hex c)"
proof -
  from canonical_uuid_parts [OF assms] obtain a b r
    where p: "remove_char (CHR ''-'') u = a @ b @ r" "length a = 8" "length b = 4"
      "length r = 20" "\<forall>c \<in> set (a @ b @ r). is_hex c" by metis
  then have "shortUUID u = Inr (a @ b)" by (simp add: shortUUID_def slice_to_def)
  with p show ?thesis by auto
qed

section \<open>Properties\<close>

text \<open>
  C23: \<^verbatim>\<open>Validate\<close> accepts a specification exactly when all four fields are in range; otherwise
  its error names every field out of range and no other, in the order of the checks.
\<close>

theorem spec_Validate_exact:
  "(spec_Validate s = Inr () \<longleftrightarrow> spec_in_range s) \<and>
   (\<forall>msg. spec_Validate s = Inl msg \<longrightarrow>
      (\<exists>errs. msg = ''spec validation: '' @ join_with ''; '' errs \<and> errs \<noteq> [] \<and> distinct errs \<and>
         (''image must not be empty'' \<in> set errs \<longleftrightarrow> sp_Image s = '''') \<and>
         (''cpu_millis must be between 1 and 32000'' \<in> set errs \<longleftrightarrow>
            unat (sp_CPUMillis s) \<notin> {1..32000}) \<and>
         (''memory_mib must be between 64 and 32768'' \<in> set errs \<longleftrightarrow>
            unat (sp_MemoryMiB s) \<notin> {64..32768}) \<and>
         (''timeout_ms must be between 1 and 3600000 (1 hour)'' \<in> set errs \<longleftrightarrow>
            unat (sp_TimeoutMs s) \<notin> {1..3600000})))"
proof (intro conjI allI impI)
  show "spec_Validate s = Inr () \<longleftrightarrow> spec_in_range s" by (rule spec_Validate_ok)
  fix msg
  assume "spec_Validate s = Inl msg"
  then have "msg = ''spec validation: '' @ join_with ''; '' (spec_errs s)" "spec_errs s \<noteq> []"
    by (auto simp: spec_Validate_def Let_def split: if_splits)
  moreover have "distinct (spec_errs s)" by (simp add: spec_errs_def)
  moreover have
    "''image must not be empty'' \<in> set (spec_errs s) \<longleftrightarrow> sp_Image s = ''''"
    "''cpu_millis must be between 1 and 32000'' \<in> set (spec_errs s) \<longleftrightarrow>
       unat (sp_CPUMillis s) \<notin> {1..32000}"
    "''memory_mib must be between 64 and 32768'' \<in> set (spec_errs s) \<longleftrightarrow>
       unat (sp_MemoryMiB s) \<notin> {64..32768}"
    "''timeout_ms must be between 1 and 3600000 (1 hour)'' \<in> set (spec_errs s) \<longleftrightarrow>
       unat (sp_TimeoutMs s) \<notin> {1..3600000}"
    by (auto simp: spec_errs_def word_less_nat_alt unat_eq_0 Suc_le_eq unat_gt_0 not_le)
  ultimately show "\<exists>errs. msg = ''spec validation: '' @ join_with ''; '' errs \<and> errs \<noteq> [] \<and>
      distinct errs \<and> (''image must not be empty'' \<in> set errs \<longleftrightarrow> sp_Image s = '''') \<and>
      (''cpu_millis must be between 1 and 32000'' \<in> set errs \<longleftrightarrow>
         unat (sp_CPUMillis s) \<notin> {1..32000}) \<and>
      (''memory_mib must be between 64 and 32768'' \<in> set errs \<longleftrightarrow>
         unat (sp_MemoryMiB s) \<notin> {64..32768}) \<and>
      (''timeout_ms must be between 1 and 3600000 (1 hour)'' \<in> set errs \<longleftrightarrow>
         unat (sp_TimeoutMs s) \<notin> {1..3600000})"
    by blast
qed

theorem spec_Validate_exact_witness:
  "let s = \<lparr>sp_Image = ''base'', sp_CPUMillis = 0, sp_MemoryMiB = 256, sp_TimeoutMs = 30000,
            sp_EgressAllowlist = [], sp_TenantID = ''ten-a''\<rparr>
   in \<exists>errs. spec_Validate s = Inl (''spec validation: '' @ join_with ''; '' errs) \<and>
             ''cpu_millis must be between 1 and 32000'' \<in> set errs"
proof -
  let ?s = "\<lparr>sp_Image = ''base'', sp_CPUMillis = 0, sp_MemoryMiB = 256, sp_TimeoutMs = 30000,
            sp_EgressAllowlist = [], sp_TenantID = ''ten-a''\<rparr> :: SandboxSpec"
  have "\<not> spec_in_range ?s" by (simp add: spec_in_range_def)
  then have "spec_Validate ?s \<noteq> Inr ()" using spec_Validate_exact [of ?s] by blast
  then obtain msg where m: "spec_Validate ?s = Inl msg" by (cases "spec_Validate ?s") auto
  with spec_Validate_exact [of ?s] show ?thesis by (auto simp: Let_def)
qed

text \<open>
  With a well-formed UUID a sandbox identifier is always made, without a panic; it is
  \<^verbatim>\<open>sb-\<close> and twelve hexadecimal digits, fifteen bytes, so the eight-byte prefix the
  host agent slices off for an interface name always exists.
\<close>

theorem NewSandbox_shape:
  assumes "canonical_uuid u"
  shows "\<exists>w. NewSandbox u = Inr (''sb-'' @ w) \<and> length w = 12 \<and> (\<forall>c \<in> set w. is_hex c) \<and>
             is_ok (slice_to (''sb-'' @ w) 8)"
  using shortUUID_canonical [OF assms] by (auto simp: NewSandbox_def slice_to_def)

theorem NewSandbox_shape_witness:
  "\<exists>w. NewSandbox ''0a1b2c3d-4e5f-4071-8293-a4b5c6d7e8f9'' = Inr (''sb-'' @ w) \<and> length w = 12"
proof -
  have "canonical_uuid ''0a1b2c3d-4e5f-4071-8293-a4b5c6d7e8f9''"
    by (simp add: canonical_uuid_def is_hex_def)
  from NewSandbox_shape [OF this] show ?thesis by blast
qed

end
