(* ===== verification/Fencing.thy ===== *)
theory Fencing
  imports Prelude
begin

text \<open>
  \<^verbatim>\<open>internal/fencing/fencing.go\<close>: the counter of missed heartbeats that decides when a host is
  fenced, and the fencers. \<open>host_fencer\<close> is the interface \<^verbatim>\<open>HostFencer\<close>; a fencer acts on a
  world outside the program, so its methods take and return that world.
\<close>

section \<open>Fencers\<close>

text \<open>
  \<^verbatim>\<open>LogFencer\<close> writes one line per event and reports no error; the world it acts on is the list
  of lines, newest last, here the event and the host.
\<close>

datatype fence_event = FENCE string | UNFENCE string

definition log_Fence :: "string \<Rightarrow> fence_event list \<Rightarrow> string option \<times> fence_event list" where
  "log_Fence hostID out = (None, out @ [FENCE hostID])"

definition log_Unfence :: "string \<Rightarrow> fence_event list \<Rightarrow> string option \<times> fence_event list" where
  "log_Unfence hostID out = (None, out @ [UNFENCE hostID])"

text \<open>
  The interface \<^verbatim>\<open>HostFencer\<close>. \<open>off\<close> is what an observer of the world sees: the host is powered off
  or isolated. Fencing that succeeds leaves its host off, unfencing that succeeds leaves it on,
  neither touches another host, and fencing a host that is off is not an error.
\<close>

locale host_fencer =
  fixes fence :: "string \<Rightarrow> 'w \<Rightarrow> string option \<times> 'w"
    and unfence :: "string \<Rightarrow> 'w \<Rightarrow> string option \<times> 'w"
    and off :: "string \<Rightarrow> 'w \<Rightarrow> bool"
  assumes fence_off: "fst (fence h w) = None \<Longrightarrow> off h (snd (fence h w))"
    and fence_keeps: "off g w \<Longrightarrow> off g (snd (fence h w))"
    and fence_other: "g \<noteq> h \<Longrightarrow> off g (snd (fence h w)) = off g w"
    and fence_idem: "off h w \<Longrightarrow> fst (fence h w) = None"
    and unfence_on: "fst (unfence h w) = None \<Longrightarrow> \<not> off h (snd (unfence h w))"
    and unfence_other: "g \<noteq> h \<Longrightarrow> off g (snd (unfence h w)) = off g w"

text \<open>Fencing a list of hosts, whatever the outcomes.\<close>

fun fence_each :: "(string \<Rightarrow> 'w \<Rightarrow> string option \<times> 'w) \<Rightarrow> string list \<Rightarrow> 'w \<Rightarrow> 'w" where
  "fence_each fence [] w = w"
| "fence_each fence (h # hs) w = fence_each fence hs (snd (fence h w))"

context host_fencer
begin

lemma fence_each_keeps: "off g w \<Longrightarrow> off g (fence_each fence hs w)"
  by (induction hs arbitrary: w) (auto intro: fence_keeps)

lemma fence_each_only: "g \<notin> set hs \<Longrightarrow> off g (fence_each fence hs w) = off g w"
  by (induction hs arbitrary: w) (auto simp: fence_other)

end

text \<open>For \<^verbatim>\<open>LogFencer\<close>, a host is off when the last line about it says so.\<close>

fun log_event_host :: "fence_event \<Rightarrow> string" where
  "log_event_host (FENCE h) = h"
| "log_event_host (UNFENCE h) = h"

definition log_off :: "string \<Rightarrow> fence_event list \<Rightarrow> bool" where
  "log_off h out =
     (case filter (\<lambda>e. log_event_host e = h) (rev out) of [] \<Rightarrow> False | e # _ \<Rightarrow> e = FENCE h)"

interpretation lf: host_fencer log_Fence log_Unfence log_off
  by unfold_locales (auto simp: log_Fence_def log_Unfence_def log_off_def split: list.splits)

text \<open>
  \<^verbatim>\<open>IPMIFencer\<close> runs \<^verbatim>\<open>ipmitool\<close> with the host's controller address and credentials. Running a
  command is an argument: it maps the argument vector and the world to the command's output, its
  error, if any, and the new world. \<^verbatim>\<open>%v\<close> of the argument slice is its words in brackets.
\<close>

record IPMIFencer =
  ipmi_BMCAddrs :: "string \<rightharpoonup> string"
  ipmi_Username :: string
  ipmi_Password :: string

type_synonym 'w command = "string list \<Rightarrow> 'w \<Rightarrow> (string \<times> string option) \<times> 'w"

definition ipmi_run ::
  "'w command \<Rightarrow> IPMIFencer \<Rightarrow> string \<Rightarrow> string list \<Rightarrow> 'w \<Rightarrow> string option \<times> 'w" where
  "ipmi_run exec f bmc args w =
     (let baseArgs = [''-H'', bmc, ''-U'', ipmi_Username f, ''-P'', ipmi_Password f,
                      ''-I'', ''lanplus'']
      in case exec (''ipmitool'' # baseArgs @ args) w of
           ((out, Some err), w') \<Rightarrow>
             (Some (''fencing: ipmitool ['' @ join_with '' '' args @ '']: '' @ err @
                    '' (output: '' @ out @ '')''), w')
         | ((out, None), w') \<Rightarrow> (None, w'))"

definition ipmi_Fence ::
  "'w command \<Rightarrow> IPMIFencer \<Rightarrow> string \<Rightarrow> 'w \<Rightarrow> string option \<times> 'w" where
  "ipmi_Fence exec f hostID w =
     (case ipmi_BMCAddrs f hostID of
        None \<Rightarrow> (Some (''fencing: no BMC address configured for host '' @ hostID), w)
      | Some bmc \<Rightarrow> ipmi_run exec f bmc [''chassis'', ''power'', ''off''] w)"

definition ipmi_Unfence ::
  "'w command \<Rightarrow> IPMIFencer \<Rightarrow> string \<Rightarrow> 'w \<Rightarrow> string option \<times> 'w" where
  "ipmi_Unfence exec f hostID w =
     (case ipmi_BMCAddrs f hostID of
        None \<Rightarrow> (Some (''fencing: no BMC address configured for host '' @ hostID), w)
      | Some bmc \<Rightarrow> ipmi_run exec f bmc [''chassis'', ''power'', ''on''] w)"

section \<open>The health scorer\<close>

record HealthScorer =
  MissThreshold :: int
  missed :: "string \<rightharpoonup> int"

definition NewHealthScorer :: "int \<Rightarrow> HealthScorer" where
  "NewHealthScorer threshold =
     (let t = (if threshold \<le> 0 then 3 else threshold)
      in \<lparr>MissThreshold = t, missed = Map.empty\<rparr>)"

text \<open>Reading a missing key of a Go map gives the zero value.\<close>

definition Misses :: "string \<Rightarrow> HealthScorer \<Rightarrow> int" where
  "Misses hostID s = (case missed s hostID of None \<Rightarrow> 0 | Some n \<Rightarrow> n)"

definition RecordSuccess :: "string \<Rightarrow> HealthScorer \<Rightarrow> HealthScorer" where
  "RecordSuccess hostID s = s\<lparr>missed := (missed s)(hostID \<mapsto> 0)\<rparr>"

definition RecordMiss :: "string \<Rightarrow> HealthScorer \<Rightarrow> bool \<times> HealthScorer" where
  "RecordMiss hostID s =
     (let s' = s\<lparr>missed := (missed s)(hostID \<mapsto> Misses hostID s + 1)\<rparr>
      in (Misses hostID s' \<ge> MissThreshold s', s'))"

lemma Misses_new [simp]: "Misses h (NewHealthScorer t) = 0"
  by (simp add: Misses_def NewHealthScorer_def)

lemma MissThreshold_new: "MissThreshold (NewHealthScorer t) = (if t \<le> 0 then 3 else t)"
  by (simp add: NewHealthScorer_def)

lemma Misses_RecordSuccess [simp]:
  "Misses h (RecordSuccess g s) = (if h = g then 0 else Misses h s)"
  by (simp add: Misses_def RecordSuccess_def)

lemma Misses_RecordMiss [simp]:
  "Misses h (snd (RecordMiss g s)) = (if h = g then Misses g s + 1 else Misses h s)"
  by (simp add: Misses_def RecordMiss_def Let_def)

lemma fst_RecordMiss: "fst (RecordMiss h s) \<longleftrightarrow> MissThreshold s \<le> Misses h s + 1"
  by (simp add: Misses_def RecordMiss_def Let_def)

lemma MissThreshold_simps [simp]:
  "MissThreshold (RecordSuccess h s) = MissThreshold s"
  "MissThreshold (snd (RecordMiss h s)) = MissThreshold s"
  by (simp_all add: RecordSuccess_def RecordMiss_def Let_def)

text \<open>The heartbeats seen so far, oldest first: the host and whether it answered.\<close>

fun scorer_run :: "(string \<times> bool) list \<Rightarrow> HealthScorer \<Rightarrow> HealthScorer" where
  "scorer_run [] s = s"
| "scorer_run ((h, True) # evs) s = scorer_run evs (RecordSuccess h s)"
| "scorer_run ((h, False) # evs) s = scorer_run evs (snd (RecordMiss h s))"

definition outcomes :: "string \<Rightarrow> (string \<times> bool) list \<Rightarrow> bool list" where
  "outcomes h evs = map snd (filter (\<lambda>e. fst e = h) evs)"

definition trailing_misses :: "bool list \<Rightarrow> nat" where
  "trailing_misses bs = length (takeWhile Not (rev bs))"

lemma scorer_run_append: "scorer_run (xs @ ys) s = scorer_run ys (scorer_run xs s)"
  by (induction xs s rule: scorer_run.induct) auto

lemma scorer_run_threshold: "MissThreshold (scorer_run evs s) = MissThreshold s"
  by (induction evs s rule: scorer_run.induct) auto

lemma scorer_run_misses:
  "Misses h (scorer_run evs (NewHealthScorer t)) = int (trailing_misses (outcomes h evs))"
proof (induction evs rule: rev_induct)
  case Nil
  then show ?case by (simp add: trailing_misses_def outcomes_def)
next
  case (snoc e evs)
  obtain g b where e: "e = (g, b)" by (cases e)
  from snoc show ?case
    by (cases b) (auto simp: e scorer_run_append trailing_misses_def outcomes_def)
qed

lemma takeWhile_length_ge:
  "n \<le> length (takeWhile P xs) \<longleftrightarrow> n \<le> length xs \<and> (\<forall>x \<in> set (take n xs). P x)"
proof (induction xs arbitrary: n)
  case Nil
  then show ?case by simp
next
  case (Cons x xs)
  then show ?case by (cases n) auto
qed

lemma record_miss_iff:
  "fst (RecordMiss h (scorer_run evs (NewHealthScorer t))) \<longleftrightarrow>
   (let k = (if t \<le> 0 then 3 else nat t); last_k = take k (rev (outcomes h (evs @ [(h, False)])))
    in length last_k = k \<and> (\<forall>answered \<in> set last_k. \<not> answered))"
proof -
  let ?k = "if t \<le> 0 then 3 else nat t"
  have "fst (RecordMiss h (scorer_run evs (NewHealthScorer t))) \<longleftrightarrow>
      int ?k \<le> int (trailing_misses (outcomes h (evs @ [(h, False)])))"
    by (auto simp: fst_RecordMiss scorer_run_threshold MissThreshold_new scorer_run_misses
        trailing_misses_def outcomes_def)
  also have "\<dots> \<longleftrightarrow> ?k \<le> length (takeWhile Not (rev (outcomes h (evs @ [(h, False)]))))"
    by (simp only: of_nat_le_iff trailing_misses_def)
  also have "\<dots> \<longleftrightarrow> ?k \<le> length (outcomes h (evs @ [(h, False)])) \<and>
      (\<forall>answered \<in> set (take ?k (rev (outcomes h (evs @ [(h, False)])))). \<not> answered)"
    by (simp only: takeWhile_length_ge length_rev)
  finally show ?thesis by (auto simp: Let_def min_def)
qed

section \<open>Properties\<close>

text \<open>
  After any history of heartbeats of any hosts, a further miss of a host asks for fencing
  exactly when it completes a run of \<open>threshold\<close> consecutive misses of that host (three, when the
  configured threshold is not positive): one answer in between, and nothing is asked.
\<close>

theorem fence_iff_consecutive_misses:
  "fst (RecordMiss h (scorer_run evs (NewHealthScorer t))) \<longleftrightarrow>
   (let k = (if t \<le> 0 then 3 else nat t); last_k = take k (rev (outcomes h (evs @ [(h, False)])))
    in length last_k = k \<and> (\<forall>answered \<in> set last_k. \<not> answered))"
  by (rule record_miss_iff)

theorem fence_iff_consecutive_misses_witness:
  "fst (RecordMiss ''a'' (scorer_run [(''a'', False), (''b'', True), (''a'', False)]
          (NewHealthScorer 0)))"
  unfolding fence_iff_consecutive_misses by (simp add: outcomes_def)

end
