(* ===== verification/GoHeap.thy ===== *)
theory GoHeap
  imports Prelude
begin

text \<open>
  The functions of Go's \<^verbatim>\<open>container/heap\<close> that the scheduler calls (\<^verbatim>\<open>Init\<close>,
  \<^verbatim>\<open>Push\<close>, \<^verbatim>\<open>Pop\<close> and their helpers \<^verbatim>\<open>up\<close> and \<^verbatim>\<open>down\<close>), over an arbitrary
  implementation of \<^verbatim>\<open>heap.Interface\<close> on slices: \<^verbatim>\<open>Less\<close>, \<^verbatim>\<open>Swap\<close>, \<^verbatim>\<open>Push\<close> and
  \<^verbatim>\<open>Pop\<close> are arguments, as they are methods of the interface value in Go.

  The locale \<open>heap_interface\<close> is the contract the package documents for its callers. Under
  it the package functions keep the heap order, keep the bag of elements, and \<^verbatim>\<open>Pop\<close>
  returns a least element; the locale \<open>priority_queue\<close> is that promise, and what a client
  of the queue may rely on.
\<close>

section \<open>The package functions\<close>

text \<open>
  \<^verbatim>\<open>up(h, j)\<close> and \<^verbatim>\<open>down(h, i, n)\<close>. The index \<open>(j - 1) / 2\<close> of Go rounds towards zero, so
  it is \<open>0\<close> at \<open>j = 0\<close>, as it is on \<^typ>\<open>nat\<close>. The guard \<^verbatim>\<open>j1 < 0\<close> against overflow of the
  index never holds for a slice that fits in memory.
\<close>

function heap_up ::
  "('a list \<Rightarrow> nat \<Rightarrow> nat \<Rightarrow> bool) \<Rightarrow> ('a list \<Rightarrow> nat \<Rightarrow> nat \<Rightarrow> 'a list) \<Rightarrow>
   'a list \<Rightarrow> nat \<Rightarrow> 'a list" where
  "heap_up lt swap h j =
     (let i = (j - 1) div 2
      in if i = j \<or> \<not> lt h j i then h else heap_up lt swap (swap h i j) i)"
  by pat_completeness auto
termination
  by (relation "measure (\<lambda>(lt, swap, h, j). j)") auto

function heap_down ::
  "('a list \<Rightarrow> nat \<Rightarrow> nat \<Rightarrow> bool) \<Rightarrow> ('a list \<Rightarrow> nat \<Rightarrow> nat \<Rightarrow> 'a list) \<Rightarrow>
   'a list \<Rightarrow> nat \<Rightarrow> nat \<Rightarrow> 'a list" where
  "heap_down lt swap h i n =
     (let j1 = 2 * i + 1
      in if j1 \<ge> n then h
         else let j2 = j1 + 1; j = (if j2 < n \<and> lt h j2 j1 then j2 else j1)
              in if \<not> lt h j i then h else heap_down lt swap (swap h i j) j n)"
  by pat_completeness auto
termination
  by (relation "measure (\<lambda>(lt, swap, h, i, n). n - i)") (auto simp: Let_def split: if_splits)

declare heap_up.simps [simp del] heap_down.simps [simp del]

lemma heap_down_unfold:
  "heap_down lt swap h i n =
     (let j = (if 2 * i + 2 < n \<and> lt h (2 * i + 2) (2 * i + 1) then 2 * i + 2 else 2 * i + 1)
      in if n \<le> 2 * i + 1 \<or> \<not> lt h j i then h else heap_down lt swap (swap h i j) j n)"
  by (subst heap_down.simps) (simp only: Let_def add.assoc one_add_one if_not_P split: if_splits, blast)

definition heap_Init ::
  "('a list \<Rightarrow> nat \<Rightarrow> nat \<Rightarrow> bool) \<Rightarrow> ('a list \<Rightarrow> nat \<Rightarrow> nat \<Rightarrow> 'a list) \<Rightarrow>
   'a list \<Rightarrow> 'a list" where
  "heap_Init lt swap h =
     fold (\<lambda>i h'. heap_down lt swap h' i (length h)) (rev [0..<length h div 2]) h"

definition heap_Push ::
  "('a list \<Rightarrow> nat \<Rightarrow> nat \<Rightarrow> bool) \<Rightarrow> ('a list \<Rightarrow> nat \<Rightarrow> nat \<Rightarrow> 'a list) \<Rightarrow>
   ('a list \<Rightarrow> 'a \<Rightarrow> 'a list) \<Rightarrow> 'a list \<Rightarrow> 'a \<Rightarrow> 'a list" where
  "heap_Push lt swap push h x =
     (let h' = push h x in heap_up lt swap h' (length h' - 1))"

text \<open>\<^verbatim>\<open>Pop\<close> of an empty heap swaps at index \<open>-1\<close>: a run-time panic.\<close>

definition heap_Pop ::
  "('a list \<Rightarrow> nat \<Rightarrow> nat \<Rightarrow> bool) \<Rightarrow> ('a list \<Rightarrow> nat \<Rightarrow> nat \<Rightarrow> 'a list) \<Rightarrow>
   ('a list \<Rightarrow> 'a \<times> 'a list) \<Rightarrow> 'a list \<Rightarrow> go_panic + 'a \<times> 'a list" where
  "heap_Pop lt swap pop h =
     (if h = [] then Inl IndexOutOfRange
      else let n = length h - 1
           in Inr (pop (heap_down lt swap (swap h 0 n) 0 n)))"

section \<open>What sifting preserves\<close>

lemma heap_up_preserves:
  assumes "\<And>h i j. P h \<Longrightarrow> i < length h \<Longrightarrow> j < length h \<Longrightarrow> P (swap h i j) \<and> length (swap h i j) = length h"
  shows "P h \<Longrightarrow> j < length h \<Longrightarrow> P (heap_up lt swap h j)"
proof (induction j arbitrary: h rule: less_induct)
  case (less j h)
  let ?i = "(j - 1) div 2"
  show ?case
  proof (cases "?i = j \<or> \<not> lt h j ?i")
    case True
    with less.prems show ?thesis by (subst heap_up.simps) (auto simp: Let_def)
  next
    case False
    then have i: "?i < j" by linarith
    with less.prems assms [of h ?i j] have "P (swap h ?i j)" "?i < length (swap h ?i j)" by auto
    from less.IH [OF i this] False show ?thesis
      by (subst heap_up.simps) (auto simp: Let_def)
  qed
qed

lemma heap_down_preserves:
  assumes "\<And>h i j. P h \<Longrightarrow> i < length h \<Longrightarrow> j < length h \<Longrightarrow> P (swap h i j) \<and> length (swap h i j) = length h"
  shows "P h \<Longrightarrow> n \<le> length h \<Longrightarrow>
    P (heap_down lt swap h i n) \<and> length (heap_down lt swap h i n) = length h"
proof (induction "n - i" arbitrary: h i rule: less_induct)
  case (less i h)
  let ?j = "if 2 * i + 2 < n \<and> lt h (2 * i + 2) (2 * i + 1) then 2 * i + 2 else 2 * i + 1"
  show ?case
  proof (cases "n \<le> 2 * i + 1 \<or> \<not> lt h ?j i")
    case True
    then have "heap_down lt swap h i n = h" by (subst heap_down_unfold) (auto simp: Let_def)
    with less.prems show ?thesis by simp
  next
    case False
    then have j: "i < ?j" "?j < n" by auto
    with less.prems assms [of h i ?j]
    have s: "P (swap h i ?j)" "length (swap h i ?j) = length h" by auto
    have "n - ?j < n - i" using j by linarith
    from less.hyps [OF this s(1)] s(2) less.prems(2)
    have "P (heap_down lt swap (swap h i ?j) ?j n) \<and>
          length (heap_down lt swap (swap h i ?j) ?j n) = length h" by metis
    moreover have "heap_down lt swap h i n = heap_down lt swap (swap h i ?j) ?j n"
      using False by (subst heap_down_unfold) (auto simp only: Let_def if_False)
    ultimately show ?thesis by metis
  qed
qed

section \<open>What a priority queue promises\<close>

text \<open>
  \<open>bag\<close> is the abstract content of a queue. Popping takes an element of least key out of the
  bag, and fails exactly on an empty queue.
\<close>

locale priority_queue =
  fixes push :: "'q \<Rightarrow> 'a \<Rightarrow> 'q"
    and pop :: "'q \<Rightarrow> go_panic + 'a \<times> 'q"
    and invar :: "'q \<Rightarrow> bool"
    and bag :: "'q \<Rightarrow> 'c multiset"
    and core :: "'a \<Rightarrow> 'c"
    and ckey :: "'c \<Rightarrow> 'k::linorder"
  assumes push_bag: "invar q \<Longrightarrow> bag (push q x) = add_mset (core x) (bag q)"
    and push_invar: "invar q \<Longrightarrow> invar (push q x)"
    and pop_empty: "invar q \<Longrightarrow> bag q = {#} \<Longrightarrow> \<not> is_ok (pop q)"
    and pop_nonempty: "invar q \<Longrightarrow> bag q \<noteq> {#} \<Longrightarrow> is_ok (pop q)"
    and pop_bag: "invar q \<Longrightarrow> pop q = Inr (x, q') \<Longrightarrow> bag q = add_mset (core x) (bag q')"
    and pop_invar: "invar q \<Longrightarrow> pop q = Inr (x, q') \<Longrightarrow> invar q'"
    and pop_least: "invar q \<Longrightarrow> pop q = Inr (x, q') \<Longrightarrow> c \<in># bag q \<Longrightarrow> ckey (core x) \<le> ckey c"

text \<open>Popping until the queue is empty, at most \<open>n\<close> times.\<close>

fun drain :: "('q \<Rightarrow> go_panic + 'a \<times> 'q) \<Rightarrow> nat \<Rightarrow> 'q \<Rightarrow> 'a list" where
  "drain pop 0 q = []"
| "drain pop (Suc n) q =
     (case pop q of Inl _ \<Rightarrow> [] | Inr (x, q') \<Rightarrow> x # drain pop n q')"

context priority_queue
begin

lemma drain_bag:
  "invar q \<Longrightarrow> size (bag q) \<le> n \<Longrightarrow> mset (map core (drain pop n q)) = bag q"
proof (induction n arbitrary: q)
  case 0
  then show ?case by simp
next
  case (Suc n)
  show ?case
  proof (cases "pop q")
    case (Inl e)
    with Suc.prems pop_nonempty [of q] show ?thesis by auto
  next
    case (Inr r)
    then obtain x q' where r: "pop q = Inr (x, q')" by (cases r) auto
    with Suc.prems have "bag q = add_mset (core x) (bag q')" "invar q'"
      by (auto intro: pop_bag pop_invar)
    with Suc r show ?thesis by simp
  qed
qed

lemma drain_keys_ge:
  "invar q \<Longrightarrow> (\<And>c. c \<in># bag q \<Longrightarrow> k \<le> ckey c) \<Longrightarrow> y \<in> set (drain pop n q) \<Longrightarrow>
   k \<le> ckey (core y)"
proof (induction n arbitrary: q)
  case 0
  then show ?case by simp
next
  case (Suc n)
  show ?case
  proof (cases "pop q")
    case (Inl e)
    with Suc.prems show ?thesis by simp
  next
    case (Inr r)
    then obtain x q' where r: "pop q = Inr (x, q')" by (cases r) auto
    have "bag q = add_mset (core x) (bag q')" "invar q'"
      using r Suc.prems(1) by (auto intro: pop_bag pop_invar)
    with r Suc.prems Suc.IH [of q'] show ?thesis by auto
  qed
qed

lemma drain_sorted: "invar q \<Longrightarrow> sorted (map (\<lambda>x. ckey (core x)) (drain pop n q))"
proof (induction n arbitrary: q)
  case 0
  then show ?case by simp
next
  case (Suc n)
  show ?case
  proof (cases "pop q")
    case (Inl e)
    then show ?thesis by simp
  next
    case (Inr r)
    then obtain x q' where r: "pop q = Inr (x, q')" by (cases r) auto
    have inv: "invar q'" and bag: "bag q = add_mset (core x) (bag q')"
      using r Suc.prems by (auto intro: pop_bag pop_invar)
    have "ckey (core x) \<le> ckey c" if "c \<in># bag q'" for c
      using that bag pop_least [OF Suc.prems r, of c] by simp
    then have "\<forall>y \<in> set (drain pop n q'). ckey (core x) \<le> ckey (core y)"
      using drain_keys_ge [OF inv] by blast
    with Suc.IH [OF inv] r show ?thesis by simp
  qed
qed

end

section \<open>The contract of \<open>heap.Interface\<close>\<close>

text \<open>
  \<open>core\<close> forgets the bookkeeping an implementation keeps in its elements (their position);
  \<^verbatim>\<open>Less\<close> compares keys, and \<^verbatim>\<open>Swap\<close>, \<^verbatim>\<open>Push\<close> and \<^verbatim>\<open>Pop\<close> move elements and change nothing
  but the bookkeeping.
\<close>

locale heap_interface =
  fixes lt :: "'a list \<Rightarrow> nat \<Rightarrow> nat \<Rightarrow> bool"
    and swap :: "'a list \<Rightarrow> nat \<Rightarrow> nat \<Rightarrow> 'a list"
    and push :: "'a list \<Rightarrow> 'a \<Rightarrow> 'a list"
    and pop :: "'a list \<Rightarrow> 'a \<times> 'a list"
    and core :: "'a \<Rightarrow> 'c"
    and ckey :: "'c \<Rightarrow> 'k::linorder"
  assumes Less_iff:
      "i < length h \<Longrightarrow> j < length h \<Longrightarrow> lt h i j \<longleftrightarrow> ckey (core (h ! i)) < ckey (core (h ! j))"
    and swap_core:
      "i < length h \<Longrightarrow> j < length h \<Longrightarrow>
       map core (swap h i j) = (map core h)[i := core (h ! j), j := core (h ! i)]"
    and push_core: "map core (push h x) = map core h @ [core x]"
    and pop_core:
      "h \<noteq> [] \<Longrightarrow> pop h = (x, h') \<Longrightarrow> map core h' = butlast (map core h) \<and> core x = core (last h)"

text \<open>
  The heap order on the first \<open>n\<close> keys of a slice, for the edges out of a node \<open>\<ge> m\<close>, and the
  two ways it fails while an element is moved: at the edge above \<open>j\<close> (sifting up) and at the
  edges below \<open>i\<close> (sifting down).
\<close>

definition parent :: "nat \<Rightarrow> nat" where
  "parent k = (k - 1) div 2"

lemma parent_less [simp]: "0 < k \<Longrightarrow> parent k < k"
  by (simp add: parent_def)

lemma parent_le [simp]: "parent k \<le> k"
  by (simp add: parent_def)

lemma parent_fix_iff: "parent k = k \<longleftrightarrow> k = 0"
  by (auto simp: parent_def)

lemma parent_children: "0 < k \<Longrightarrow> parent k = i \<longleftrightarrow> k = 2 * i + 1 \<or> k = 2 * i + 2"
  by (auto simp: parent_def)

abbreviation keys_of :: "('c \<Rightarrow> 'k) \<Rightarrow> ('a \<Rightarrow> 'c) \<Rightarrow> 'a list \<Rightarrow> 'k list" where
  "keys_of ckey core h \<equiv> map (\<lambda>x. ckey (core x)) h"

definition heap_from :: "('k::linorder) list \<Rightarrow> nat \<Rightarrow> nat \<Rightarrow> bool" where
  "heap_from ks m n \<longleftrightarrow> (\<forall>k. 0 < k \<and> k < n \<and> m \<le> parent k \<longrightarrow> ks ! parent k \<le> ks ! k)"

definition heap_above :: "('k::linorder) list \<Rightarrow> nat \<Rightarrow> bool" where
  "heap_above ks j \<longleftrightarrow>
     (\<forall>k. 0 < k \<and> k < length ks \<and> k \<noteq> j \<longrightarrow> ks ! parent k \<le> ks ! k) \<and>
     (\<forall>k. 0 < k \<and> k < length ks \<and> parent k = j \<and> 0 < j \<longrightarrow> ks ! parent j \<le> ks ! k)"

definition heap_below :: "('k::linorder) list \<Rightarrow> nat \<Rightarrow> nat \<Rightarrow> nat \<Rightarrow> bool" where
  "heap_below ks m n i \<longleftrightarrow>
     (\<forall>k. 0 < k \<and> k < n \<and> m \<le> parent k \<and> parent k \<noteq> i \<longrightarrow> ks ! parent k \<le> ks ! k) \<and>
     (\<forall>k. 0 < k \<and> k < n \<and> parent k = i \<and> 0 < i \<and> m \<le> parent i \<longrightarrow> ks ! parent i \<le> ks ! k)"

definition swap_at :: "'k list \<Rightarrow> nat \<Rightarrow> nat \<Rightarrow> 'k list" where
  "swap_at ks i j = ks[i := ks ! j, j := ks ! i]"

lemma length_swap_at [simp]: "length (swap_at ks i j) = length ks"
  by (simp add: swap_at_def)

lemma nth_swap_at:
  "i < length ks \<Longrightarrow> j < length ks \<Longrightarrow>
   swap_at ks i j ! k = (if k = j then ks ! i else if k = i then ks ! j else ks ! k)"
  by (cases "k < length ks") (auto simp: swap_at_def nth_list_update)

lemma heap_above_step:
  assumes up: "heap_above ks j" and j: "0 < j" "j < length ks"
    and lt: "ks ! j < ks ! parent j"
  shows "heap_above (swap_at ks (parent j) j) (parent j)"
proof -
  have i: "parent j < length ks" "parent j \<noteq> j" "parent j < j"
    using j parent_less [of j] by linarith+
  note nth = nth_swap_at [OF i(1) j(2)]
  have 1: "swap_at ks (parent j) j ! parent k \<le> swap_at ks (parent j) j ! k"
    if k: "0 < k" "k < length ks" "k \<noteq> parent j" for k
  proof (cases "k = j")
    case True
    with lt i show ?thesis by (simp add: nth)
  next
    case False
    with up k have le: "ks ! parent k \<le> ks ! k" by (simp add: heap_above_def)
    consider "parent k = j" | "parent k = parent j" "parent k \<noteq> j"
      | "parent k \<noteq> j" "parent k \<noteq> parent j" by blast
    then show ?thesis
    proof cases
      case 1
      with up k j have "ks ! parent j \<le> ks ! k" by (auto simp: heap_above_def)
      with 1 False k show ?thesis by (simp add: nth)
    next
      case 2
      with le lt False k show ?thesis by (simp add: nth)
    next
      case 3
      with le False k show ?thesis by (simp add: nth)
    qed
  qed
  have 2: "swap_at ks (parent j) j ! parent (parent j) \<le> swap_at ks (parent j) j ! k"
    if k: "0 < k" "k < length ks" "parent k = parent j" "0 < parent j" for k
  proof -
    have neq: "parent (parent j) \<noteq> parent j" "parent (parent j) \<noteq> j" "k \<noteq> parent j"
      using k i parent_less [of "parent j"] parent_less [of k] by linarith+
    have up': "ks ! parent (parent j) \<le> ks ! parent j"
      using up i k by (auto simp: heap_above_def)
    show ?thesis
    proof (cases "k = j")
      case True
      with up' neq show ?thesis by (simp add: nth)
    next
      case False
      with up k(1,2) have "ks ! parent k \<le> ks ! k" by (simp add: heap_above_def)
      with up' k neq False show ?thesis by (simp add: nth)
    qed
  qed
  from 1 2 show ?thesis by (simp add: heap_above_def)
qed

lemma heap_above_done:
  "heap_above ks j \<Longrightarrow> parent j = j \<or> ks ! parent j \<le> ks ! j \<Longrightarrow> heap_from ks 0 (length ks)"
  by (auto simp: heap_above_def heap_from_def)

lemma heap_below_step:
  assumes down: "heap_below ks m n i" and n: "n \<le> length ks" and m: "m \<le> i"
    and j: "parent j = i" "0 < j" "j < n" and lt: "ks ! j < ks ! i"
    and least: "\<And>k. parent k = i \<Longrightarrow> 0 < k \<Longrightarrow> k < n \<Longrightarrow> ks ! j \<le> ks ! k"
  shows "heap_below (swap_at ks i j) m n j"
proof -
  have i: "i < length ks" "j < length ks" "i \<noteq> j" "i < j"
    using j n parent_less [of j] by linarith+
  note nth = nth_swap_at [OF i(1,2)]
  have 1: "swap_at ks i j ! parent k \<le> swap_at ks i j ! k"
    if k: "0 < k" "k < n" "m \<le> parent k" "parent k \<noteq> j" for k
  proof (cases "parent k = i")
    case True
    then have "k \<noteq> i" using parent_less [OF k(1)] by linarith
    with True lt least [OF True k(1,2)] i show ?thesis by (auto simp: nth)
  next
    case False
    with down k have le: "ks ! parent k \<le> ks ! k" by (simp add: heap_below_def)
    show ?thesis
    proof (cases "k = i")
      case True
      with down k j have "ks ! parent i \<le> ks ! j" by (auto simp: heap_below_def)
      with True False k i show ?thesis by (simp add: nth)
    next
      case neq: False
      have "k \<noteq> j" using False j by auto
      with le neq False k show ?thesis by (simp add: nth)
    qed
  qed
  have 2: "swap_at ks i j ! parent j \<le> swap_at ks i j ! k"
    if k: "0 < k" "k < n" "parent k = j" for k
  proof -
    have "k \<noteq> i" "k \<noteq> j" using k i parent_less [OF k(1)] by linarith+
    moreover have "ks ! j \<le> ks ! k"
      using down k m i by (auto simp: heap_below_def)
    ultimately show ?thesis using j i by (simp add: nth)
  qed
  from 1 2 show ?thesis by (simp add: heap_below_def)
qed

lemma heap_below_done:
  "heap_below ks m n i \<Longrightarrow> (\<And>k. parent k = i \<Longrightarrow> 0 < k \<Longrightarrow> k < n \<Longrightarrow> ks ! i \<le> ks ! k) \<Longrightarrow>
   heap_from ks m n"
  by (auto simp: heap_below_def heap_from_def)

lemma heap_from_butlast:
  assumes "heap_from ks 0 n" and "n = length ks - 1"
  shows "heap_from (butlast ks) 0 n"
proof -
  have "butlast ks ! k = ks ! k" if "k < n" for k
    using assms(2) that by (simp add: nth_butlast)
  then show ?thesis
    using assms(1) le_less_trans [OF parent_le] by (simp add: heap_from_def)
qed

lemma heap_from_root_least:
  assumes "heap_from ks 0 n" and "k < n"
  shows "ks ! 0 \<le> ks ! k"
  using assms(2)
proof (induction k rule: less_induct)
  case (less k)
  show ?case
  proof (cases "k = 0")
    case False
    with less have "ks ! 0 \<le> ks ! parent k" by simp
    also have "\<dots> \<le> ks ! k" using assms(1) less False by (simp add: heap_from_def)
    finally show ?thesis .
  qed simp
qed

section \<open>The package functions keep the order and the elements\<close>

context heap_interface
begin

lemma length_swap: "i < length h \<Longrightarrow> j < length h \<Longrightarrow> length (swap h i j) = length h"
  using arg_cong [OF swap_core, of i h j length] by simp

lemma keys_swap:
  assumes "i < length h" "j < length h"
  shows "keys_of ckey core (swap h i j) = swap_at (keys_of ckey core h) i j"
proof -
  have "keys_of ckey core (swap h i j) = map ckey (map core (swap h i j))" by simp
  also have "\<dots> = map ckey ((map core h)[i := core (h ! j), j := core (h ! i)])"
    by (simp only: swap_core [OF assms])
  also have "\<dots> = swap_at (keys_of ckey core h) i j"
    using assms by (simp add: swap_at_def map_update o_def)
  finally show ?thesis .
qed

lemma mset_swap:
  assumes "i < length h" "j < length h"
  shows "mset (map core (swap h i j)) = mset (map core h)"
proof -
  have "(map core h)[i := core (h ! j), j := core (h ! i)] =
        (map core h)[i := map core h ! j, j := map core h ! i]"
    using assms by simp
  with assms show ?thesis
    by (simp only: swap_core mset_swap length_map)
qed

lemma lt_keys:
  "i < length h \<Longrightarrow> j < length h \<Longrightarrow>
   lt h i j \<longleftrightarrow> keys_of ckey core h ! i < keys_of ckey core h ! j"
  by (simp add: Less_iff)

lemma heap_up_correct:
  "j < length h \<Longrightarrow> heap_above (keys_of ckey core h) j \<Longrightarrow>
   heap_from (keys_of ckey core (heap_up lt swap h j)) 0 (length h) \<and>
   length (heap_up lt swap h j) = length h \<and>
   mset (map core (heap_up lt swap h j)) = mset (map core h)"
proof (induction j arbitrary: h rule: less_induct)
  case (less j h)
  show ?case
  proof (cases "parent j = j \<or> \<not> lt h j (parent j)")
    case True
    then have "heap_up lt swap h j = h"
      by (subst heap_up.simps) (simp add: Let_def parent_def)
    moreover have "parent j = j \<or> keys_of ckey core h ! parent j \<le> keys_of ckey core h ! j"
      using True less.prems(1) le_less_trans [OF parent_le less.prems(1)]
      by (auto simp: lt_keys not_less)
    ultimately show ?thesis
      using less.prems heap_above_done [of "keys_of ckey core h" j] by simp
  next
    case False
    let ?h = "swap h (parent j) j"
    have j: "0 < j" "parent j < length h" "parent j < j"
      using False less.prems(1) le_less_trans [OF parent_le less.prems(1)]
      by (auto simp: parent_fix_iff)
    have step: "heap_up lt swap h j = heap_up lt swap ?h (parent j)"
      using False by (subst heap_up.simps) (simp add: Let_def parent_def)
    have "heap_above (swap_at (keys_of ckey core h) (parent j) j) (parent j)"
      using False less.prems j lt_keys [OF less.prems(1) j(2)]
      by (intro heap_above_step) simp_all
    then have "heap_above (keys_of ckey core ?h) (parent j)"
      using j less.prems(1) by (simp add: keys_swap)
    with less.IH [OF j(3), of ?h] j less.prems(1) mset_swap [OF j(2) less.prems(1)]
    show ?thesis by (simp add: step length_swap)
  qed
qed

lemma heap_down_correct:
  "n \<le> length h \<Longrightarrow> m \<le> i \<Longrightarrow> heap_below (keys_of ckey core h) m n i \<Longrightarrow>
   heap_from (keys_of ckey core (heap_down lt swap h i n)) m n \<and>
   length (heap_down lt swap h i n) = length h \<and>
   mset (map core (heap_down lt swap h i n)) = mset (map core h) \<and>
   drop n (map core (heap_down lt swap h i n)) = drop n (map core h)"
proof (induction "n - i" arbitrary: h i rule: less_induct)
  case (less i h)
  let ?ks = "keys_of ckey core h"
  define j where "j = (if 2 * i + 2 < n \<and> lt h (2 * i + 2) (2 * i + 1) then 2 * i + 2 else 2 * i + 1)"
  show ?case
  proof (cases "n \<le> 2 * i + 1 \<or> \<not> lt h j i")
    case True
    then have eq: "heap_down lt swap h i n = h"
      by (subst heap_down_unfold) (simp only: Let_def j_def [symmetric] if_True)
    have "?ks ! i \<le> ?ks ! k" if k: "parent k = i" "0 < k" "k < n" for k
    proof -
      have kc: "k = 2 * i + 1 \<or> k = 2 * i + 2" using k parent_children by blast
      with k True have "\<not> lt h j i" "2 * i + 1 < n" by auto
      moreover have "j < n" using kc k by (auto simp: j_def)
      ultimately have "?ks ! i \<le> ?ks ! j"
        using less.prems(1) kc k lt_keys [of j h i] by (simp add: not_less)
      also have "\<dots> \<le> ?ks ! k"
        using kc k less.prems(1) lt_keys [of "2 * i + 2" h "2 * i + 1"]
        by (auto simp: j_def not_less less_imp_le)
      finally show ?thesis .
    qed
    with eq less.prems heap_below_done [of ?ks m n i] show ?thesis by simp
  next
    case False
    let ?h = "swap h i j"
    have j: "j < n" "i < j" "parent j = i" "j < length h" "i < length h"
      using False less.prems(1) by (auto simp: j_def parent_def)
    have step: "heap_down lt swap h i n = heap_down lt swap ?h j n"
      using False by (subst heap_down_unfold) (simp only: Let_def j_def [symmetric] if_False)
    have least: "?ks ! j \<le> ?ks ! k" if k: "parent k = i" "0 < k" "k < n" for k
    proof -
      have "k = 2 * i + 1 \<or> k = 2 * i + 2" using k parent_children by blast
      then show ?thesis
        using k less.prems(1) lt_keys [of "2 * i + 2" h "2 * i + 1"]
        by (auto simp: j_def not_less less_imp_le)
    qed
    have "heap_below (swap_at ?ks i j) m n j"
      using less.prems j False least lt_keys [of j h i]
      by (intro heap_below_step) auto
    then have below: "heap_below (keys_of ckey core ?h) m n j"
      using j by (simp add: keys_swap)
    have drop: "drop n (map core ?h) = drop n (map core h)"
      using j by (simp add: swap_core)
    have "n - j < n - i" "n \<le> length ?h" "m \<le> j"
      using j less.prems by (auto simp: length_swap)
    from less.hyps [OF this below] show ?thesis
      using j drop mset_swap [OF j(5,4)] by (simp add: step length_swap)
  qed
qed

lemma heap_Push_correct:
  assumes "heap_from (keys_of ckey core h) 0 (length h)"
  shows "heap_from (keys_of ckey core (heap_Push lt swap push h x)) 0
           (length (heap_Push lt swap push h x))"
    and "mset (map core (heap_Push lt swap push h x)) = add_mset (core x) (mset (map core h))"
proof -
  let ?h = "push h x"
  have core: "map core ?h = map core h @ [core x]" by (rule push_core)
  have len: "length ?h = Suc (length h)"
    using arg_cong [OF core, of length] by simp
  have keys: "keys_of ckey core ?h = keys_of ckey core h @ [ckey (core x)]"
    using arg_cong [OF core, of "map ckey"] by (simp add: o_def)
  have "heap_above (keys_of ckey core ?h) (length h)"
    using assms le_less_trans [OF parent_le]
    by (auto simp: keys heap_above_def heap_from_def nth_append parent_children)
  with len core heap_up_correct [of "length h" ?h]
  show "heap_from (keys_of ckey core (heap_Push lt swap push h x)) 0
           (length (heap_Push lt swap push h x))"
    and "mset (map core (heap_Push lt swap push h x)) = add_mset (core x) (mset (map core h))"
    by (simp_all add: heap_Push_def Let_def del: mset_map)
qed

lemma heap_Pop_correct:
  assumes heap: "heap_from (keys_of ckey core h) 0 (length h)"
    and pop: "heap_Pop lt swap pop h = Inr (x, h')"
  shows "heap_from (keys_of ckey core h') 0 (length h')"
    and "mset (map core h) = add_mset (core x) (mset (map core h'))"
    and "core x = core (h ! 0)"
proof -
  let ?n = "length h - 1"
  let ?s = "swap h 0 ?n"
  let ?d = "heap_down lt swap ?s 0 ?n"
  have ne: "h \<noteq> []" and popd: "pop ?d = (x, h')"
    using pop by (auto simp: heap_Pop_def Let_def split: if_splits)
  then have ix: "0 < length h" "?n < length h" by simp_all
  have same: "keys_of ckey core ?s ! k = keys_of ckey core h ! k" if "0 < k" "k < ?n" for k
    using ix that by (simp only: keys_swap) (subst nth_swap_at, simp_all)
  have "keys_of ckey core ?s ! parent k \<le> keys_of ckey core ?s ! k"
    if k: "0 < k" "k < ?n" "parent k \<noteq> 0" for k
  proof -
    have "keys_of ckey core h ! parent k \<le> keys_of ckey core h ! k"
      using heap k by (simp add: heap_from_def del: nth_map)
    moreover have "0 < parent k" "parent k < ?n"
      using k parent_less [OF k(1)] by linarith+
    ultimately show ?thesis
      using same [OF k(1,2)] same [of "parent k"] by metis
  qed
  then have "heap_below (keys_of ckey core ?s) 0 ?n 0"
    by (simp add: heap_below_def)
  with heap_down_correct [of ?n ?s 0 0] length_swap [OF ix]
  have d: "heap_from (keys_of ckey core ?d) 0 ?n" "length ?d = length h"
    "mset (map core ?d) = mset (map core ?s)" "drop ?n (map core ?d) = drop ?n (map core ?s)"
    by simp_all
  have dne: "?d \<noteq> []" using d(2) ne by (metis length_0_conv)
  from pop_core [OF dne popd]
  have h': "map core h' = butlast (map core ?d)" and x: "core x = core (last ?d)" by auto
  have len: "length h' = ?n"
    using arg_cong [OF h', of length] d(2) by simp
  have "core (last ?d) = map core ?d ! ?n"
    using dne d(2) ix(2) by (simp add: last_conv_nth)
  also have "\<dots> = drop ?n (map core ?d) ! 0" using d(2) by simp
  also have "\<dots> = drop ?n (map core ?s) ! 0" by (simp only: d(4))
  also have "\<dots> = map core ?s ! ?n" using ix length_swap [OF ix] by simp
  also have "\<dots> = core (h ! 0)" using ix by (simp only: swap_core) simp
  finally show "core x = core (h ! 0)" using x by simp
  have "keys_of ckey core h' = butlast (keys_of ckey core ?d)"
    using arg_cong [OF h', of "map ckey"] by (simp add: map_butlast o_def)
  then show "heap_from (keys_of ckey core h') 0 (length h')"
    using heap_from_butlast [of "keys_of ckey core ?d" ?n] d(1,2) len by simp
  have "mset (map core h) = mset (map core ?d)"
    using d(3) mset_swap [OF ix] by simp
  also have "map core ?d = map core h' @ [core x]"
    using h' x dne append_butlast_last_id [of "map core ?d"] by (simp add: last_map)
  finally show "mset (map core h) = add_mset (core x) (mset (map core h'))" by simp
qed

lemma heap_Pop_least:
  assumes "heap_from (keys_of ckey core h) 0 (length h)"
    and "heap_Pop lt swap pop h = Inr (x, h')" and "c \<in># mset (map core h)"
  shows "ckey (core x) \<le> ckey c"
proof -
  obtain k where "k < length h" "c = core (h ! k)"
    using assms(3) by (auto simp: in_set_conv_nth)
  moreover from this have "keys_of ckey core h ! 0 = ckey (core (h ! 0))"
    by (intro nth_map) linarith
  ultimately show ?thesis
    using heap_from_root_least [OF assms(1), of k] heap_Pop_correct(3) [OF assms(1,2)] by simp
qed

lemma heap_Init_correct:
  "heap_from (keys_of ckey core (heap_Init lt swap h)) 0 (length (heap_Init lt swap h)) \<and>
   mset (map core (heap_Init lt swap h)) = mset (map core h)"
proof -
  let ?down = "\<lambda>i h'. heap_down lt swap h' i (length h)"
  have "heap_from (keys_of ckey core (fold ?down (rev [m..<length h div 2]) h)) m (length h) \<and>
        length (fold ?down (rev [m..<length h div 2]) h) = length h \<and>
        mset (map core (fold ?down (rev [m..<length h div 2]) h)) = mset (map core h)"
    if "m \<le> length h div 2" for m
    using that
  proof (induction "length h div 2 - m" arbitrary: m)
    case 0
    have "\<not> (0 < k \<and> k < length h \<and> m \<le> parent k)" for k
      using 0 by (auto simp: parent_def)
    with 0 show ?case by (auto simp: heap_from_def)
  next
    case (Suc d)
    let ?h = "fold ?down (rev [Suc m..<length h div 2]) h"
    have IH: "heap_from (keys_of ckey core ?h) (Suc m) (length h)" "length ?h = length h"
      "mset (map core ?h) = mset (map core h)"
      using Suc.hyps(1) [of "Suc m"] Suc.hyps(2) Suc.prems by auto
    have "heap_below (keys_of ckey core ?h) m (length h) m"
      using IH(1) parent_less [of m] unfolding heap_below_def heap_from_def
      by (metis Suc_leI le_neq_implies_less not_le)
    moreover have "m < length h div 2" using Suc.hyps(2) by simp
    ultimately show ?case
      using heap_down_correct [of "length h" ?h m m] IH by (simp add: upt_rec [of m])
  qed
  from this [of 0] show ?thesis by (simp add: heap_Init_def)
qed

end

sublocale heap_interface \<subseteq> pq: priority_queue
  "heap_Push lt swap push" "heap_Pop lt swap pop"
  "\<lambda>h. heap_from (keys_of ckey core h) 0 (length h)" "\<lambda>h. mset (map core h)" core ckey
proof unfold_locales
  fix h :: "'a list" and x :: 'a
  assume heap: "heap_from (keys_of ckey core h) 0 (length h)"
  show "mset (map core (heap_Push lt swap push h x)) = add_mset (core x) (mset (map core h))"
    by (rule heap_Push_correct(2) [OF heap])
  show "heap_from (keys_of ckey core (heap_Push lt swap push h x)) 0
          (length (heap_Push lt swap push h x))"
    by (rule heap_Push_correct(1) [OF heap])
next
  fix h :: "'a list"
  assume "mset (map core h) = {#}"
  then show "\<not> is_ok (heap_Pop lt swap pop h)" by (simp add: heap_Pop_def)
next
  fix h :: "'a list"
  assume "mset (map core h) \<noteq> {#}"
  then show "is_ok (heap_Pop lt swap pop h)" by (auto simp: heap_Pop_def Let_def)
qed (fact heap_Pop_correct heap_Pop_least)+

end
