(* ===== verification/Float64.thy ===== *)
theory Float64
  imports Prelude Complex_Main
begin

text \<open>
  The \<^verbatim>\<open>float64\<close> arithmetic of Go that the scheduler's score and the pool's demand estimate
  use: a value is a rational, an infinity or not a number; an operation is the exact operation
  on rationals, rounded to 53 bits of precision, ties to even, with gradual underflow. The sign
  of a zero is not kept: no code of the program can tell the two zeros apart. A compiler may fuse
  a product and a sum on some processors; here every operation rounds, as on amd64.

  The lemmas show that rounding is monotone and keeps the numbers that need no rounding, so that
  bounds of a computation can be found on its exact counterpart.
\<close>

section \<open>Binary logarithms\<close>

fun nat_log2 :: "nat \<Rightarrow> nat" where
  "nat_log2 n = (if n < 2 then 0 else Suc (nat_log2 (n div 2)))"

declare nat_log2.simps [simp del]

lemma nat_log2_bounds: "0 < n \<Longrightarrow> 2 ^ nat_log2 n \<le> n \<and> n < 2 ^ (nat_log2 n + 1)"
proof (induction n rule: nat_log2.induct)
  case (1 n)
  show ?case
  proof (cases "n < 2")
    case True
    with 1(2) show ?thesis by (simp add: nat_log2.simps)
  next
    case False
    then have "0 < n div 2" by simp
    with 1 False have "2 ^ nat_log2 (n div 2) \<le> n div 2 \<and> n div 2 < 2 ^ (nat_log2 (n div 2) + 1)"
      by blast
    then have "2 * 2 ^ nat_log2 (n div 2) \<le> n \<and> n < 2 * 2 ^ (nat_log2 (n div 2) + 1)" by linarith
    with False show ?thesis by (simp add: nat_log2.simps [of n])
  qed
qed

definition flog2 :: "rat \<Rightarrow> int" where
  "flog2 x =
     (if 1 \<le> x then int (nat_log2 (nat \<lfloor>x\<rfloor>)) else - int (nat_log2 (nat \<lceil>1 / x\<rceil> - 1) + 1))"

lemma flog2_bounds:
  assumes "0 < x"
  shows "2 powi flog2 x \<le> x \<and> x < 2 powi (flog2 x + 1)"
proof (cases "1 \<le> x")
  case True
  define n where "n = nat \<lfloor>x\<rfloor>"
  have n: "0 < n" "of_nat n \<le> x" "x < of_nat n + 1"
    using True by (simp_all add: n_def) linarith+
  note b = nat_log2_bounds [OF n(1)]
  have "(2::rat) ^ nat_log2 n \<le> of_nat n"
    using b by (metis of_nat_le_iff of_nat_numeral of_nat_power)
  moreover have "of_nat n + 1 \<le> (2::rat) ^ (nat_log2 n + 1)"
    using b by (metis Suc_eq_plus1 Suc_leI of_nat_Suc of_nat_le_iff of_nat_numeral of_nat_power
        add.commute)
  ultimately have "2 ^ nat_log2 n \<le> x \<and> x < 2 ^ (nat_log2 n + 1)" using n by linarith
  moreover have "flog2 x = int (nat_log2 n)" using True by (simp add: flog2_def n_def)
  ultimately show ?thesis
    by (simp add: power_int_of_nat flip: power_int_of_nat) (simp add: power_int_add power_int_of_nat)
next
  case False
  define y where "y = 1 / x"
  define m where "m = nat \<lceil>y\<rceil> - 1"
  have y: "1 < y" using False assms by (simp add: y_def)
  then have "1 < \<lceil>y\<rceil>" by linarith
  then have m: "0 < m" "int m + 1 = \<lceil>y\<rceil>" unfolding m_def by linarith+
  then have my: "of_nat m < y" "y \<le> of_nat m + 1"
    using ceiling_correct [of y] by (metis add_diff_cancel_right' of_int_1 of_int_diff of_int_of_nat_eq,
      metis ceiling_le_iff of_int_1 of_int_add of_int_of_nat_eq order_refl)
  note b = nat_log2_bounds [OF m(1)]
  have "(2::rat) ^ nat_log2 m \<le> of_nat m"
    using b by (metis of_nat_le_iff of_nat_numeral of_nat_power)
  moreover have "of_nat m + 1 \<le> (2::rat) ^ (nat_log2 m + 1)"
    using b by (metis Suc_eq_plus1 Suc_leI of_nat_Suc of_nat_le_iff of_nat_numeral of_nat_power
        add.commute)
  ultimately have "2 ^ nat_log2 m < y \<and> y \<le> 2 ^ (nat_log2 m + 1)" using my by linarith
  then have "inverse (2 ^ (nat_log2 m + 1)) \<le> inverse y \<and> inverse y < inverse (2 ^ nat_log2 m)"
    using y by (meson le_imp_inverse_le less_imp_inverse_less less_trans zero_less_one
        zero_less_numeral zero_less_power)
  moreover have "inverse y = x" by (simp add: y_def)
  moreover have "flog2 x = - int (nat_log2 m + 1)" using False by (simp add: flog2_def m_def y_def)
  moreover from this have "flog2 x + 1 = - int (nat_log2 m)" by simp
  moreover have "(2::rat) powi (- int k) = inverse (2 ^ k)" for k
    by (simp add: power_int_minus power_int_of_nat)
  ultimately show ?thesis by metis
qed

lemma powi_mono2: "a \<le> b \<Longrightarrow> (2::rat) powi a \<le> 2 powi b"
  by (rule power_int_increasing) auto

lemma powi_less_imp: "(2::rat) powi a < 2 powi b \<Longrightarrow> a < b"
  using powi_mono2 [of b a] by linarith

lemma flog2_mono:
  assumes "0 < x" "x \<le> y"
  shows "flog2 x \<le> flog2 y"
proof -
  have "2 powi flog2 x < (2::rat) powi (flog2 y + 1)"
    using flog2_bounds [of x] flog2_bounds [of y] assms by linarith
  from powi_less_imp [OF this] show ?thesis by simp
qed

section \<open>Rounding\<close>

definition rne :: "rat \<Rightarrow> int" where
  "rne q =
     (let n = \<lfloor>q\<rfloor>; f = q - of_int n
      in if f < 1 / 2 then n else if f > 1 / 2 then n + 1 else if even n then n else n + 1)"

lemma rne_bounds: "\<lfloor>q\<rfloor> \<le> rne q \<and> rne q \<le> \<lfloor>q\<rfloor> + 1"
  by (simp add: rne_def Let_def)

lemma rne_of_int [simp]: "rne (of_int n) = n"
  by (simp add: rne_def Let_def)

lemma rne_mono:
  assumes "p \<le> q"
  shows "rne p \<le> rne q"
proof (cases "\<lfloor>p\<rfloor> = \<lfloor>q\<rfloor>")
  case True
  with assms show ?thesis by (auto simp: rne_def Let_def)
next
  case False
  with floor_mono [OF assms] have "\<lfloor>p\<rfloor> + 1 \<le> \<lfloor>q\<rfloor>" by simp
  with rne_bounds [of p] rne_bounds [of q] show ?thesis by linarith
qed

definition ulp_exp :: "rat \<Rightarrow> int" where
  "ulp_exp x = max (flog2 x) (- 1022) - 52"

definition round_pos :: "rat \<Rightarrow> rat" where
  "round_pos x = of_int (rne (x / 2 powi ulp_exp x)) * 2 powi ulp_exp x"

definition round64 :: "rat \<Rightarrow> rat" where
  "round64 x = (if x = 0 then 0 else if 0 < x then round_pos x else - round_pos (- x))"

lemma powi_pos [simp]: "0 < (2::rat) powi e"
  by simp

lemma round_pos_nonneg: "0 < x \<Longrightarrow> 0 \<le> round_pos x"
  using rne_mono [of 0 "x / 2 powi ulp_exp x"] rne_of_int [of 0]
  by (simp add: round_pos_def)

lemma round_pos_mono:
  assumes "0 < x" "x \<le> y"
  shows "round_pos x \<le> round_pos y"
proof (cases "ulp_exp x = ulp_exp y")
  case True
  have "rne (x / 2 powi ulp_exp y) \<le> rne (y / 2 powi ulp_exp y)"
    using assms by (intro rne_mono divide_right_mono) auto
  with True show ?thesis by (simp add: round_pos_def)
next
  case False
  let ?ex = "ulp_exp x" and ?ey = "ulp_exp y"
  have lt: "?ex < ?ey" using False flog2_mono [OF assms] by (auto simp: ulp_exp_def)
  then have ey: "flog2 y = ?ey + 52" and ex: "flog2 x \<le> ?ex + 52" by (auto simp: ulp_exp_def)
  have split: "(2::rat) powi (e + 52) = of_int (2 ^ 52) * 2 powi e" for e
    by (simp add: power_int_add)
  have "x < 2 powi (?ex + 53)"
    using flog2_bounds [OF assms(1)] powi_mono2 [of "flog2 x + 1" "?ex + 53"] ex by linarith
  also have "\<dots> = of_int (2 ^ 53) * 2 powi ?ex" by (simp add: power_int_add)
  finally have "x / 2 powi ?ex \<le> of_int (2 ^ 53)" by (simp add: pos_divide_le_eq)
  from rne_mono [OF this] have "rne (x / 2 powi ?ex) \<le> 2 ^ 53" by (simp only: rne_of_int)
  then have "round_pos x \<le> of_int (2 ^ 53) * 2 powi ?ex"
    unfolding round_pos_def by (intro mult_right_mono) (simp_all only: of_int_le_iff, simp)
  also have "\<dots> = 2 powi (?ex + 53)" by (simp add: power_int_add)
  also have "\<dots> \<le> 2 powi (?ey + 52)" using lt by (intro powi_mono2) simp
  also have "\<dots> = of_int (2 ^ 52) * 2 powi ?ey" by (rule split)
  also have "\<dots> \<le> round_pos y"
  proof -
    have "2 powi (?ey + 52) \<le> y" using flog2_bounds [of y] assms ey by simp
    then have "of_int (2 ^ 52) \<le> y / 2 powi ?ey" by (simp only: split pos_le_divide_eq powi_pos)
    from rne_mono [OF this] have "2 ^ 52 \<le> rne (y / 2 powi ?ey)" by (simp only: rne_of_int)
    then show ?thesis
      unfolding round_pos_def by (intro mult_right_mono) (simp_all only: of_int_le_iff, simp)
  qed
  finally show ?thesis .
qed

lemma round64_mono:
  assumes "x \<le> y"
  shows "round64 x \<le> round64 y"
proof -
  consider "0 < x" | "y < 0" | "x \<le> 0" "0 \<le> y" using assms by linarith
  then show ?thesis
  proof cases
    case 1
    with assms round_pos_mono [of x y] show ?thesis by (simp add: round64_def)
  next
    case 2
    with assms round_pos_mono [of "- y" "- x"] show ?thesis by (simp add: round64_def)
  next
    case 3
    then show ?thesis
      using round_pos_nonneg [of y] round_pos_nonneg [of "- x"]
      by (cases "x = 0"; cases "y = 0") (auto simp: round64_def)
  qed
qed

lemma round64_0 [simp]: "round64 0 = 0"
  by (simp add: round64_def)

lemma round64_nonneg: "0 \<le> x \<Longrightarrow> 0 \<le> round64 x"
  using round64_mono [of 0 x] by simp

section \<open>Values and operations\<close>

datatype f64 = Fin rat | PInf | NInf | NaN

text \<open>The result of an operation whose exact value is \<open>x\<close>: overflow is from \<open>2\<^sup>1\<^sup>0\<^sup>2\<^sup>4\<close> on.\<close>

definition f64_of :: "rat \<Rightarrow> f64" where
  "f64_of x =
     (let r = round64 x
      in if 2 ^ 1024 \<le> r then PInf else if r \<le> - (2 ^ 1024) then NInf else Fin r)"

fun f_neg :: "f64 \<Rightarrow> f64" where
  "f_neg (Fin x) = Fin (- x)"
| "f_neg PInf = NInf"
| "f_neg NInf = PInf"
| "f_neg NaN = NaN"

fun f_add :: "f64 \<Rightarrow> f64 \<Rightarrow> f64" where
  "f_add NaN y = NaN"
| "f_add x NaN = NaN"
| "f_add (Fin x) (Fin y) = f64_of (x + y)"
| "f_add PInf NInf = NaN"
| "f_add NInf PInf = NaN"
| "f_add PInf y = PInf"
| "f_add NInf y = NInf"
| "f_add (Fin x) y = y"

definition f_sub :: "f64 \<Rightarrow> f64 \<Rightarrow> f64" where
  "f_sub x y = f_add x (f_neg y)"

text \<open>An infinity times \<open>x\<close>, by the sign of \<open>x\<close>.\<close>

definition inf_times :: "rat \<Rightarrow> f64 \<Rightarrow> f64" where
  "inf_times x i = (if x = 0 then NaN else if 0 < x then i else f_neg i)"

fun f_mul :: "f64 \<Rightarrow> f64 \<Rightarrow> f64" where
  "f_mul NaN y = NaN"
| "f_mul x NaN = NaN"
| "f_mul (Fin x) (Fin y) = f64_of (x * y)"
| "f_mul (Fin x) y = inf_times x y"
| "f_mul x (Fin y) = inf_times y x"
| "f_mul PInf y = y"
| "f_mul NInf y = f_neg y"

text \<open>Division by a constant other than zero, the only one the program has.\<close>

fun f_div_const :: "f64 \<Rightarrow> rat \<Rightarrow> f64" where
  "f_div_const (Fin x) c = f64_of (x / c)"
| "f_div_const x c = inf_times c x"

text \<open>The comparisons \<^verbatim>\<open><\<close> and \<^verbatim>\<open>>\<close> of Go are false when an operand is not a number.\<close>

fun f_less :: "f64 \<Rightarrow> f64 \<Rightarrow> bool" where
  "f_less (Fin x) (Fin y) = (x < y)"
| "f_less NInf y = (y \<noteq> NInf \<and> y \<noteq> NaN)"
| "f_less x PInf = (x \<noteq> PInf \<and> x \<noteq> NaN)"
| "f_less x y = False"

text \<open>The order of the numbers, which leaves not-a-number unrelated.\<close>

definition f_le :: "f64 \<Rightarrow> f64 \<Rightarrow> bool" where
  "f_le x y \<longleftrightarrow> x \<noteq> NaN \<and> y \<noteq> NaN \<and> \<not> f_less y x"

lemma f_less_irrefl [simp]: "\<not> f_less x x"
  by (cases x) auto

lemma f_less_NaN [simp]: "\<not> f_less NaN x" "\<not> f_less x NaN"
  by (cases x; simp)+

lemma f_less_not_NaN: "f_less x y \<Longrightarrow> y \<noteq> NaN"
  by auto

lemma f_le_refl [simp]: "f_le x x \<longleftrightarrow> x \<noteq> NaN"
  by (auto simp: f_le_def)

lemma f_le_Fin [simp]: "f_le (Fin x) (Fin y) \<longleftrightarrow> x \<le> y"
  by (auto simp: f_le_def)

lemma f_le_simps [simp]:
  "f_le NInf x \<longleftrightarrow> x \<noteq> NaN" "f_le x PInf \<longleftrightarrow> x \<noteq> NaN"
  "f_le PInf x \<longleftrightarrow> x = PInf" "f_le x NInf \<longleftrightarrow> x = NInf" "\<not> f_le NaN x" "\<not> f_le x NaN"
  unfolding f_le_def by (cases x; auto)+

lemma f_le_trans: "f_le x y \<Longrightarrow> f_le y z \<Longrightarrow> f_le x z"
  by (cases x; cases y; cases z) auto

lemma f_less_le_trans: "f_less x y \<Longrightarrow> f_le y z \<Longrightarrow> f_less x z"
  by (cases x; cases y; cases z) auto

lemma f_le_less_trans: "f_le x y \<Longrightarrow> f_less y z \<Longrightarrow> f_less x z"
  by (cases x; cases y; cases z) auto

lemma f_less_imp_le: "f_less x y \<Longrightarrow> f_le x y"
  by (cases x; cases y) auto

lemma not_f_less: "x \<noteq> NaN \<Longrightarrow> y \<noteq> NaN \<Longrightarrow> \<not> f_less x y \<longleftrightarrow> f_le y x"
  by (auto simp: f_le_def)

lemma f64_of_not_NaN [simp]: "f64_of x \<noteq> NaN"
  by (simp add: f64_of_def Let_def)

lemma f64_of_mono: "x \<le> y \<Longrightarrow> f_le (f64_of x) (f64_of y)"
  using round64_mono [of x y] by (auto simp: f64_of_def Let_def)

lemma f_add_mono_right:
  assumes "f_le x y" and "\<bar>c\<bar> < 2 ^ 1024"
  shows "f_le (f_add (Fin c) x) (f_add (Fin c) y)"
  using assms by (cases x; cases y) (auto intro: f64_of_mono)

lemma f_add_mono_left:
  assumes "f_le x y"
  shows "f_le (f_add x (Fin c)) (f_add y (Fin c))"
  using assms by (cases x; cases y) (auto intro: f64_of_mono)

lemma f_mul_mono:
  assumes "f_le x y" and "0 < c"
  shows "f_le (f_mul (Fin c) x) (f_mul (Fin c) y)"
  using assms by (cases x; cases y) (auto intro: f64_of_mono simp: inf_times_def)

lemma f_div_mono:
  assumes "f_le x y" and "0 < c"
  shows "f_le (f_div_const x c) (f_div_const y c)"
  using assms by (cases x; cases y) (auto intro!: f64_of_mono divide_right_mono simp: inf_times_def)

lemma f_sub_antimono:
  assumes "f_le x y"
  shows "f_le (f_sub (Fin c) y) (f_sub (Fin c) x)"
  using assms by (cases x; cases y) (auto intro: f64_of_mono simp: f_sub_def)

section \<open>Single precision\<close>

text \<open>A \<^verbatim>\<open>float32\<close> is a value of the same type with 24 bits of precision.\<close>

definition ulp_exp32 :: "rat \<Rightarrow> int" where
  "ulp_exp32 x = max (flog2 x) (- 126) - 23"

definition round32 :: "rat \<Rightarrow> rat" where
  "round32 x =
     (if x = 0 then 0
      else of_int (rne (x / 2 powi ulp_exp32 \<bar>x\<bar>)) * 2 powi ulp_exp32 \<bar>x\<bar>)"

definition f32_of :: "rat \<Rightarrow> f64" where
  "f32_of x =
     (let r = round32 x
      in if 2 ^ 128 \<le> r then PInf else if r \<le> - (2 ^ 128) then NInf else Fin r)"

text \<open>The finite numbers of single precision.\<close>

definition is_f32 :: "f64 \<Rightarrow> bool" where
  "is_f32 c = (case c of Fin x \<Rightarrow> f32_of x = Fin x | _ \<Rightarrow> False)"

lemma is_f32_0 [simp]: "is_f32 (Fin 0)"
  by (simp add: is_f32_def f32_of_def round32_def)

section \<open>Rounding a given number\<close>

lemma flog2_unique:
  assumes "2 powi k \<le> x" and "x < 2 powi (k + 1)"
  shows "flog2 x = k"
proof -
  have "0 < x" using assms(1) powi_pos [of k] by linarith
  from flog2_bounds [OF this] assms have "2 powi flog2 x < (2::rat) powi (k + 1)"
    "2 powi k < (2::rat) powi (flog2 x + 1)" by linarith+
  from this [THEN powi_less_imp] show ?thesis by simp
qed

lemma rne_unique:
  assumes "\<bar>q - of_int n\<bar> < 1 / 2"
  shows "rne q = n"
proof -
  consider "\<lfloor>q\<rfloor> = n" | "\<lfloor>q\<rfloor> = n - 1" using assms by (auto simp: floor_eq_iff abs_if split: if_splits)
  then show ?thesis
    using assms by cases (auto simp: rne_def Let_def abs_if split: if_splits)
qed

lemma round64_eqI:
  assumes "2 powi k \<le> x" "x < 2 powi (k + 1)" "-1022 \<le> k"
    and "\<bar>x / 2 powi (k - 52) - of_int n\<bar> < 1 / 2"
  shows "round64 x = of_int n * 2 powi (k - 52)"
proof -
  have "0 < x" using assms(1) powi_pos [of k] by linarith
  moreover have "ulp_exp x = k - 52"
    using flog2_unique [OF assms(1,2)] assms(3) by (simp add: ulp_exp_def)
  ultimately show ?thesis
    using rne_unique [OF assms(4)] by (simp add: round64_def round_pos_def)
qed

text \<open>A number with at most 53 significant bits, not too small, is kept.\<close>

lemma round64_exact:
  assumes "2 powi k \<le> of_int n * (2::rat) powi (k - 52)" "of_int n * 2 powi (k - 52) < (2::rat) powi (k + 1)"
    "-1022 \<le> k"
  shows "round64 (of_int n * 2 powi (k - 52)) = of_int n * 2 powi (k - 52)"
  using assms by (intro round64_eqI) simp_all

lemma f64_of_0 [simp]: "f64_of 0 = Fin 0"
  by (simp add: f64_of_def)

lemma f64_of_eqI:
  assumes "round64 x = y" and "\<bar>y\<bar> < 2 ^ 1024"
  shows "f64_of x = Fin y"
  using assms by (simp add: f64_of_def Let_def abs_less_iff)

lemma f64_of_4_10: "f64_of (4 / 10) = Fin (3602879701896397 / 9007199254740992)"
  using round64_eqI [of "-2" "4 / 10" 7205759403792794]
  by (intro f64_of_eqI) (simp_all add: power_int_def power_divide)

lemma f64_of_35_100: "f64_of (35 / 100) = Fin (3152519739159347 / 9007199254740992)"
  using round64_eqI [of "-2" "35 / 100" 6305039478318694]
  by (intro f64_of_eqI) (simp_all add: power_int_def power_divide)

lemma f64_of_1 [simp]: "f64_of 1 = Fin 1"
  using round64_exact [of 0 "2 ^ 52"]
  by (intro f64_of_eqI) (simp_all add: power_int_def power_divide)

end
