(* ===== verification/Json.thy ===== *)
theory Json
  imports Prelude Float64
begin

text \<open>
  What the program uses of Go's \<^verbatim>\<open>encoding/json\<close>: a document is a tree, a body of a message is a
  tree or text that does not parse. Encoding builds the object of a struct's tagged fields, in the
  order of the struct; decoding runs through the members of an object in their order, matches
  each key to a field without regard to (ASCII) case, skips unknown keys, lets a later member
  override an earlier one, leaves a field alone on \<^verbatim>\<open>null\<close>, and fails on a value of the wrong
  kind or a number out of the field's range.
\<close>

section \<open>Documents\<close>

datatype json =
    JNull
  | JBool bool
  | JNum rat
  | JStr string
  | JArr "json list"
  | JObj "(string \<times> json) list"

datatype body = Malformed | Json json

text \<open>The ways decoding fails: the text is not JSON, or a value does not fit its field.\<close>

datatype json_error = JsonSyntax | JsonMismatch string

section \<open>Encoding\<close>

text \<open>
  The encoder writes a string as UTF-8 text: it replaces each byte that is not part of a
  well-formed sequence (RFC 3629, as in package \<^verbatim>\<open>unicode/utf8\<close>) by the bytes of U+FFFD.
\<close>

definition in_bytes :: "nat \<Rightarrow> nat \<Rightarrow> char \<Rightarrow> bool" where
  "in_bytes lo hi c \<longleftrightarrow> lo \<le> (of_char c :: nat) \<and> (of_char c :: nat) \<le> hi"

text \<open>The continuation bytes a first byte asks for; \<open>None\<close> for a byte that starts no sequence.\<close>

definition utf8_tail :: "char \<Rightarrow> (char \<Rightarrow> bool) list option" where
  "utf8_tail c =
     (let t = in_bytes 0x80 0xBF
      in if in_bytes 0 0x7F c then Some []
         else if in_bytes 0xC2 0xDF c then Some [t]
         else if in_bytes 0xE0 0xE0 c then Some [in_bytes 0xA0 0xBF, t]
         else if in_bytes 0xED 0xED c then Some [in_bytes 0x80 0x9F, t]
         else if in_bytes 0xE1 0xEF c then Some [t, t]
         else if in_bytes 0xF0 0xF0 c then Some [in_bytes 0x90 0xBF, t, t]
         else if in_bytes 0xF1 0xF3 c then Some [t, t, t]
         else if in_bytes 0xF4 0xF4 c then Some [in_bytes 0x80 0x8F, t, t]
         else None)"

definition utf8_len :: "char \<Rightarrow> string \<Rightarrow> nat option" where
  "utf8_len c rest =
     (case utf8_tail c of
        None \<Rightarrow> None
      | Some ps \<Rightarrow>
          if list_all2 (\<lambda>p x. p x) ps (take (length ps) rest) then Some (length ps) else None)"

function utf8_text :: "string \<Rightarrow> string" where
  "utf8_text [] = []"
| "utf8_text (c # rest) =
     (case utf8_len c rest of
        None \<Rightarrow> [char_of (0xEF::nat), char_of (0xBF::nat), char_of (0xBD::nat)] @ utf8_text rest
      | Some n \<Rightarrow> c # take n rest @ utf8_text (drop n rest))"
  by pat_completeness auto
termination
  by (relation "measure length") auto

definition is_utf8 :: "string \<Rightarrow> bool" where
  "is_utf8 s \<longleftrightarrow> utf8_text s = s"

lemma is_utf8_Nil [simp]: "is_utf8 []"
  by (simp add: is_utf8_def)

lemma is_utf8_Cons_ascii: "in_bytes 0 0x7F c \<Longrightarrow> is_utf8 (c # s) \<longleftrightarrow> is_utf8 s"
  by (simp add: is_utf8_def utf8_len_def utf8_tail_def)

lemma is_utf8_ascii: "\<forall>c \<in> set s. in_bytes 0 0x7F c \<Longrightarrow> is_utf8 s"
  by (induction s) (simp_all add: is_utf8_Cons_ascii)

definition j_str :: "string \<Rightarrow> json" where
  "j_str s = JStr (utf8_text s)"

definition j_u32 :: "u32 \<Rightarrow> json" where
  "j_u32 x = JNum (of_int (uint x))"

definition j_u64 :: "u64 \<Rightarrow> json" where
  "j_u64 x = JNum (of_int (uint x))"

definition j_int :: "int \<Rightarrow> json" where
  "j_int x = JNum (of_int x)"

definition j_strs :: "string list \<Rightarrow> json" where
  "j_strs ss = JArr (map j_str ss)"

text \<open>The option \<^verbatim>\<open>omitempty\<close> on a string and on a slice.\<close>

definition omit_str :: "string \<Rightarrow> string \<Rightarrow> (string \<times> json) list" where
  "omit_str k s = (if s = '''' then [] else [(k, j_str s)])"

definition omit_strs :: "string \<Rightarrow> string list \<Rightarrow> (string \<times> json) list" where
  "omit_strs k ss = (if ss = [] then [] else [(k, j_strs ss)])"

section \<open>Decoding\<close>

definition ascii_lower :: "char \<Rightarrow> char" where
  "ascii_lower c =
     (let n = of_char c :: nat in if 65 \<le> n \<and> n \<le> 90 then char_of (n + 32) else c)"

definition fold_eq :: "string \<Rightarrow> string \<Rightarrow> bool" where
  "fold_eq a b \<longleftrightarrow> map ascii_lower a = map ascii_lower b"

lemma fold_eq_refl [simp]: "fold_eq a a"
  by (simp add: fold_eq_def)

text \<open>A field of a struct: its key, and how it takes a value. \<open>None\<close> is a mismatch.\<close>

type_synonym 'r field = "string \<times> (json \<Rightarrow> 'r \<Rightarrow> 'r option)"

fun set_member :: "'r field list \<Rightarrow> string \<times> json \<Rightarrow> 'r \<Rightarrow> json_error + 'r" where
  "set_member [] m r = Inr r"
| "set_member ((k, put) # fs) (key, v) r =
     (if fold_eq key k
      then (if v = JNull then Inr r
            else case put v r of None \<Rightarrow> Inl (JsonMismatch k) | Some r' \<Rightarrow> Inr r')
      else set_member fs (key, v) r)"

fun set_members :: "'r field list \<Rightarrow> (string \<times> json) list \<Rightarrow> 'r \<Rightarrow> json_error + 'r" where
  "set_members fs [] r = Inr r"
| "set_members fs (m # ms) r =
     (case set_member fs m r of Inl e \<Rightarrow> Inl e | Inr r' \<Rightarrow> set_members fs ms r')"

fun json_decode :: "'r field list \<Rightarrow> 'r \<Rightarrow> body \<Rightarrow> json_error + 'r" where
  "json_decode fs r Malformed = Inl JsonSyntax"
| "json_decode fs r (Json JNull) = Inr r"
| "json_decode fs r (Json (JObj ms)) = set_members fs ms r"
| "json_decode fs r (Json _) = Inl (JsonMismatch '''')"

lemma set_members_append:
  "set_members fs (xs @ ys) r =
   (case set_members fs xs r of Inl e \<Rightarrow> Inl e | Inr r' \<Rightarrow> set_members fs ys r')"
  by (induction xs arbitrary: r) (auto split: sum.splits)

fun un_str :: "json \<Rightarrow> string option" where
  "un_str (JStr s) = Some s"
| "un_str _ = None"

fun un_bool :: "json \<Rightarrow> bool option" where
  "un_bool (JBool b) = Some b"
| "un_bool _ = None"

text \<open>An integer field refuses a fraction and a number out of its range.\<close>

fun un_int :: "int \<Rightarrow> int \<Rightarrow> json \<Rightarrow> int option" where
  "un_int lo hi (JNum x) =
     (if x = of_int \<lfloor>x\<rfloor> \<and> lo \<le> \<lfloor>x\<rfloor> \<and> \<lfloor>x\<rfloor> \<le> hi then Some \<lfloor>x\<rfloor> else None)"
| "un_int lo hi _ = None"

definition un_u32 :: "json \<Rightarrow> u32 option" where
  "un_u32 j = map_option of_int (un_int 0 (2 ^ 32 - 1) j)"

definition un_u64 :: "json \<Rightarrow> u64 option" where
  "un_u64 j = map_option of_int (un_int 0 (2 ^ 64 - 1) j)"

fun un_elem :: "json \<Rightarrow> string option" where
  "un_elem JNull = Some ''''"
| "un_elem j = un_str j"

fun un_all :: "json list \<Rightarrow> string list option" where
  "un_all [] = Some []"
| "un_all (j # js) =
     (case un_elem j of None \<Rightarrow> None | Some s \<Rightarrow> map_option (Cons s) (un_all js))"

fun un_strs :: "json \<Rightarrow> string list option" where
  "un_strs (JArr js) = un_all js"
| "un_strs _ = None"

definition f_str :: "string \<Rightarrow> (string \<Rightarrow> 'r \<Rightarrow> 'r) \<Rightarrow> 'r field" where
  "f_str k put = (k, \<lambda>j r. map_option (\<lambda>s. put s r) (un_str j))"

definition f_bool :: "string \<Rightarrow> (bool \<Rightarrow> 'r \<Rightarrow> 'r) \<Rightarrow> 'r field" where
  "f_bool k put = (k, \<lambda>j r. map_option (\<lambda>s. put s r) (un_bool j))"

definition f_u32 :: "string \<Rightarrow> (u32 \<Rightarrow> 'r \<Rightarrow> 'r) \<Rightarrow> 'r field" where
  "f_u32 k put = (k, \<lambda>j r. map_option (\<lambda>s. put s r) (un_u32 j))"

definition f_u64 :: "string \<Rightarrow> (u64 \<Rightarrow> 'r \<Rightarrow> 'r) \<Rightarrow> 'r field" where
  "f_u64 k put = (k, \<lambda>j r. map_option (\<lambda>s. put s r) (un_u64 j))"

definition f_i32 :: "string \<Rightarrow> (int \<Rightarrow> 'r \<Rightarrow> 'r) \<Rightarrow> 'r field" where
  "f_i32 k put = (k, \<lambda>j r. map_option (\<lambda>s. put s r) (un_int (- (2 ^ 31)) (2 ^ 31 - 1) j))"

definition f_i64 :: "string \<Rightarrow> (int \<Rightarrow> 'r \<Rightarrow> 'r) \<Rightarrow> 'r field" where
  "f_i64 k put = (k, \<lambda>j r. map_option (\<lambda>s. put s r) (un_int (- (2 ^ 63)) (2 ^ 63 - 1) j))"

text \<open>A number read into a \<^verbatim>\<open>float32\<close> is rounded to it, and refused when it overflows.\<close>

fun un_f32 :: "json \<Rightarrow> f64 option" where
  "un_f32 (JNum x) = (case f32_of x of Fin y \<Rightarrow> Some (Fin y) | _ \<Rightarrow> None)"
| "un_f32 _ = None"

definition f_f32 :: "string \<Rightarrow> (f64 \<Rightarrow> 'r \<Rightarrow> 'r) \<Rightarrow> 'r field" where
  "f_f32 k put = (k, \<lambda>j r. map_option (\<lambda>s. put s r) (un_f32 j))"

definition f_strs :: "string \<Rightarrow> (string list \<Rightarrow> 'r \<Rightarrow> 'r) \<Rightarrow> 'r field" where
  "f_strs k put = (k, \<lambda>j r. map_option (\<lambda>s. put s r) (un_strs j))"

named_theorems json_simps

lemmas [json_simps] = f_str_def f_bool_def f_u32_def f_u64_def f_i32_def f_i64_def f_strs_def f_f32_def
  omit_str_def omit_strs_def set_members_append

lemma un_int_of_int:
  "un_int lo hi (JNum (of_int x)) = (if lo \<le> x \<and> x \<le> hi then Some x else None)"
  by simp

lemma un_u32_inverse [simp]: "un_u32 (j_u32 x) = Some x"
proof -
  have "uint x \<le> 2 ^ 32 - 1" using unsigned_less [of x, where ?'a = int] by simp
  then have "un_int 0 (2 ^ 32 - 1) (j_u32 x) = Some (uint x)"
    by (simp only: j_u32_def un_int_of_int) simp
  then show ?thesis by (simp add: un_u32_def)
qed

lemma un_u64_inverse [simp]: "un_u64 (j_u64 x) = Some x"
proof -
  have "uint x \<le> 2 ^ 64 - 1" using unsigned_less [of x, where ?'a = int] by simp
  then have "un_int 0 (2 ^ 64 - 1) (j_u64 x) = Some (uint x)"
    by (simp only: j_u64_def un_int_of_int) simp
  then show ?thesis by (simp add: un_u64_def)
qed

lemma un_int_inverse [simp]: "un_int lo hi (j_int x) = (if lo \<le> x \<and> x \<le> hi then Some x else None)"
  by (simp add: j_int_def)

lemma un_str_inverse [simp]: "un_str (j_str s) = Some (utf8_text s)"
  by (simp add: j_str_def)

lemma un_strs_inverse [simp]: "un_strs (j_strs ss) = Some (map utf8_text ss)"
  by (induction ss) (simp_all add: j_strs_def j_str_def)

lemma encoded_not_null [simp]:
  "j_str s \<noteq> JNull" "j_u32 x \<noteq> JNull" "j_u64 y \<noteq> JNull" "j_int i \<noteq> JNull"
  "j_strs ss \<noteq> JNull"
  by (simp_all add: j_str_def j_u32_def j_u64_def j_int_def j_strs_def)

text \<open>What every field keeps, decoding keeps.\<close>

lemma set_members_inv:
  assumes "\<And>k put v r r'. (k, put) \<in> set fs \<Longrightarrow> P r \<Longrightarrow> put v r = Some r' \<Longrightarrow> P r'"
  shows "P r \<Longrightarrow> set_members fs ms r = Inr r' \<Longrightarrow> P r'"
proof (induction ms arbitrary: r)
  case (Cons m ms)
  have one: "P r2" if "P r1" "set_member gs m r1 = Inr r2" "set gs \<subseteq> set fs" for gs r1 r2
    using that
    by (induction gs m r1 rule: set_member.induct)
      (auto split: if_splits option.splits dest: assms)
  from Cons.prems obtain r2 where "set_member fs m r = Inr r2" "set_members fs ms r2 = Inr r'"
    by (auto split: sum.splits)
  with one [OF Cons.prems(1)] Cons.IH show ?case by blast
qed simp

lemma json_decode_inv:
  assumes "\<And>k put v r r'. (k, put) \<in> set fs \<Longrightarrow> P r \<Longrightarrow> put v r = Some r' \<Longrightarrow> P r'"
    and "P zero" and "json_decode fs zero b = Inr r"
  shows "P r"
proof (cases b)
  case Malformed
  with assms(3) show ?thesis by simp
next
  case (Json j)
  show ?thesis
  proof (cases j)
    case (JObj ms)
    with Json assms(3) have "set_members fs ms zero = Inr r" by simp
    then show ?thesis
      by (rule set_members_inv [of fs P, rotated 2]) (use assms(1,2) in blast)+
  qed (use Json assms(2,3) in simp_all)
qed

lemma un_int_range: "un_int lo hi j = Some x \<Longrightarrow> lo \<le> x \<and> x \<le> hi"
  by (cases j) (auto split: if_splits)

end
