(* ===== verification/AgentApi.thy ===== *)
theory AgentApi
  imports Json
begin

text \<open>
  \<^verbatim>\<open>internal/agentapi/agentapi.go\<close>: the messages between the schedulers and a host agent, and the
  HTTP client. A message is a record with its tagged fields encoded and decoded as
  \<^verbatim>\<open>encoding/json\<close> does it. The network is an argument: a \<open>transport\<close> takes a request to a
  response or an error and changes a world of its own. The client's timeout of 30 seconds is one
  of the transport's errors. The text of a decoding error is the argument \<open>jerr\<close>.
\<close>

section \<open>Messages\<close>

record PlaceRequest =
  pl_SandboxID :: string
  pl_TenantID :: string
  pl_ImageRef :: string
  pl_CPUMillis :: u32
  pl_MemMiB :: u32
  pl_TimeoutMs :: u32
  pl_EgressAllowlist :: "string list"
  pl_SnapshotKey :: string

record PlaceResponse =
  plr_SandboxID :: string
  plr_VsockCID :: u32
  plr_UnixSocket :: string

record TerminateRequest =
  tm_SandboxID :: string
  tm_Reason :: string

record TerminateResponse =
  tmr_SandboxID :: string

record ExecRequest =
  ex_SandboxID :: string
  ex_Command :: string
  ex_Stdin :: string
  ex_TimeoutMs :: u32

record ExecResponse =
  exr_Stdout :: string
  exr_Stderr :: string
  exr_ExitCode :: int
  exr_DurationMs :: int

record HeartbeatRequest =
  hb_HostID :: string

record HeartbeatResponse =
  hbr_HostID :: string
  hbr_ActiveVMs :: u32
  hbr_IdlePoolSize :: u32
  hbr_CPUUsagePct :: f64
  hbr_MemUsedMiB :: u64
  hbr_MemTotalMiB :: u64
  hbr_Healthy :: bool

text \<open>The zero values a decoder starts from.\<close>

definition zero_PlaceRequest :: PlaceRequest where
  "zero_PlaceRequest = \<lparr>pl_SandboxID = '''', pl_TenantID = '''', pl_ImageRef = '''',
     pl_CPUMillis = 0, pl_MemMiB = 0, pl_TimeoutMs = 0, pl_EgressAllowlist = [],
     pl_SnapshotKey = ''''\<rparr>"

definition zero_PlaceResponse :: PlaceResponse where
  "zero_PlaceResponse = \<lparr>plr_SandboxID = '''', plr_VsockCID = 0, plr_UnixSocket = ''''\<rparr>"

definition zero_TerminateRequest :: TerminateRequest where
  "zero_TerminateRequest = \<lparr>tm_SandboxID = '''', tm_Reason = ''''\<rparr>"

definition zero_TerminateResponse :: TerminateResponse where
  "zero_TerminateResponse = \<lparr>tmr_SandboxID = ''''\<rparr>"

definition zero_ExecRequest :: ExecRequest where
  "zero_ExecRequest = \<lparr>ex_SandboxID = '''', ex_Command = '''', ex_Stdin = '''', ex_TimeoutMs = 0\<rparr>"

definition zero_ExecResponse :: ExecResponse where
  "zero_ExecResponse = \<lparr>exr_Stdout = '''', exr_Stderr = '''', exr_ExitCode = 0,
     exr_DurationMs = 0\<rparr>"

definition zero_HeartbeatRequest :: HeartbeatRequest where
  "zero_HeartbeatRequest = \<lparr>hb_HostID = ''''\<rparr>"

definition zero_HeartbeatResponse :: HeartbeatResponse where
  "zero_HeartbeatResponse = \<lparr>hbr_HostID = '''', hbr_ActiveVMs = 0, hbr_IdlePoolSize = 0,
     hbr_CPUUsagePct = Fin 0, hbr_MemUsedMiB = 0, hbr_MemTotalMiB = 0, hbr_Healthy = False\<rparr>"

lemmas zero_messages = zero_PlaceRequest_def zero_PlaceResponse_def zero_TerminateRequest_def
  zero_TerminateResponse_def zero_ExecRequest_def zero_ExecResponse_def zero_HeartbeatRequest_def
  zero_HeartbeatResponse_def

section \<open>Their JSON form\<close>

definition enc_PlaceRequest :: "PlaceRequest \<Rightarrow> json" where
  "enc_PlaceRequest r = JObj
     ([(''sandbox_id'', j_str (pl_SandboxID r)), (''tenant_id'', j_str (pl_TenantID r)),
       (''image_ref'', j_str (pl_ImageRef r)), (''cpu_millis'', j_u32 (pl_CPUMillis r)),
       (''mem_mib'', j_u32 (pl_MemMiB r)), (''timeout_ms'', j_u32 (pl_TimeoutMs r))] @
      omit_strs ''egress_allowlist'' (pl_EgressAllowlist r) @
      omit_str ''snapshot_key'' (pl_SnapshotKey r))"

definition PlaceRequest_fields :: "PlaceRequest field list" where
  "PlaceRequest_fields =
     [f_str ''sandbox_id'' (\<lambda>x. pl_SandboxID_update (\<lambda>_. x)),
      f_str ''tenant_id'' (\<lambda>x. pl_TenantID_update (\<lambda>_. x)),
      f_str ''image_ref'' (\<lambda>x. pl_ImageRef_update (\<lambda>_. x)),
      f_u32 ''cpu_millis'' (\<lambda>x. pl_CPUMillis_update (\<lambda>_. x)),
      f_u32 ''mem_mib'' (\<lambda>x. pl_MemMiB_update (\<lambda>_. x)),
      f_u32 ''timeout_ms'' (\<lambda>x. pl_TimeoutMs_update (\<lambda>_. x)),
      f_strs ''egress_allowlist'' (\<lambda>x. pl_EgressAllowlist_update (\<lambda>_. x)),
      f_str ''snapshot_key'' (\<lambda>x. pl_SnapshotKey_update (\<lambda>_. x))]"

definition enc_PlaceResponse :: "PlaceResponse \<Rightarrow> json" where
  "enc_PlaceResponse r = JObj
     ([(''sandbox_id'', j_str (plr_SandboxID r)), (''vsock_cid'', j_u32 (plr_VsockCID r))] @
      omit_str ''unix_socket'' (plr_UnixSocket r))"

definition PlaceResponse_fields :: "PlaceResponse field list" where
  "PlaceResponse_fields =
     [f_str ''sandbox_id'' (\<lambda>x. plr_SandboxID_update (\<lambda>_. x)),
      f_u32 ''vsock_cid'' (\<lambda>x. plr_VsockCID_update (\<lambda>_. x)),
      f_str ''unix_socket'' (\<lambda>x. plr_UnixSocket_update (\<lambda>_. x))]"

definition enc_TerminateRequest :: "TerminateRequest \<Rightarrow> json" where
  "enc_TerminateRequest r =
     JObj [(''sandbox_id'', j_str (tm_SandboxID r)), (''reason'', j_str (tm_Reason r))]"

definition TerminateRequest_fields :: "TerminateRequest field list" where
  "TerminateRequest_fields =
     [f_str ''sandbox_id'' (\<lambda>x. tm_SandboxID_update (\<lambda>_. x)),
      f_str ''reason'' (\<lambda>x. tm_Reason_update (\<lambda>_. x))]"

definition enc_TerminateResponse :: "TerminateResponse \<Rightarrow> json" where
  "enc_TerminateResponse r = JObj [(''sandbox_id'', j_str (tmr_SandboxID r))]"

definition TerminateResponse_fields :: "TerminateResponse field list" where
  "TerminateResponse_fields = [f_str ''sandbox_id'' (\<lambda>x. tmr_SandboxID_update (\<lambda>_. x))]"

definition enc_ExecRequest :: "ExecRequest \<Rightarrow> json" where
  "enc_ExecRequest r = JObj
     ([(''sandbox_id'', j_str (ex_SandboxID r)), (''command'', j_str (ex_Command r))] @
      omit_str ''stdin'' (ex_Stdin r) @ [(''timeout_ms'', j_u32 (ex_TimeoutMs r))])"

definition ExecRequest_fields :: "ExecRequest field list" where
  "ExecRequest_fields =
     [f_str ''sandbox_id'' (\<lambda>x. ex_SandboxID_update (\<lambda>_. x)),
      f_str ''command'' (\<lambda>x. ex_Command_update (\<lambda>_. x)),
      f_str ''stdin'' (\<lambda>x. ex_Stdin_update (\<lambda>_. x)),
      f_u32 ''timeout_ms'' (\<lambda>x. ex_TimeoutMs_update (\<lambda>_. x))]"

definition enc_ExecResponse :: "ExecResponse \<Rightarrow> json" where
  "enc_ExecResponse r = JObj
     [(''stdout'', j_str (exr_Stdout r)), (''stderr'', j_str (exr_Stderr r)),
      (''exit_code'', j_int (exr_ExitCode r)), (''duration_ms'', j_int (exr_DurationMs r))]"

definition ExecResponse_fields :: "ExecResponse field list" where
  "ExecResponse_fields =
     [f_str ''stdout'' (\<lambda>x. exr_Stdout_update (\<lambda>_. x)),
      f_str ''stderr'' (\<lambda>x. exr_Stderr_update (\<lambda>_. x)),
      f_i32 ''exit_code'' (\<lambda>x. exr_ExitCode_update (\<lambda>_. x)),
      f_i64 ''duration_ms'' (\<lambda>x. exr_DurationMs_update (\<lambda>_. x))]"

definition enc_HeartbeatRequest :: "HeartbeatRequest \<Rightarrow> json" where
  "enc_HeartbeatRequest r = JObj [(''host_id'', j_str (hb_HostID r))]"

definition HeartbeatRequest_fields :: "HeartbeatRequest field list" where
  "HeartbeatRequest_fields = [f_str ''host_id'' (\<lambda>x. hb_HostID_update (\<lambda>_. x))]"

text \<open>A load that is not a finite number has no JSON form: the encoder refuses the response.\<close>

definition enc_HeartbeatResponse :: "HeartbeatResponse \<Rightarrow> json option" where
  "enc_HeartbeatResponse r =
     (case hbr_CPUUsagePct r of
        Fin c \<Rightarrow> Some (JObj
          [(''host_id'', j_str (hbr_HostID r)), (''active_vms'', j_u32 (hbr_ActiveVMs r)),
           (''idle_pool_size'', j_u32 (hbr_IdlePoolSize r)), (''cpu_usage_pct'', JNum c),
           (''mem_used_mib'', j_u64 (hbr_MemUsedMiB r)),
           (''mem_total_mib'', j_u64 (hbr_MemTotalMiB r)), (''healthy'', JBool (hbr_Healthy r))])
      | _ \<Rightarrow> None)"

definition HeartbeatResponse_fields :: "HeartbeatResponse field list" where
  "HeartbeatResponse_fields =
     [f_str ''host_id'' (\<lambda>x. hbr_HostID_update (\<lambda>_. x)),
      f_u32 ''active_vms'' (\<lambda>x. hbr_ActiveVMs_update (\<lambda>_. x)),
      f_u32 ''idle_pool_size'' (\<lambda>x. hbr_IdlePoolSize_update (\<lambda>_. x)),
      f_f32 ''cpu_usage_pct'' (\<lambda>x. hbr_CPUUsagePct_update (\<lambda>_. x)),
      f_u64 ''mem_used_mib'' (\<lambda>x. hbr_MemUsedMiB_update (\<lambda>_. x)),
      f_u64 ''mem_total_mib'' (\<lambda>x. hbr_MemTotalMiB_update (\<lambda>_. x)),
      f_bool ''healthy'' (\<lambda>x. hbr_Healthy_update (\<lambda>_. x))]"

lemmas message_fields = PlaceRequest_fields_def PlaceResponse_fields_def
  TerminateRequest_fields_def TerminateResponse_fields_def ExecRequest_fields_def
  ExecResponse_fields_def HeartbeatRequest_fields_def HeartbeatResponse_fields_def

text \<open>What is decoded from an encoded message: the message, when its strings are UTF-8.\<close>

definition utf8_PlaceRequest :: "PlaceRequest \<Rightarrow> bool" where
  "utf8_PlaceRequest r \<longleftrightarrow>
     is_utf8 (pl_SandboxID r) \<and> is_utf8 (pl_TenantID r) \<and> is_utf8 (pl_ImageRef r) \<and>
     list_all is_utf8 (pl_EgressAllowlist r) \<and> is_utf8 (pl_SnapshotKey r)"

definition utf8_PlaceResponse :: "PlaceResponse \<Rightarrow> bool" where
  "utf8_PlaceResponse r \<longleftrightarrow> is_utf8 (plr_SandboxID r) \<and> is_utf8 (plr_UnixSocket r)"

definition utf8_ExecRequest :: "ExecRequest \<Rightarrow> bool" where
  "utf8_ExecRequest r \<longleftrightarrow>
     is_utf8 (ex_SandboxID r) \<and> is_utf8 (ex_Command r) \<and> is_utf8 (ex_Stdin r)"

definition wire_ExecResponse :: "ExecResponse \<Rightarrow> bool" where
  "wire_ExecResponse r \<longleftrightarrow>
     is_utf8 (exr_Stdout r) \<and> is_utf8 (exr_Stderr r) \<and>
     - (2 ^ 31) \<le> exr_ExitCode r \<and> exr_ExitCode r < 2 ^ 31 \<and>
     - (2 ^ 63) \<le> exr_DurationMs r \<and> exr_DurationMs r < 2 ^ 63"

lemma map_utf8_text: "list_all is_utf8 ss \<Longrightarrow> map utf8_text ss = ss"
  by (induction ss) (simp_all add: is_utf8_def)

lemma fold_eq_code: "fold_eq a b = (map ascii_lower a = map ascii_lower b)"
  by (simp add: fold_eq_def)

lemma decode_PlaceRequest:
  "utf8_PlaceRequest r \<Longrightarrow>
   json_decode PlaceRequest_fields zero_PlaceRequest (Json (enc_PlaceRequest r)) = Inr r"
  by (cases r) (simp add: utf8_PlaceRequest_def enc_PlaceRequest_def PlaceRequest_fields_def
      zero_PlaceRequest_def json_simps is_utf8_def map_utf8_text fold_eq_def ascii_lower_def)

lemma decode_PlaceResponse:
  "utf8_PlaceResponse r \<Longrightarrow>
   json_decode PlaceResponse_fields zero_PlaceResponse (Json (enc_PlaceResponse r)) = Inr r"
  by (cases r) (simp add: utf8_PlaceResponse_def enc_PlaceResponse_def PlaceResponse_fields_def
      zero_PlaceResponse_def json_simps is_utf8_def fold_eq_def ascii_lower_def)

lemma decode_TerminateRequest:
  "is_utf8 (tm_SandboxID r) \<Longrightarrow> is_utf8 (tm_Reason r) \<Longrightarrow>
   json_decode TerminateRequest_fields zero_TerminateRequest (Json (enc_TerminateRequest r)) = Inr r"
  by (cases r) (simp add: enc_TerminateRequest_def TerminateRequest_fields_def
      zero_TerminateRequest_def json_simps is_utf8_def fold_eq_def ascii_lower_def)

lemma decode_TerminateResponse:
  "is_utf8 (tmr_SandboxID r) \<Longrightarrow>
   json_decode TerminateResponse_fields zero_TerminateResponse
     (Json (enc_TerminateResponse r)) = Inr r"
  by (cases r) (simp add: enc_TerminateResponse_def TerminateResponse_fields_def
      zero_TerminateResponse_def json_simps is_utf8_def fold_eq_def ascii_lower_def)

lemma decode_ExecRequest:
  "utf8_ExecRequest r \<Longrightarrow>
   json_decode ExecRequest_fields zero_ExecRequest (Json (enc_ExecRequest r)) = Inr r"
  by (cases r) (simp add: utf8_ExecRequest_def enc_ExecRequest_def ExecRequest_fields_def
      zero_ExecRequest_def json_simps is_utf8_def fold_eq_def ascii_lower_def)

lemma decode_ExecResponse:
  "wire_ExecResponse r \<Longrightarrow>
   json_decode ExecResponse_fields zero_ExecResponse (Json (enc_ExecResponse r)) = Inr r"
  by (cases r) (simp add: wire_ExecResponse_def enc_ExecResponse_def ExecResponse_fields_def
      zero_ExecResponse_def json_simps is_utf8_def fold_eq_def ascii_lower_def)

lemma decode_HeartbeatRequest:
  "is_utf8 (hb_HostID r) \<Longrightarrow>
   json_decode HeartbeatRequest_fields zero_HeartbeatRequest (Json (enc_HeartbeatRequest r)) = Inr r"
  by (cases r) (simp add: enc_HeartbeatRequest_def HeartbeatRequest_fields_def
      zero_HeartbeatRequest_def json_simps is_utf8_def fold_eq_def ascii_lower_def)

lemma decode_HeartbeatResponse:
  "is_utf8 (hbr_HostID r) \<Longrightarrow> is_f32 (hbr_CPUUsagePct r) \<Longrightarrow>
   \<exists>j. enc_HeartbeatResponse r = Some j \<and>
       json_decode HeartbeatResponse_fields zero_HeartbeatResponse (Json j) = Inr r"
  by (cases r; cases "hbr_CPUUsagePct r") (simp_all add: enc_HeartbeatResponse_def HeartbeatResponse_fields_def
      zero_HeartbeatResponse_def json_simps is_utf8_def is_f32_def fold_eq_def ascii_lower_def)

section \<open>The client\<close>

record http_request =
  rq_Method :: string
  rq_URL :: string
  rq_Headers :: "(string \<times> string) list"
  rq_Body :: body

record http_response =
  rs_Status :: int
  rs_Body :: body

text \<open>
  A request that cannot be formed (its URL does not parse), and one that is not answered: no
  connection, a cancelled context, the client's timeout.
\<close>

datatype transport_error = BadRequest string | NoAnswer string

type_synonym 'w transport =
  "http_request \<Rightarrow> 'w \<Rightarrow> (transport_error + http_response) \<times> 'w"

record Client =
  cl_baseURL :: string
  cl_secret :: string

definition NewClient :: "string \<Rightarrow> string \<Rightarrow> Client" where
  "NewClient baseURL secret = \<lparr>cl_baseURL = baseURL, cl_secret = secret\<rparr>"

text \<open>
  The \<^verbatim>\<open>error\<close> field of an error body, empty when there is none: \<^verbatim>\<open>post\<close> ignores the result of this
  decoding, so members of another kind are passed over.
\<close>

fun api_error_member :: "string \<Rightarrow> string \<times> json \<Rightarrow> string" where
  "api_error_member a (k, JStr s) = (if fold_eq k ''error'' then s else a)"
| "api_error_member a (k, _) = a"

fun api_error_text :: "body \<Rightarrow> string" where
  "api_error_text (Json (JObj ms)) = foldl api_error_member '''' ms"
| "api_error_text _ = ''''"

definition client_post ::
  "(json_error \<Rightarrow> string) \<Rightarrow> 'w transport \<Rightarrow> Client \<Rightarrow> string \<Rightarrow> json \<Rightarrow> 'r field list \<Rightarrow> 'r \<Rightarrow>
   'w \<Rightarrow> (string + 'r) \<times> 'w" where
  "client_post jerr tr c path req flds out w =
     (let httpReq = \<lparr>rq_Method = ''POST'', rq_URL = cl_baseURL c @ path,
                     rq_Headers = [(''Content-Type'', ''application/json''),
                                   (''X-Agent-Secret'', cl_secret c)],
                     rq_Body = Json req\<rparr>
      in case tr httpReq w of
           (Inl (BadRequest e), w') \<Rightarrow> (Inl (''new request: '' @ e), w')
         | (Inl (NoAnswer e), w') \<Rightarrow> (Inl (''do: '' @ e), w')
         | (Inr resp, w') \<Rightarrow>
             if rs_Status resp \<ge> 300
             then (let ae = api_error_text (rs_Body resp)
                   in if ae \<noteq> ''''
                      then (Inl (''status '' @ show_int (rs_Status resp) @ '': '' @ ae), w')
                      else (Inl (''status '' @ show_int (rs_Status resp)), w'))
             else (case json_decode flds out (rs_Body resp) of
                     Inl e \<Rightarrow> (Inl (''unmarshal response: '' @ jerr e), w')
                   | Inr r \<Rightarrow> (Inr r, w')))"

definition wrap_error :: "string \<Rightarrow> (string + 'r) \<times> 'w \<Rightarrow> (string + 'r) \<times> 'w" where
  "wrap_error pre rw =
     (case rw of (Inl e, w) \<Rightarrow> (Inl (pre @ e), w) | (Inr r, w) \<Rightarrow> (Inr r, w))"

definition client_PlaceSandbox ::
  "(json_error \<Rightarrow> string) \<Rightarrow> 'w transport \<Rightarrow> Client \<Rightarrow> PlaceRequest \<Rightarrow> 'w \<Rightarrow>
   (string + PlaceResponse) \<times> 'w" where
  "client_PlaceSandbox jerr tr c req w =
     wrap_error ''agentapi: PlaceSandbox: ''
       (client_post jerr tr c ''/internal/v1/place'' (enc_PlaceRequest req)
          PlaceResponse_fields zero_PlaceResponse w)"

definition client_TerminateSandbox ::
  "(json_error \<Rightarrow> string) \<Rightarrow> 'w transport \<Rightarrow> Client \<Rightarrow> TerminateRequest \<Rightarrow> 'w \<Rightarrow>
   (string + TerminateResponse) \<times> 'w" where
  "client_TerminateSandbox jerr tr c req w =
     wrap_error ''agentapi: TerminateSandbox: ''
       (client_post jerr tr c ''/internal/v1/terminate'' (enc_TerminateRequest req)
          TerminateResponse_fields zero_TerminateResponse w)"

definition client_ExecInSandbox ::
  "(json_error \<Rightarrow> string) \<Rightarrow> 'w transport \<Rightarrow> Client \<Rightarrow> ExecRequest \<Rightarrow> 'w \<Rightarrow>
   (string + ExecResponse) \<times> 'w" where
  "client_ExecInSandbox jerr tr c req w =
     wrap_error ''agentapi: ExecInSandbox: ''
       (client_post jerr tr c ''/internal/v1/exec'' (enc_ExecRequest req)
          ExecResponse_fields zero_ExecResponse w)"

definition client_Heartbeat ::
  "(json_error \<Rightarrow> string) \<Rightarrow> 'w transport \<Rightarrow> Client \<Rightarrow> HeartbeatRequest \<Rightarrow> 'w \<Rightarrow>
   (string + HeartbeatResponse) \<times> 'w" where
  "client_Heartbeat jerr tr c req w =
     wrap_error ''agentapi: Heartbeat: ''
       (client_post jerr tr c ''/internal/v1/heartbeat'' (enc_HeartbeatRequest req)
          HeartbeatResponse_fields zero_HeartbeatResponse w)"

lemma wrap_error_simps [simp]:
  "wrap_error pre (Inl e, w) = (Inl (pre @ e), w)" "wrap_error pre (Inr r, w) = (Inr r, w)"
  "snd (wrap_error pre rw) = snd rw"
  by (auto simp: wrap_error_def split: prod.splits sum.splits)

lemma client_post_ok:
  "tr \<lparr>rq_Method = ''POST'', rq_URL = cl_baseURL c @ path,
       rq_Headers = [(''Content-Type'', ''application/json''), (''X-Agent-Secret'', cl_secret c)],
       rq_Body = Json req\<rparr> w = (Inr resp, w') \<Longrightarrow>
   rs_Status resp < 300 \<Longrightarrow> json_decode flds out (rs_Body resp) = Inr r \<Longrightarrow>
   client_post jerr tr c path req flds out w = (Inr r, w')"
  by (simp add: client_post_def)

lemma client_post_error_nonempty:
  "client_post jerr tr c path req flds out w = (Inl e, w') \<Longrightarrow> e \<noteq> ''''"
  by (auto simp: client_post_def Let_def
      split: prod.splits sum.splits transport_error.splits if_splits)

end
