(* ===== verification/Scheduler.thy ===== *)
theory Scheduler
  imports GoHeap Float64 SandboxState SandboxSpec AgentApi "HOL-Library.Product_Lexorder"
begin

text \<open>
  \<^verbatim>\<open>cmd/orchestrator/scheduler.go\<close>: the registry of hosts and the choice of the best one, the
  queue of pending requests (a \<^verbatim>\<open>container/heap\<close> ordered by deadline, then priority), and the
  dispatch of a request to a host. The registry and the queue are the state of a \<open>Scheduler\<close>; the
  sandbox store is shared with the rest of the program and passed along. Readings of the clock
  and the iteration order of the host map are arguments.

  The source keeps pointers to hosts in the map. \<^verbatim>\<open>RegisterHost\<close> replaces the pointer, the other
  operations write fields through it; no operation changes the identifier or the address of a
  host it holds, the two fields a placement in flight reads, so hosts are values here.
\<close>

section \<open>Hosts and their score\<close>

record HostInfo =
  h_ID :: string
  h_Addr :: string
  h_ActiveVMs :: u32
  h_IdlePool :: u32
  h_CPUUsagePct :: f64
  h_LastSeen :: time
  h_Healthy :: bool

definition scoreHost :: "HostInfo \<Rightarrow> f64" where
  "scoreHost h =
     (if \<not> h_Healthy h then Fin (- 1)
      else
        let fit = f_sub (Fin 1) (f_div_const (h_CPUUsagePct h) 100);
            cpuFit = (if f_less fit (Fin 0) then Fin 0 else fit);
            warmPoolHit = (if h_IdlePool h > 0 then Fin 1 else Fin 0)
        in f_add (f_add (f_mul (f64_of (4 / 10)) cpuFit) (f_mul (f64_of (35 / 100)) warmPoolHit))
             (Fin (1 / 4)))"

section \<open>The pending queue\<close>

record pendingItem =
  i_sandboxID :: string
  i_spec :: SandboxSpec
  i_deadline :: time
  i_priority :: int
  i_index :: int

type_synonym pendingQueue = "pendingItem list"

definition pq_Less :: "pendingQueue \<Rightarrow> nat \<Rightarrow> nat \<Rightarrow> bool" where
  "pq_Less pq i j =
     (if i_deadline (pq ! i) = i_deadline (pq ! j) then i_priority (pq ! i) > i_priority (pq ! j)
      else i_deadline (pq ! i) < i_deadline (pq ! j))"

definition pq_Swap :: "pendingQueue \<Rightarrow> nat \<Rightarrow> nat \<Rightarrow> pendingQueue" where
  "pq_Swap pq i j =
     (let pq1 = pq[i := pq ! j, j := pq ! i];
          pq2 = pq1[i := (pq1 ! i)\<lparr>i_index := int i\<rparr>]
      in pq2[j := (pq2 ! j)\<lparr>i_index := int j\<rparr>])"

definition pq_Push :: "pendingQueue \<Rightarrow> pendingItem \<Rightarrow> pendingQueue" where
  "pq_Push pq item = pq @ [item\<lparr>i_index := int (length pq)\<rparr>]"

definition pq_Pop :: "pendingQueue \<Rightarrow> pendingItem \<times> pendingQueue" where
  "pq_Pop old = ((last old)\<lparr>i_index := -1\<rparr>, butlast old)"

text \<open>An item without its bookkeeping, and what the queue is ordered by.\<close>

definition request :: "pendingItem \<Rightarrow> pendingItem" where
  "request item = item\<lparr>i_index := 0\<rparr>"

definition urgency :: "pendingItem \<Rightarrow> time \<times> int" where
  "urgency item = (i_deadline item, - i_priority item)"

lemma request_index [simp]: "request (item\<lparr>i_index := k\<rparr>) = request item"
  by (simp add: request_def)

lemma request_fields [simp]:
  "i_sandboxID (request item) = i_sandboxID item" "i_spec (request item) = i_spec item"
  "i_deadline (request item) = i_deadline item" "i_priority (request item) = i_priority item"
  by (simp_all add: request_def)

lemma urgency_request [simp]: "urgency (request item) = urgency item"
  by (simp add: urgency_def)

lemma nth_pq_Swap:
  "i < length pq \<Longrightarrow> j < length pq \<Longrightarrow> k < length pq \<Longrightarrow>
   pq_Swap pq i j ! k =
     (if k = j then (pq ! i)\<lparr>i_index := int j\<rparr>
      else if k = i then (pq ! j)\<lparr>i_index := int i\<rparr> else pq ! k)"
  by (auto simp: pq_Swap_def Let_def nth_list_update)

lemma length_pq_Swap [simp]: "length (pq_Swap pq i j) = length pq"
  by (simp add: pq_Swap_def Let_def)

lemma map_request_Swap:
  "i < length h \<Longrightarrow> j < length h \<Longrightarrow>
   map request (pq_Swap h i j) = (map request h)[i := request (h ! j), j := request (h ! i)]"
  by (rule nth_equalityI) (auto simp: nth_pq_Swap nth_list_update)

interpretation pending: heap_interface pq_Less pq_Swap pq_Push pq_Pop request urgency
proof unfold_locales
  fix i j and h :: pendingQueue
  show "i < length h \<Longrightarrow> j < length h \<Longrightarrow>
      pq_Less h i j \<longleftrightarrow> urgency (request (h ! i)) < urgency (request (h ! j))"
    by (auto simp: pq_Less_def urgency_def less_prod_def)
next
  fix i j and h :: pendingQueue
  show "i < length h \<Longrightarrow> j < length h \<Longrightarrow>
      map request (pq_Swap h i j) = (map request h)[i := request (h ! j), j := request (h ! i)]"
    by (rule map_request_Swap)
next
  fix h :: pendingQueue and x
  show "map request (pq_Push h x) = map request h @ [request x]"
    by (simp add: pq_Push_def)
next
  fix h h' :: pendingQueue and x
  show "h \<noteq> [] \<Longrightarrow> pq_Pop h = (x, h') \<Longrightarrow>
      map request h' = butlast (map request h) \<and> request x = request (last h)"
    by (auto simp: pq_Pop_def map_butlast)
qed

definition queue_Push :: "pendingQueue \<Rightarrow> pendingItem \<Rightarrow> pendingQueue" where
  "queue_Push = heap_Push pq_Less pq_Swap pq_Push"

definition queue_Pop :: "pendingQueue \<Rightarrow> go_panic + pendingItem \<times> pendingQueue" where
  "queue_Pop = heap_Pop pq_Less pq_Swap pq_Pop"

text \<open>
  The queue's invariant: heap order, and every item knows its position. Its abstract content is
  the bag of requests.
\<close>

definition indexed :: "pendingQueue \<Rightarrow> bool" where
  "indexed pq \<longleftrightarrow> (\<forall>k < length pq. i_index (pq ! k) = int k)"

definition heap_ordered :: "pendingQueue \<Rightarrow> bool" where
  "heap_ordered pq \<longleftrightarrow> heap_from (keys_of urgency request pq) 0 (length pq)"

definition queue_ok :: "pendingQueue \<Rightarrow> bool" where
  "queue_ok pq \<longleftrightarrow> heap_ordered pq \<and> indexed pq"

definition requests :: "pendingQueue \<Rightarrow> pendingItem multiset" where
  "requests pq = mset (map request pq)"

lemma indexed_Swap:
  "indexed h \<Longrightarrow> i < length h \<Longrightarrow> j < length h \<Longrightarrow>
   indexed (pq_Swap h i j) \<and> length (pq_Swap h i j) = length h"
  by (simp add: indexed_def nth_pq_Swap)

lemma indexed_queue_Push: "indexed pq \<Longrightarrow> indexed (queue_Push pq x)"
  unfolding queue_Push_def heap_Push_def Let_def
  by (rule heap_up_preserves [where P = indexed, OF indexed_Swap])
    (auto simp: indexed_def pq_Push_def nth_append)

lemma indexed_queue_Pop:
  assumes ok: "indexed pq" and pop: "queue_Pop pq = Inr (x, pq')"
  shows "indexed pq' \<and> i_index x = -1"
proof -
  let ?s = "pq_Swap pq 0 (length pq - 1)"
  let ?d = "heap_down pq_Less pq_Swap ?s 0 (length pq - 1)"
  have ne: "pq \<noteq> []" and eq: "pq_Pop ?d = (x, pq')"
    using pop by (auto simp: queue_Pop_def heap_Pop_def Let_def split: if_splits)
  have "indexed ?s" using indexed_Swap [OF ok] ne by simp
  then have "indexed ?d"
    using heap_down_preserves [where P = indexed and h = ?s, OF indexed_Swap] by simp
  with eq show ?thesis by (auto simp: pq_Pop_def indexed_def nth_butlast)
qed

lemma queue_ok_Nil [simp]: "queue_ok []"
  by (simp add: queue_ok_def heap_ordered_def indexed_def heap_from_def)

lemma queue_Push_ok: "queue_ok pq \<Longrightarrow> queue_ok (queue_Push pq x)"
  using pending.pq.push_invar [of pq x] indexed_queue_Push [of pq x]
  by (simp add: queue_ok_def heap_ordered_def queue_Push_def)

lemma queue_Push_requests:
  "queue_ok pq \<Longrightarrow> requests (queue_Push pq x) = add_mset (request x) (requests pq)"
  using pending.pq.push_bag [of pq x]
  by (simp add: queue_ok_def heap_ordered_def queue_Push_def requests_def)

lemma queue_Pop_ok:
  assumes "queue_ok pq" and "queue_Pop pq = Inr (x, pq')"
  shows "queue_ok pq'" and "requests pq = add_mset (request x) (requests pq')"
    and "y \<in># requests pq \<Longrightarrow> urgency x \<le> urgency y" and "i_index x = -1"
proof -
  show "queue_ok pq'" "requests pq = add_mset (request x) (requests pq')" "i_index x = -1"
    using assms pending.pq.pop_invar [of pq x pq'] pending.pq.pop_bag [of pq x pq']
      indexed_queue_Pop [of pq x pq']
    by (simp_all add: queue_ok_def heap_ordered_def queue_Pop_def requests_def)
  show "urgency x \<le> urgency y" if "y \<in># requests pq"
    using assms that pending.pq.pop_least [of pq x pq' y]
    by (simp add: queue_ok_def heap_ordered_def queue_Pop_def requests_def)
qed

lemma requests_Nil [simp]: "requests [] = {#}"
  by (simp add: requests_def)

lemma queue_Pop_total: "queue_Pop pq = Inl p \<longleftrightarrow> pq = [] \<and> p = IndexOutOfRange"
  by (auto simp: queue_Pop_def heap_Pop_def Let_def)

section \<open>Facts about the score\<close>

text \<open>The two factors of the score, named for the proofs.\<close>

definition cpu_fit :: "f64 \<Rightarrow> f64" where
  "cpu_fit c =
     (let fit = f_sub (Fin 1) (f_div_const c 100) in if f_less fit (Fin 0) then Fin 0 else fit)"

definition weigh :: "f64 \<Rightarrow> f64 \<Rightarrow> f64" where
  "weigh fit warm =
     f_add (f_add (f_mul (f64_of (4 / 10)) fit) (f_mul (f64_of (35 / 100)) warm)) (Fin (1 / 4))"

lemma weigh_eq:
  "weigh fit warm =
     f_add (f_add (f_mul (Fin (3602879701896397 / 9007199254740992)) fit)
        (f_mul (Fin (3152519739159347 / 9007199254740992)) warm)) (Fin (1 / 4))"
  by (simp only: weigh_def f64_of_4_10 f64_of_35_100)

lemma scoreHost_healthy:
  "h_Healthy h \<Longrightarrow>
   scoreHost h = weigh (cpu_fit (h_CPUUsagePct h)) (if h_IdlePool h > 0 then Fin 1 else Fin 0)"
  by (simp add: scoreHost_def weigh_def cpu_fit_def Let_def)

lemma scoreHost_unhealthy [simp]: "\<not> h_Healthy h \<Longrightarrow> scoreHost h = Fin (- 1)"
  by (simp add: scoreHost_def)

lemma cpu_fit_nonneg: "c \<noteq> NaN \<Longrightarrow> f_le (Fin 0) (cpu_fit c)"
proof -
  assume c: "c \<noteq> NaN"
  let ?fit = "f_sub (Fin 1) (f_div_const c 100)"
  have "f_le ?fit ?fit" using c by (intro f_sub_antimono f_div_mono) simp_all
  then have "?fit \<noteq> NaN" by auto
  then show ?thesis using not_f_less [of ?fit "Fin 0"] by (auto simp: cpu_fit_def Let_def)
qed

lemma cpu_fit_NaN [simp]: "cpu_fit NaN = NaN"
  by (simp add: cpu_fit_def Let_def f_sub_def inf_times_def)

lemma cpu_fit_antimono: "f_le c d \<Longrightarrow> f_le (cpu_fit d) (cpu_fit c)"
proof -
  assume le: "f_le c d"
  have fit: "f_le (f_sub (Fin 1) (f_div_const d 100)) (f_sub (Fin 1) (f_div_const c 100))"
    using le by (intro f_sub_antimono f_div_mono) simp_all
  have "c \<noteq> NaN" using le by auto
  from cpu_fit_nonneg [OF this] fit show ?thesis
    by (auto simp: cpu_fit_def Let_def dest: f_le_less_trans)
qed

lemma cpu_fit_le_1: "f_le (Fin 0) c \<Longrightarrow> f_le (cpu_fit c) (Fin 1)"
  using cpu_fit_antimono [of "Fin 0" c]
  by (simp add: cpu_fit_def [of "Fin 0"] Let_def f_sub_def)

lemma weigh_mono:
  assumes "f_le fit fit'" and "0 \<le> x" "x \<le> y" and "f_le (Fin 0) fit"
  shows "f_le (weigh fit (Fin x)) (weigh fit' (Fin y))"
proof -
  let ?a = "\<lambda>f. f_mul (f64_of (4 / 10)) f" and ?b = "\<lambda>z. f_mul (f64_of (35 / 100)) (Fin z)"
  have a: "f_le (?a fit) (?a fit')"
    unfolding f64_of_4_10 using assms by (intro f_mul_mono) simp_all
  have b: "f_le (?b x) (?b y)"
    unfolding f64_of_35_100 using assms by (intro f_mul_mono) simp_all
  have a0: "f_le (Fin 0) (?a fit)"
    unfolding f64_of_4_10 using f_mul_mono [OF assms(4), of "3602879701896397 / 9007199254740992"]
    by simp
  have b0: "f_le (Fin 0) (?b x)"
    unfolding f64_of_35_100
    using f_mul_mono [of "Fin 0" "Fin x" "3152519739159347 / 9007199254740992"] assms by simp
  have "f_le (f_add (?a fit) (?b x)) (f_add (?a fit') (?b y))"
    using a b a0 b0
    by (cases "?a fit"; cases "?a fit'"; cases "?b x"; cases "?b y") (auto intro!: f64_of_mono)
  then show ?thesis unfolding weigh_def by (rule f_add_mono_left)
qed

lemma f64_of_quarter: "f64_of (1 / 4) = Fin (1 / 4)"
  using round64_exact [of "-2" "2 ^ 52"]
  by (intro f64_of_eqI) (simp_all add: power_int_def power_divide)

lemma weigh_least: "weigh (Fin 0) (Fin 0) = Fin (1 / 4)"
  by (simp add: weigh_eq f64_of_quarter)

lemma weigh_greatest: "weigh (Fin 1) (Fin 1) = Fin 1"
proof -
  have "f64_of (3602879701896397 / 9007199254740992) = Fin (3602879701896397 / 9007199254740992)"
    using round64_exact [of "-2" 7205759403792794]
    by (intro f64_of_eqI) (simp_all add: power_int_def power_divide)
  moreover have
    "f64_of (3152519739159347 / 9007199254740992) = Fin (3152519739159347 / 9007199254740992)"
    using round64_exact [of "-2" 6305039478318694]
    by (intro f64_of_eqI) (simp_all add: power_int_def power_divide)
  moreover have "f64_of (6755399441055744 / 9007199254740992) = Fin (3 / 4)"
    using round64_exact [of "-1" "3 * 2 ^ 51"]
    by (intro f64_of_eqI) (simp_all add: power_int_def power_divide)
  ultimately show ?thesis by (simp add: weigh_eq)
qed

lemma scoreHost_ge: "h_Healthy h \<Longrightarrow> h_CPUUsagePct h \<noteq> NaN \<Longrightarrow> f_le (Fin (1 / 4)) (scoreHost h)"
  using weigh_mono [of "Fin 0" "cpu_fit (h_CPUUsagePct h)" 0 0]
    weigh_mono [of "Fin 0" "cpu_fit (h_CPUUsagePct h)" 0 1] cpu_fit_nonneg [of "h_CPUUsagePct h"]
  by (simp add: scoreHost_healthy weigh_least)

lemma scoreHost_NaN [simp]: "scoreHost h = NaN \<longleftrightarrow> h_Healthy h \<and> h_CPUUsagePct h = NaN"
proof (cases "h_Healthy h")
  case True
  show ?thesis
  proof (cases "h_CPUUsagePct h = NaN")
    case True
    with \<open>h_Healthy h\<close> show ?thesis by (simp add: scoreHost_healthy weigh_eq)
  next
    case False
    with scoreHost_ge [OF True] show ?thesis by auto
  qed
qed simp

section \<open>The scheduler\<close>

text \<open>
  The wake-up channel has a buffer of 100 signals; its state is the number buffered. A signal
  carries no data and a full buffer drops it.
\<close>

record Scheduler =
  s_hosts :: "string \<rightharpoonup> HostInfo"
  s_queue :: pendingQueue
  s_placeCh :: nat

definition NewScheduler :: Scheduler where
  "NewScheduler =
     \<lparr>s_hosts = Map.empty, s_queue = heap_Init pq_Less pq_Swap [], s_placeCh = 0\<rparr>"

definition RegisterHost :: "time \<Rightarrow> HostInfo \<Rightarrow> Scheduler \<Rightarrow> Scheduler" where
  "RegisterHost now h s =
     s\<lparr>s_hosts := (s_hosts s)(h_ID h \<mapsto> h\<lparr>h_LastSeen := now, h_Healthy := True\<rparr>)\<rparr>"

definition UpdateHostHealth :: "string \<Rightarrow> bool \<Rightarrow> Scheduler \<Rightarrow> Scheduler" where
  "UpdateHostHealth hostID healthy s =
     (case s_hosts s hostID of
        Some h \<Rightarrow> s\<lparr>s_hosts := (s_hosts s)(hostID \<mapsto> h\<lparr>h_Healthy := healthy\<rparr>)\<rparr>
      | None \<Rightarrow> s)"

definition new_item :: "time \<Rightarrow> string \<Rightarrow> SandboxSpec \<Rightarrow> u32 \<Rightarrow> pendingItem" where
  "new_item now sandboxID sp timeoutMs =
     \<lparr>i_sandboxID = sandboxID, i_spec = sp, i_deadline = time_add now (duration_ms timeoutMs),
      i_priority = 1, i_index = 0\<rparr>"

definition Enqueue :: "time \<Rightarrow> string \<Rightarrow> SandboxSpec \<Rightarrow> u32 \<Rightarrow> Scheduler \<Rightarrow> Scheduler" where
  "Enqueue now sandboxID sp timeoutMs s =
     s\<lparr>s_queue := queue_Push (s_queue s) (new_item now sandboxID sp timeoutMs),
       s_placeCh := min 100 (s_placeCh s + 1)\<rparr>"

text \<open>The loop of \<^verbatim>\<open>bestHost\<close> over the keys of the host map, with the best host and score so far.\<close>

fun best_loop ::
  "(string \<rightharpoonup> HostInfo) \<Rightarrow> string list \<Rightarrow> HostInfo option \<Rightarrow> f64 \<Rightarrow> HostInfo option" where
  "best_loop hosts [] best bestScore = best"
| "best_loop hosts (k # ks) best bestScore =
     (case hosts k of
        None \<Rightarrow> best_loop hosts ks best bestScore
      | Some h \<Rightarrow>
          let sc = scoreHost h
          in if f_less bestScore sc then best_loop hosts ks (Some h) sc
             else best_loop hosts ks best bestScore)"

definition bestHost :: "string list \<Rightarrow> Scheduler \<Rightarrow> string + HostInfo" where
  "bestHost ord s =
     (case best_loop (s_hosts s) ord None (Fin (- 2)) of
        None \<Rightarrow> Inl ''scheduler: no healthy hosts available''
      | Some h \<Rightarrow> Inr h)"

text \<open>
  \<^verbatim>\<open>dispatchPending\<close> takes the next request under the queue's lock and then decides on it. The
  result is the placement it starts in a goroutine, if any. \<open>now\<close> is the reading the deadline is
  compared with, \<open>nowH\<close> and \<open>nowT\<close> are those of the two store operations, \<open>ord\<close> is the order in
  which the host map is visited.
\<close>

definition take_next :: "Scheduler \<Rightarrow> go_panic + pendingItem option \<times> Scheduler" where
  "take_next s =
     (if length (s_queue s) = 0 then Inr (None, s)
      else case queue_Pop (s_queue s) of
             Inl p \<Rightarrow> Inl p
           | Inr (item, q) \<Rightarrow> Inr (Some item, s\<lparr>s_queue := q\<rparr>))"

definition dispatch_item ::
  "time \<Rightarrow> time \<Rightarrow> time \<Rightarrow> string list \<Rightarrow> pendingItem \<Rightarrow> Scheduler \<Rightarrow> Store \<Rightarrow>
   (pendingItem \<times> HostInfo) option \<times> Scheduler \<times> Store" where
  "dispatch_item now nowH nowT ord item s st =
     (if now > i_deadline item
      then (None, s,
            snd (store_Transition nowT (i_sandboxID item) StateQueued StateFailed
                   ''deadline exceeded'' st))
      else case bestHost ord s of
             Inl _ \<Rightarrow> (None, s\<lparr>s_queue := queue_Push (s_queue s) item\<rparr>, st)
           | Inr host \<Rightarrow>
               let st1 = snd (store_SetHostID nowH (i_sandboxID item) (h_ID host) st)
               in case store_Transition nowT (i_sandboxID item) StateQueued StateProvisioning '''' st1 of
                    (Inl _, st2) \<Rightarrow> (None, s, st2)
                  | (Inr _, st2) \<Rightarrow> (Some (item, host), s, st2))"

definition dispatchPending ::
  "time \<Rightarrow> time \<Rightarrow> time \<Rightarrow> string list \<Rightarrow> Scheduler \<Rightarrow> Store \<Rightarrow>
   go_panic + (pendingItem \<times> HostInfo) option \<times> Scheduler \<times> Store" where
  "dispatchPending now nowH nowT ord s st =
     (case take_next s of
        Inl p \<Rightarrow> Inl p
      | Inr (None, s') \<Rightarrow> Inr (None, s', st)
      | Inr (Some item, s') \<Rightarrow> Inr (dispatch_item now nowH nowT ord item s' st))"

text \<open>
  \<^verbatim>\<open>RunDispatchLoop\<close> waits for a signal of the channel, a tick of 50 ms or the end of its context,
  and dispatches one request per wake-up. A run is the list of wake-ups, each with the clock
  readings and the iteration order of the host map it meets; the placements started are collected.
\<close>

datatype wake = Signal | Tick | CtxDone

record round =
  w_wake :: wake
  w_now :: time
  w_nowH :: time
  w_nowT :: time
  w_ord :: "string list"

fun RunDispatchLoop ::
  "round list \<Rightarrow> (pendingItem \<times> HostInfo) list \<Rightarrow> Scheduler \<Rightarrow> Store \<Rightarrow>
   go_panic + (pendingItem \<times> HostInfo) list \<times> Scheduler \<times> Store" where
  "RunDispatchLoop [] started s st = Inr (started, s, st)"
| "RunDispatchLoop (r # rs) started s st =
     (if w_wake r = CtxDone then Inr (started, s, st)
      else
        let s1 = (if w_wake r = Signal then s\<lparr>s_placeCh := s_placeCh s - 1\<rparr> else s)
        in case dispatchPending (w_now r) (w_nowH r) (w_nowT r) (w_ord r) s1 st of
             Inl p \<Rightarrow> Inl p
           | Inr (p, s2, st2) \<Rightarrow>
               RunDispatchLoop rs (started @ (case p of None \<Rightarrow> [] | Some q \<Rightarrow> [q])) s2 st2)"

text \<open>
  The body of the goroutine: the placer provisions the sandbox (and may write the store), then
  the outcome is recorded.
\<close>

type_synonym 'w placer =
  "string \<Rightarrow> HostInfo \<Rightarrow> SandboxSpec \<Rightarrow> Store \<Rightarrow> 'w \<Rightarrow> (string + u32) \<times> Store \<times> 'w"

definition place_goroutine ::
  "'w placer \<Rightarrow> time \<Rightarrow> pendingItem \<Rightarrow> HostInfo \<Rightarrow> Store \<Rightarrow> 'w \<Rightarrow> Store \<times> 'w" where
  "place_goroutine placer now item host st w =
     (case placer (i_sandboxID item) host (i_spec item) st w of
        (Inl err, st1, w1) \<Rightarrow>
          (snd (store_Transition now (i_sandboxID item) StateProvisioning StateFailed err st1), w1)
      | (Inr _, st1, w1) \<Rightarrow>
          (snd (store_Transition now (i_sandboxID item) StateProvisioning StateRunning '''' st1), w1))"

section \<open>Facts about the choice of a host\<close>

lemma best_loop_from:
  "best_loop hosts ks best bs = Some h \<Longrightarrow>
   best = Some h \<or> (\<exists>k \<in> set ks. hosts k = Some h \<and> scoreHost h \<noteq> NaN)"
proof (induction ks arbitrary: best bs)
  case (Cons k ks)
  show ?case
  proof (cases "\<exists>g. hosts k = Some g \<and> f_less bs (scoreHost g)")
    case True
    then obtain g where g: "hosts k = Some g" "f_less bs (scoreHost g)" by blast
    with Cons.prems have "best_loop hosts ks (Some g) (scoreHost g) = Some h" by (simp add: Let_def)
    from Cons.IH [OF this] g f_less_not_NaN [OF g(2)] show ?thesis
      by (auto simp del: scoreHost_NaN)
  next
    case False
    with Cons.prems have "best_loop hosts ks best bs = Some h"
      by (cases "hosts k") (auto simp: Let_def)
    from Cons.IH [OF this] show ?thesis by (auto simp del: scoreHost_NaN)
  qed
qed simp

lemma best_loop_ge:
  "best_loop hosts ks best bs = Some h \<Longrightarrow> bs \<noteq> NaN \<Longrightarrow> (\<And>g. best = Some g \<Longrightarrow> scoreHost g = bs) \<Longrightarrow>
   f_le bs (scoreHost h)"
proof (induction hosts ks best bs rule: best_loop.induct)
  case (2 hosts k ks best bs)
  show ?case
  proof (cases "\<exists>g. hosts k = Some g \<and> f_less bs (scoreHost g)")
    case True
    then obtain g where g: "hosts k = Some g" "f_less bs (scoreHost g)" by blast
    then have "scoreHost g \<noteq> NaN" by (metis f_less_NaN(2))
    with g 2 have "f_le (scoreHost g) (scoreHost h)" by (simp add: Let_def)
    with g(2) show ?thesis by (blast intro: f_le_trans f_less_imp_le)
  next
    case False
    with 2 show ?thesis by (cases "hosts k") (auto simp: Let_def)
  qed
qed auto

lemma best_loop_max:
  "best_loop hosts ks best bs = Some h \<Longrightarrow> bs \<noteq> NaN \<Longrightarrow> (\<And>g. best = Some g \<Longrightarrow> scoreHost g = bs) \<Longrightarrow>
   k \<in> set ks \<Longrightarrow> hosts k = Some g \<Longrightarrow> scoreHost g \<noteq> NaN \<Longrightarrow> f_le (scoreHost g) (scoreHost h)"
proof (induction ks arbitrary: best bs)
  case (Cons k' ks)
  show ?case
  proof (cases "\<exists>g'. hosts k' = Some g' \<and> f_less bs (scoreHost g')")
    case True
    then obtain g' where g': "hosts k' = Some g'" "f_less bs (scoreHost g')" by blast
    then have nan: "scoreHost g' \<noteq> NaN" using f_less_not_NaN by blast
    have rest: "best_loop hosts ks (Some g') (scoreHost g') = Some h"
      using g' Cons.prems(1) by (simp add: Let_def)
    show ?thesis
    proof (cases "k \<in> set ks")
      case True
      from Cons.IH [OF rest nan _ True Cons.prems(5,6)] show ?thesis by simp
    next
      case False
      with Cons.prems(4,5) g'(1) have "g = g'" by simp
      with best_loop_ge [OF rest nan] show ?thesis by simp
    qed
  next
    case False
    then have rest: "best_loop hosts ks best bs = Some h"
      using Cons.prems(1) by (cases "hosts k'") (auto simp: Let_def)
    show ?thesis
    proof (cases "k \<in> set ks")
      case True
      from Cons.IH [OF rest Cons.prems(2,3) True Cons.prems(5,6)] show ?thesis .
    next
      case k: False
      with Cons.prems(4,5) have "hosts k' = Some g" by simp
      with False have "f_le (scoreHost g) bs"
        using not_f_less [OF Cons.prems(2,6)] by blast
      then show ?thesis using best_loop_ge [OF rest Cons.prems(2,3)] by (rule f_le_trans)
    qed
  qed
qed simp

lemma best_loop_none:
  "best_loop hosts ks best bs = None \<longleftrightarrow>
   best = None \<and> (\<forall>k \<in> set ks. \<forall>g. hosts k = Some g \<longrightarrow> \<not> f_less bs (scoreHost g))"
  by (induction hosts ks best bs rule: best_loop.induct)
    (auto simp: Let_def split: option.splits)

lemma bestHost_chosen:
  assumes "range_order (s_hosts s) ord" and "bestHost ord s = Inr h"
  shows "h \<in> ran (s_hosts s)" and "scoreHost h \<noteq> NaN"
    and "g \<in> ran (s_hosts s) \<Longrightarrow> scoreHost g \<noteq> NaN \<Longrightarrow> f_le (scoreHost g) (scoreHost h)"
proof -
  have r: "best_loop (s_hosts s) ord None (Fin (- 2)) = Some h"
    using assms(2) by (auto simp: bestHost_def split: option.splits)
  show "h \<in> ran (s_hosts s)" "scoreHost h \<noteq> NaN"
    using best_loop_from [OF r] by (auto simp: ran_def simp del: scoreHost_NaN)
  show "f_le (scoreHost g) (scoreHost h)" if g: "g \<in> ran (s_hosts s)" "scoreHost g \<noteq> NaN"
  proof -
    obtain k where "s_hosts s k = Some g" using g by (auto simp: ran_def)
    moreover from this have "k \<in> set ord" using assms(1) by (auto simp: range_order_def)
    ultimately show ?thesis using best_loop_max [OF r] g(2) by simp
  qed
qed

lemma scoreHost_gt_start: "scoreHost h \<noteq> NaN \<Longrightarrow> f_less (Fin (- 2)) (scoreHost h)"
proof (cases "h_Healthy h")
  case True
  moreover assume "scoreHost h \<noteq> NaN"
  ultimately have "f_le (Fin (1 / 4)) (scoreHost h)" by (intro scoreHost_ge) auto
  moreover have "f_less (Fin (- 2)) (Fin (1 / 4))" by simp
  ultimately show ?thesis by (blast intro: f_less_le_trans)
qed simp

lemma bestHost_none:
  assumes "range_order (s_hosts s) ord"
  shows "bestHost ord s = Inl e \<longleftrightarrow>
    (\<forall>h \<in> ran (s_hosts s). scoreHost h = NaN) \<and> e = ''scheduler: no healthy hosts available''"
proof -
  have "best_loop (s_hosts s) ord None (Fin (- 2)) = None \<longleftrightarrow>
      (\<forall>h \<in> ran (s_hosts s). \<not> f_less (Fin (- 2)) (scoreHost h))"
    using assms by (auto simp: best_loop_none range_order_def ran_def)
  moreover have "\<not> f_less (Fin (- 2)) (scoreHost h) \<longleftrightarrow> scoreHost h = NaN" for h
    using scoreHost_gt_start [of h] f_less_NaN(2) by metis
  ultimately show ?thesis by (auto simp: bestHost_def split: option.splits)
qed

section \<open>Facts about dispatching\<close>

lemma take_next_cases:
  assumes "queue_ok (s_queue s)"
  obtains (idle) "s_queue s = []" "take_next s = Inr (None, s)"
  | (request) item q where "s_queue s \<noteq> []" "queue_Pop (s_queue s) = Inr (item, q)"
      "take_next s = Inr (Some item, s\<lparr>s_queue := q\<rparr>)" "queue_ok q"
      "requests (s_queue s) = add_mset (request item) (requests q)"
      "\<And>y. y \<in># requests (s_queue s) \<Longrightarrow> urgency item \<le> urgency y" "i_index item = -1"
proof (cases "s_queue s = []")
  case True
  then show ?thesis by (intro idle) (simp_all add: take_next_def)
next
  case False
  then obtain item q where pop: "queue_Pop (s_queue s) = Inr (item, q)"
    by (cases "queue_Pop (s_queue s)") (auto simp: queue_Pop_total)
  with False queue_Pop_ok [OF assms pop] show ?thesis
    by (intro request [OF False pop]) (simp_all add: take_next_def)
qed

text \<open>The schedulers the program reaches.\<close>

inductive sched_reachable :: "Scheduler \<Rightarrow> bool" where
  sched_new: "sched_reachable NewScheduler"
| sched_register: "sched_reachable s \<Longrightarrow> sched_reachable (RegisterHost now h s)"
| sched_health: "sched_reachable s \<Longrightarrow> sched_reachable (UpdateHostHealth hid b s)"
| sched_enqueue: "sched_reachable s \<Longrightarrow> sched_reachable (Enqueue now i sp tmo s)"
| sched_dispatch: "sched_reachable s \<Longrightarrow>
    dispatchPending now nowH nowT ord s st = Inr (started, s', st') \<Longrightarrow> sched_reachable s'"
| sched_heartbeat: "sched_reachable s \<Longrightarrow> s_hosts s hid = Some h \<Longrightarrow> h_ID h' = h_ID h \<Longrightarrow>
    sched_reachable (s\<lparr>s_hosts := (s_hosts s)(hid \<mapsto> h')\<rparr>)"

lemma RegisterHost_queue [simp]: "s_queue (RegisterHost now h s) = s_queue s"
  by (simp add: RegisterHost_def)

lemma UpdateHostHealth_queue [simp]: "s_queue (UpdateHostHealth hid b s) = s_queue s"
  by (simp add: UpdateHostHealth_def split: option.splits)

lemma Enqueue_queue [simp]:
  "s_queue (Enqueue now i sp tmo s) = queue_Push (s_queue s) (new_item now i sp tmo)"
  "s_hosts (Enqueue now i sp tmo s) = s_hosts s"
  by (simp_all add: Enqueue_def)

lemma NewScheduler_queue [simp]: "s_queue NewScheduler = []" "s_hosts NewScheduler = Map.empty"
  by (simp_all add: NewScheduler_def heap_Init_def)

text \<open>
  What becomes of the request taken: failed as expired, back in the queue when there is no host,
  started on the best host, or dropped because its record is not queued any more.
\<close>

lemma dispatch_item_cases:
  obtains (expired) "now > i_deadline item" "dispatch_item now nowH nowT ord item s st =
      (None, s, snd (store_Transition nowT (i_sandboxID item) StateQueued StateFailed
                       ''deadline exceeded'' st))"
  | (no_host) e where "now \<le> i_deadline item" "bestHost ord s = Inl e"
      "dispatch_item now nowH nowT ord item s st =
         (None, s\<lparr>s_queue := queue_Push (s_queue s) item\<rparr>, st)"
  | (started) host r where "now \<le> i_deadline item" "bestHost ord s = Inr host"
      "st (i_sandboxID item) = Some r" "r_State r = StateQueued"
      "dispatch_item now nowH nowT ord item s st =
         (Some (item, host), s, st(i_sandboxID item \<mapsto>
            moved nowT StateProvisioning '''' (r\<lparr>r_HostID := h_ID host, r_UpdatedAt := nowH\<rparr>)))"
  | (dropped) host where "now \<le> i_deadline item" "bestHost ord s = Inr host"
      "\<And>r. st (i_sandboxID item) = Some r \<Longrightarrow> r_State r \<noteq> StateQueued"
      "dispatch_item now nowH nowT ord item s st =
         (None, s, snd (store_SetHostID nowH (i_sandboxID item) (h_ID host) st))"
proof (cases "now > i_deadline item")
  case True
  then show ?thesis by (intro expired) (simp_all add: dispatch_item_def)
next
  case False
  then have now: "now \<le> i_deadline item" by simp
  show ?thesis
  proof (cases "bestHost ord s")
    case (Inl e)
    with False show ?thesis by (intro no_host [OF now]) (simp_all add: dispatch_item_def)
  next
    case (Inr host)
    show ?thesis
    proof (cases "\<exists>r. st (i_sandboxID item) = Some r \<and> r_State r = StateQueued")
      case True
      then obtain r where r: "st (i_sandboxID item) = Some r" "r_State r = StateQueued" by blast
      with False Inr show ?thesis
        by (intro started [OF now Inr r])
          (simp add: dispatch_item_def Let_def store_SetHostID_def store_Transition_cases
            queued_provisioning)
    next
      case nq: False
      with False Inr show ?thesis
        by (intro dropped [OF now Inr])
          (auto simp: dispatch_item_def Let_def store_SetHostID_def store_Transition_cases
            split: option.splits)
    qed
  qed
qed

lemma dispatch_item_queue_ok:
  "queue_ok (s_queue s) \<Longrightarrow> dispatch_item now nowH nowT ord item s st = (p, s', st') \<Longrightarrow>
   queue_ok (s_queue s')"
  by (cases rule: dispatch_item_cases [where now = now and nowH = nowH and nowT = nowT and ord = ord
        and item = item and s = s and st = st])
    (auto simp: queue_Push_ok)

lemma dispatchPending_cases:
  assumes "queue_ok (s_queue s)"
  obtains (idle) "s_queue s = []" "dispatchPending now nowH nowT ord s st = Inr (None, s, st)"
  | (item) item q where "queue_Pop (s_queue s) = Inr (item, q)" "queue_ok q"
      "requests (s_queue s) = add_mset (request item) (requests q)"
      "\<And>y. y \<in># requests (s_queue s) \<Longrightarrow> urgency item \<le> urgency y"
      "dispatchPending now nowH nowT ord s st =
         Inr (dispatch_item now nowH nowT ord item (s\<lparr>s_queue := q\<rparr>) st)"
  using assms by (cases rule: take_next_cases) (auto simp: dispatchPending_def)

lemma dispatchPending_total:
  assumes "queue_ok (s_queue s)"
  shows "\<exists>r. dispatchPending now nowH nowT ord s st = Inr r"
  using assms
  by (cases rule: dispatchPending_cases [where now = now and nowH = nowH and nowT = nowT
        and ord = ord and st = st]) blast+

lemma sched_reachable_queue_ok: "sched_reachable s \<Longrightarrow> queue_ok (s_queue s)"
proof (induction rule: sched_reachable.induct)
  case (sched_dispatch s now nowH nowT ord st started s' st')
  from sched_dispatch.IH show ?case
  proof (cases rule: dispatchPending_cases [where now = now and nowH = nowH and nowT = nowT
        and ord = ord and st = st])
    case idle
    with sched_dispatch show ?thesis by simp
  next
    case (item x q)
    with sched_dispatch.hyps
    have "dispatch_item now nowH nowT ord x (s\<lparr>s_queue := q\<rparr>) st = (started, s', st')" by simp
    from dispatch_item_queue_ok [OF _ this] item(2) show ?thesis by simp
  qed
qed (simp_all add: queue_Push_ok)

lemma dispatch_started:
  assumes "queue_ok (s_queue s)"
    and "dispatchPending now nowH nowT ord s st = Inr (Some (item, host), s', st')"
  shows "requests (s_queue s) = add_mset (request item) (requests (s_queue s'))"
    and "s_hosts s' = s_hosts s" and "now \<le> i_deadline item" and "bestHost ord s = Inr host"
    and "\<exists>r. st (i_sandboxID item) = Some r \<and> r_State r = StateQueued \<and>
           st' = st(i_sandboxID item \<mapsto>
             moved nowT StateProvisioning '''' (r\<lparr>r_HostID := h_ID host, r_UpdatedAt := nowH\<rparr>))"
    and "y \<in># requests (s_queue s) \<Longrightarrow> urgency item \<le> urgency y"
proof -
  from assms(1) obtain q
    where q: "queue_Pop (s_queue s) = Inr (item, q)"
      "requests (s_queue s) = add_mset (request item) (requests q)"
      "\<And>y. y \<in># requests (s_queue s) \<Longrightarrow> urgency item \<le> urgency y"
      and d: "dispatch_item now nowH nowT ord item (s\<lparr>s_queue := q\<rparr>) st = (Some (item, host), s', st')"
  proof (cases rule: dispatchPending_cases [where now = now and nowH = nowH and nowT = nowT
        and ord = ord and st = st])
    case idle
    with assms(2) show ?thesis by simp
  next
    case (item x q)
    with assms(2) have d: "dispatch_item now nowH nowT ord x (s\<lparr>s_queue := q\<rparr>) st =
        (Some (item, host), s', st')" by simp
    have "x = item"
      by (cases rule: dispatch_item_cases [where now = now and nowH = nowH and nowT = nowT
            and ord = ord and item = x and s = "s\<lparr>s_queue := q\<rparr>" and st = st])
        (use d in simp_all)
    with item d that show ?thesis by blast
  qed
  from d have "s' = s\<lparr>s_queue := q\<rparr> \<and> now \<le> i_deadline item \<and> bestHost ord s = Inr host \<and>
      (\<exists>r. st (i_sandboxID item) = Some r \<and> r_State r = StateQueued \<and>
           st' = st(i_sandboxID item \<mapsto>
             moved nowT StateProvisioning '''' (r\<lparr>r_HostID := h_ID host, r_UpdatedAt := nowH\<rparr>)))"
    by (cases rule: dispatch_item_cases [where now = now and nowH = nowH and nowT = nowT
          and ord = ord and item = item and s = "s\<lparr>s_queue := q\<rparr>" and st = st])
      (auto simp: bestHost_def)
  with q show "requests (s_queue s) = add_mset (request item) (requests (s_queue s'))"
    "s_hosts s' = s_hosts s" "now \<le> i_deadline item" "bestHost ord s = Inr host"
    "\<exists>r. st (i_sandboxID item) = Some r \<and> r_State r = StateQueued \<and>
           st' = st(i_sandboxID item \<mapsto>
             moved nowT StateProvisioning '''' (r\<lparr>r_HostID := h_ID host, r_UpdatedAt := nowH\<rparr>))"
    "y \<in># requests (s_queue s) \<Longrightarrow> urgency item \<le> urgency y"
    by auto
qed

lemma dispatch_not_started:
  assumes "queue_ok (s_queue s)"
    and "dispatchPending now nowH nowT ord s st = Inr (None, s', st')"
  obtains (idle) "s_queue s = []" "s' = s" "st' = st"
  | (expired) item where "requests (s_queue s) = add_mset (request item) (requests (s_queue s'))"
      "now > i_deadline item"
      "st' = snd (store_Transition nowT (i_sandboxID item) StateQueued StateFailed
                    ''deadline exceeded'' st)"
  | (no_host) "\<not> is_ok (bestHost ord s)" "requests (s_queue s') = requests (s_queue s)" "st' = st"
  | (dropped) item and host :: HostInfo where
      "requests (s_queue s) = add_mset (request item) (requests (s_queue s'))"
      "\<And>r. st (i_sandboxID item) = Some r \<Longrightarrow> r_State r \<noteq> StateQueued"
      "st' = snd (store_SetHostID nowH (i_sandboxID item) (h_ID host) st)"
  using assms(1)
proof (cases rule: dispatchPending_cases [where now = now and nowH = nowH and nowT = nowT
      and ord = ord and st = st])
  case 1: idle
  with assms(2) show ?thesis by (intro idle) simp_all
next
  case (item x q)
  then have d: "dispatch_item now nowH nowT ord x (s\<lparr>s_queue := q\<rparr>) st = (None, s', st')"
    using assms(2) by simp
  show ?thesis
  proof (cases rule: dispatch_item_cases [where now = now and nowH = nowH and nowT = nowT
        and ord = ord and item = x and s = "s\<lparr>s_queue := q\<rparr>" and st = st])
    case 1: expired
    with d item show ?thesis by (intro expired [of x]) auto
  next
    case (no_host e)
    with d item queue_Push_requests [OF item(2), of x] show ?thesis
      by (intro that(3)) (auto simp: bestHost_def)
  next
    case (started host r)
    with d show ?thesis by simp
  next
    case (dropped host)
    with d item show ?thesis by (intro that(4) [of x host]) auto
  qed
qed

lemma dispatch_decides:
  assumes "queue_ok (s_queue s)" and "is_ok (bestHost ord s)"
    and "dispatchPending now nowH nowT ord s st = Inr (p, s', st')"
  shows "size (requests (s_queue s')) = size (requests (s_queue s)) - 1" and "s_hosts s' = s_hosts s"
proof -
  have "size (requests (s_queue s')) = size (requests (s_queue s)) - 1 \<and> s_hosts s' = s_hosts s"
  proof (cases rule: dispatchPending_cases [where now = now and nowH = nowH and nowT = nowT
        and ord = ord and st = st, OF assms(1)])
    case 1
    with assms(3) show ?thesis by simp
  next
    case (2 item q)
    then have d: "dispatch_item now nowH nowT ord item (s\<lparr>s_queue := q\<rparr>) st = (p, s', st')"
      using assms(3) by simp
    have "s' = s\<lparr>s_queue := q\<rparr>"
      by (cases rule: dispatch_item_cases [where now = now and nowH = nowH and nowT = nowT
            and ord = ord and item = item and s = "s\<lparr>s_queue := q\<rparr>" and st = st])
        (use d assms(2) in \<open>auto simp: bestHost_def\<close>)
    with 2 show ?thesis by simp
  qed
  then show "size (requests (s_queue s')) = size (requests (s_queue s)) - 1"
    "s_hosts s' = s_hosts s" by simp_all
qed

lemma loop_decides:
  "queue_ok (s_queue s) \<Longrightarrow>
   \<forall>r \<in> set rs. w_wake r \<noteq> CtxDone \<and> range_order (s_hosts s) (w_ord r) \<Longrightarrow>
   h \<in> ran (s_hosts s) \<Longrightarrow> scoreHost h \<noteq> NaN \<Longrightarrow>
   \<exists>started' s' st'. RunDispatchLoop rs started s st = Inr (started', s', st') \<and>
     size (requests (s_queue s')) = size (requests (s_queue s)) - length rs"
proof (induction rs arbitrary: started s st)
  case (Cons r rs)
  let ?s1 = "if w_wake r = Signal then s\<lparr>s_placeCh := s_placeCh s - 1\<rparr> else s"
  have s1: "s_queue ?s1 = s_queue s" "s_hosts ?s1 = s_hosts s" by simp_all
  have best: "is_ok (bestHost (w_ord r) ?s1)"
    using bestHost_none [of ?s1 "w_ord r"] Cons.prems s1
    by (cases "bestHost (w_ord r) ?s1") (auto simp del: scoreHost_NaN)
  obtain p s2 st2 where d: "dispatchPending (w_now r) (w_nowH r) (w_nowT r) (w_ord r) ?s1 st =
      Inr (p, s2, st2)"
    using dispatchPending_total [of ?s1] Cons.prems(1) s1(1) by (metis prod_cases3)
  have ok1: "queue_ok (s_queue ?s1)" using Cons.prems(1) s1 by simp
  have ok: "queue_ok (s_queue s2)"
  proof (cases rule: dispatchPending_cases [where now = "w_now r" and nowH = "w_nowH r"
        and nowT = "w_nowT r" and ord = "w_ord r" and st = st, OF ok1])
    case 1
    with d ok1 show ?thesis by simp
  next
    case (2 item q)
    with d have "dispatch_item (w_now r) (w_nowH r) (w_nowT r) (w_ord r) item
        (?s1\<lparr>s_queue := q\<rparr>) st = (p, s2, st2)" by simp
    from dispatch_item_queue_ok [OF _ this] 2(2) show ?thesis by simp
  qed
  note dec = dispatch_decides [OF ok1 best d]
  have "\<exists>started' s' st'. RunDispatchLoop rs (started @ (case p of None \<Rightarrow> [] | Some q \<Rightarrow> [q])) s2 st2 =
      Inr (started', s', st') \<and> size (requests (s_queue s')) = size (requests (s_queue s2)) - length rs"
    using Cons.prems dec(2) s1 by (intro Cons.IH [OF ok]) simp_all
  moreover have "RunDispatchLoop (r # rs) started s st =
      RunDispatchLoop rs (started @ (case p of None \<Rightarrow> [] | Some q \<Rightarrow> [q])) s2 st2"
    using Cons.prems(2) d by (simp add: Let_def)
  ultimately show ?case using dec(1) s1(1) by auto
qed simp

section \<open>The placer\<close>

text \<open>
  The interface \<^verbatim>\<open>SandboxPlacer\<close>: what the dispatcher relies on is that a placer, whatever it does
  to the world, leaves the records of other sandboxes alone, neither creates nor removes one, and
  does not move the sandbox in the lifecycle graph.
\<close>

locale sandbox_placer =
  fixes place :: "'w placer"
  assumes place_other: "j \<noteq> i \<Longrightarrow> fst (snd (place i h sp st w)) j = st j"
    and place_none: "st i = None \<Longrightarrow> fst (snd (place i h sp st w)) i = None"
    and place_same_state: "st i = Some r \<Longrightarrow>
      \<exists>r'. fst (snd (place i h sp st w)) i = Some r' \<and> evolves r r' \<and> r_State r' = r_State r"

context sandbox_placer
begin

lemma goroutine_other:
  "j \<noteq> i_sandboxID item \<Longrightarrow> fst (place_goroutine place now item host st w) j = st j"
  using place_other [of j "i_sandboxID item" host "i_spec item" st w]
  by (auto simp: place_goroutine_def store_Transition_cases
      split: prod.splits sum.splits option.splits)

lemma goroutine_outcome:
  assumes "st (i_sandboxID item) = Some r" and "r_State r = StateProvisioning"
  shows "\<exists>r'. fst (place_goroutine place now item host st w) (i_sandboxID item) = Some r' \<and>
           evolves r r' \<and>
           (case fst (place (i_sandboxID item) host (i_spec item) st w) of
              Inl err \<Rightarrow> r_State r' = StateFailed \<and> r_FailReason r' = err
            | Inr _ \<Rightarrow> r_State r' = StateRunning)"
proof -
  obtain res st1 w1 where p: "place (i_sandboxID item) host (i_spec item) st w = (res, st1, w1)"
    by (metis prod_cases3)
  from place_same_state [of st "i_sandboxID item" r host "i_spec item" w] assms p
  obtain r1 where r1: "st1 (i_sandboxID item) = Some r1" "evolves r r1"
    "r_State r1 = StateProvisioning" by auto
  have run: "evolves r (moved now StateRunning '''' r1)"
    using evolves_trans [OF r1(2) evolves_moved] r1(3) by (simp add: provisioning_running)
  have fail: "evolves r (moved now StateFailed e r1)" for e
    using evolves_trans [OF r1(2) evolves_moved] r1(3) by (simp add: provisioning_failed)
  show ?thesis
    using p r1 run fail
    by (cases res) (simp_all add: place_goroutine_def store_Transition_cases provisioning_running
        provisioning_failed)
qed

end

section \<open>Properties\<close>

text \<open>A specification and hosts for the examples below.\<close>

definition sample_spec :: SandboxSpec where
  "sample_spec = \<lparr>sp_Image = ''base'', sp_CPUMillis = 1000, sp_MemoryMiB = 256,
     sp_TimeoutMs = 30000, sp_EgressAllowlist = [''10.0.0.0/8''], sp_TenantID = ''ten-a''\<rparr>"

definition sample_host :: "string \<Rightarrow> f64 \<Rightarrow> u32 \<Rightarrow> bool \<Rightarrow> HostInfo" where
  "sample_host i cpu idle healthy =
     \<lparr>h_ID = i, h_Addr = ''10.0.0.1:9090'', h_ActiveVMs = 0, h_IdlePool = idle,
      h_CPUUsagePct = cpu, h_LastSeen = 0, h_Healthy = healthy\<rparr>"

text \<open>
  The scheduler serves the earliest deadline first. Whatever the history of registrations,
  health updates, heartbeats, requests and dispatches, taking the next request never panics; it
  finds none exactly when none is pending, and otherwise removes exactly one request, one whose
  deadline is least and, among those, whose priority is greatest, and marks it as out of the heap.
\<close>

theorem scheduler_edf:
  assumes "sched_reachable s"
  shows "\<exists>next s'. take_next s = Inr (next, s') \<and> s_hosts s' = s_hosts s \<and>
    (case next of
       None \<Rightarrow> requests (s_queue s) = {#} \<and> s' = s
     | Some item \<Rightarrow>
         requests (s_queue s) = add_mset (request item) (requests (s_queue s')) \<and>
         (\<forall>y \<in># requests (s_queue s).
            i_deadline item < i_deadline y \<or>
            i_deadline item = i_deadline y \<and> i_priority y \<le> i_priority item) \<and>
         i_index item = -1 \<and> queue_ok (s_queue s'))"
  using sched_reachable_queue_ok [OF assms]
proof (cases rule: take_next_cases)
  case idle
  then show ?thesis by (simp add: requests_def)
next
  case (request item q)
  have "i_deadline item < i_deadline y \<or>
      i_deadline item = i_deadline y \<and> i_priority y \<le> i_priority item"
    if "y \<in># requests (s_queue s)" for y
    using request(6) [OF that] by (auto simp: urgency_def less_eq_prod_def)
  with request show ?thesis by auto
qed

theorem scheduler_edf_witness:
  "\<exists>item s'. take_next (Enqueue 5 ''sb-2'' sample_spec 10 (Enqueue 7 ''sb-1'' sample_spec 20 NewScheduler)) =
     Inr (Some item, s') \<and> i_index item = -1"
proof -
  let ?s = "Enqueue 5 ''sb-2'' sample_spec 10 (Enqueue 7 ''sb-1'' sample_spec 20 NewScheduler)"
  have reach: "sched_reachable ?s" by (intro sched_reachable.intros)
  have "requests (s_queue ?s) \<noteq> {#}" by (simp add: queue_Push_requests queue_Push_ok)
  with scheduler_edf [OF reach] show ?thesis by (auto split: option.splits)
qed

text \<open>
  C11: no request is lost or served twice, and none overtakes a more urgent one: popping the
  queue of a reachable scheduler until it is empty yields every pending request exactly once, in
  the order of deadline and, within a deadline, of falling priority.
\<close>

theorem scheduler_drains_in_order:
  assumes "sched_reachable s"
  shows "let served = drain queue_Pop (length (s_queue s)) (s_queue s)
         in mset (map request served) = requests (s_queue s) \<and>
            sorted (map (\<lambda>x. (i_deadline x, - i_priority x)) served)"
proof -
  have ok: "heap_from (keys_of urgency request (s_queue s)) 0 (length (s_queue s))"
    using sched_reachable_queue_ok [OF assms] by (simp only: queue_ok_def heap_ordered_def)
  have "mset (map request (drain queue_Pop (length (s_queue s)) (s_queue s))) = requests (s_queue s)"
    using pending.pq.drain_bag [OF ok, of "length (s_queue s)"] by (simp add: queue_Pop_def requests_def)
  moreover have "sorted (map urgency (drain queue_Pop (length (s_queue s)) (s_queue s)))"
    using pending.pq.drain_sorted [OF ok] by (simp add: queue_Pop_def)
  ultimately show ?thesis by (simp add: Let_def urgency_def [abs_def])
qed

theorem scheduler_drains_in_order_witness:
  "let q = s_queue (Enqueue 5 ''sb-2'' sample_spec 10 (Enqueue 7 ''sb-1'' sample_spec 20 NewScheduler))
   in sorted (map (\<lambda>x. (i_deadline x, - i_priority x)) (drain queue_Pop (length q) q))"
proof -
  have "sched_reachable (Enqueue 5 ''sb-2'' sample_spec 10 (Enqueue 7 ''sb-1'' sample_spec 20 NewScheduler))"
    by (intro sched_reachable.intros)
  from scheduler_drains_in_order [OF this] show ?thesis by (simp add: Let_def)
qed

text \<open>
  A request is queued with the deadline its timeout says, to the nanosecond: the product of
  \<^verbatim>\<open>timeout_ms\<close> with a millisecond does not overflow for any value of the field.
\<close>

theorem Enqueue_deadline:
  assumes "sched_reachable s"
  shows "requests (s_queue (Enqueue now i sp tmo s)) =
    add_mset \<lparr>i_sandboxID = i, i_spec = sp, i_deadline = now + uint tmo * 1000000,
               i_priority = 1, i_index = 0\<rparr> (requests (s_queue s))"
  using sched_reachable_queue_ok [OF assms]
  by (simp add: queue_Push_requests new_item_def request_def time_add_duration_ms)

theorem Enqueue_deadline_witness:
  "\<exists>y. y \<in># requests (s_queue (Enqueue 3 ''sb-1'' sample_spec 0xFFFFFFFF NewScheduler)) \<and>
       i_deadline y = 4294967295000003"
  using Enqueue_deadline [OF sched_new, of 3 "''sb-1''" sample_spec "0xFFFFFFFF"] by auto

text \<open>
  C24: the score of a healthy host lies between 0.25 and 1 when its load is not negative, and it
  is monotone: a host with no less load and no warm pool where the other has one never scores
  higher. An unhealthy host scores -1, below every healthy host whose load is a number.
\<close>

theorem scoreHost_monotone:
  assumes "h_Healthy g" and "h_Healthy h"
    and "f_le (Fin 0) (h_CPUUsagePct h)" and "f_le (h_CPUUsagePct h) (h_CPUUsagePct g)"
    and "h_IdlePool g > 0 \<Longrightarrow> h_IdlePool h > 0" and "\<not> h_Healthy u"
  shows "f_le (Fin (1 / 4)) (scoreHost g) \<and> f_le (scoreHost g) (scoreHost h) \<and>
         f_le (scoreHost h) (Fin 1) \<and> scoreHost u = Fin (- 1) \<and> f_less (scoreHost u) (scoreHost g)"
proof (intro conjI)
  have nan: "h_CPUUsagePct g \<noteq> NaN" "h_CPUUsagePct h \<noteq> NaN" using assms(4) by auto
  show low: "f_le (Fin (1 / 4)) (scoreHost g)" by (rule scoreHost_ge [OF assms(1) nan(1)])
  let ?w = "\<lambda>x. if h_IdlePool x > 0 then Fin 1 else Fin 0"
  have "f_le (weigh (cpu_fit (h_CPUUsagePct g)) (Fin (if h_IdlePool g > 0 then 1 else 0)))
      (weigh (cpu_fit (h_CPUUsagePct h)) (Fin (if h_IdlePool h > 0 then 1 else 0)))"
    using assms nan by (intro weigh_mono cpu_fit_antimono cpu_fit_nonneg) auto
  then show "f_le (scoreHost g) (scoreHost h)"
    using assms by (simp add: scoreHost_healthy if_distrib [of Fin] cong: if_cong)
  have "f_le (weigh (cpu_fit (h_CPUUsagePct h)) (Fin (if h_IdlePool h > 0 then 1 else 0)))
      (weigh (Fin 1) (Fin 1))"
    using assms nan by (intro weigh_mono cpu_fit_le_1 cpu_fit_nonneg) auto
  then show "f_le (scoreHost h) (Fin 1)"
    using assms by (simp add: scoreHost_healthy weigh_greatest if_distrib [of Fin] cong: if_cong)
  show u: "scoreHost u = Fin (- 1)" using assms(6) by simp
  have "f_less (Fin (- 1)) (Fin (1 / 4))" by simp
  then show "f_less (scoreHost u) (scoreHost g)" using low u by (metis f_less_le_trans)
qed

theorem scoreHost_monotone_witness:
  "f_le (scoreHost (sample_host ''a'' (Fin 80) 0 True)) (scoreHost (sample_host ''b'' (Fin 30) 2 True))"
  using scoreHost_monotone [of "sample_host ''a'' (Fin 80) 0 True"
      "sample_host ''b'' (Fin 30) 2 True" "sample_host ''c'' (Fin 0) 2 False"]
  by (simp add: sample_host_def)

text \<open>
  C25: \<^verbatim>\<open>bestHost\<close> returns a registered host no other registered host outscores, whatever the order
  of the map iteration; as soon as one healthy host has reported a load, the host returned is
  healthy; and it reports that there is no host only when no host has a score that is a number.
\<close>

theorem bestHost_optimal:
  assumes "range_order (s_hosts s) ord"
  shows "case bestHost ord s of
      Inl _ \<Rightarrow> \<forall>g \<in> ran (s_hosts s). h_Healthy g \<and> h_CPUUsagePct g = NaN
    | Inr h \<Rightarrow> h \<in> ran (s_hosts s) \<and>
        (\<forall>g \<in> ran (s_hosts s). \<not> f_less (scoreHost h) (scoreHost g)) \<and>
        ((\<exists>g \<in> ran (s_hosts s). h_Healthy g \<and> h_CPUUsagePct g \<noteq> NaN) \<longrightarrow> h_Healthy h)"
proof (cases "bestHost ord s")
  case (Inl e)
  with bestHost_none [OF assms, of e] show ?thesis by simp
next
  case (Inr h)
  note best = bestHost_chosen [OF assms Inr]
  have "\<not> f_less (scoreHost h) (scoreHost g)" if "g \<in> ran (s_hosts s)" for g
    using best(3) [OF that] by (metis f_le_def f_less_NaN(2))
  moreover have "h_Healthy h"
    if g: "g \<in> ran (s_hosts s)" "h_Healthy g" "h_CPUUsagePct g \<noteq> NaN" for g
  proof (rule ccontr)
    assume "\<not> h_Healthy h"
    then have "f_le (scoreHost g) (Fin (- 1))" using best(3) [OF g(1)] g by simp
    with scoreHost_ge [OF g(2,3)] have "f_le (Fin (1 / 4)) (Fin (- 1))" by (rule f_le_trans)
    then show False by simp
  qed
  ultimately show ?thesis using best(1) Inr by auto
qed

theorem bestHost_optimal_witness:
  "let s = RegisterHost 1 (sample_host ''a'' (Fin 80) 0 True)
             (RegisterHost 1 (sample_host ''b'' (Fin 30) 2 True) NewScheduler)
   in \<exists>h. bestHost [''b'', ''a''] s = Inr h \<and> h_Healthy h"
proof -
  let ?s = "RegisterHost 1 (sample_host ''a'' (Fin 80) 0 True)
             (RegisterHost 1 (sample_host ''b'' (Fin 30) 2 True) NewScheduler)"
  have hosts: "s_hosts ?s =
      [''b'' \<mapsto> (sample_host ''b'' (Fin 30) 2 True)\<lparr>h_LastSeen := 1\<rparr>,
       ''a'' \<mapsto> (sample_host ''a'' (Fin 80) 0 True)\<lparr>h_LastSeen := 1\<rparr>]"
    by (simp add: RegisterHost_def sample_host_def)
  have "range_order (s_hosts ?s) [''b'', ''a'']" unfolding hosts by (auto simp: range_order_def)
  from bestHost_optimal [OF this] show ?thesis
    unfolding hosts Let_def by (auto simp: sample_host_def split: sum.splits)
qed

text \<open>
  The guard in the score does not keep requests off unhealthy hosts. The search starts from
  -2 and an unhealthy host scores -1, so when the registry is not empty and every host in it is
  unhealthy, \<^verbatim>\<open>bestHost\<close> returns one of them and no error, although the comment on \<^verbatim>\<open>scoreHost\<close>
  says never to place on an unhealthy host.
\<close>

theorem bestHost_all_unhealthy:
  assumes "range_order (s_hosts s) ord" and "s_hosts s \<noteq> Map.empty"
    and "\<forall>g \<in> ran (s_hosts s). \<not> h_Healthy g"
  shows "\<exists>h \<in> ran (s_hosts s). bestHost ord s = Inr h \<and> \<not> h_Healthy h"
proof (cases "bestHost ord s")
  case (Inl e)
  obtain k g where "s_hosts s k = Some g" using assms(2) by (auto simp: fun_eq_iff)
  then have "g \<in> ran (s_hosts s)" by (rule ranI)
  moreover from this have "h_Healthy g" using Inl bestHost_none [OF assms(1)] by simp
  ultimately show ?thesis using assms(3) by blast
next
  case (Inr h)
  with bestHost_chosen(1) [OF assms(1) Inr] assms(3) show ?thesis by blast
qed

theorem bestHost_all_unhealthy_witness:
  "\<exists>h. bestHost [''a''] (NewScheduler\<lparr>s_hosts := [''a'' \<mapsto> sample_host ''a'' (Fin 0) 0 False]\<rparr>) = Inr h \<and>
       \<not> h_Healthy h"
  using bestHost_all_unhealthy [of "NewScheduler\<lparr>s_hosts := [''a'' \<mapsto> sample_host ''a'' (Fin 0) 0 False]\<rparr>" "[''a'']"]
  by (auto simp: range_order_def sample_host_def)



text \<open>
  C12: the dispatch loop makes progress. While some registered host has a score, every wake-up
  decides one pending request, so as many wake-ups as there are pending requests leave none
  waiting, whatever the clock readings and the order of the host map, and the loop never panics.
\<close>

theorem dispatch_loop_progress:
  assumes "sched_reachable s" and "h \<in> ran (s_hosts s)" and "scoreHost h \<noteq> NaN"
    and "\<forall>r \<in> set rs. w_wake r \<noteq> CtxDone \<and> range_order (s_hosts s) (w_ord r)"
    and "size (requests (s_queue s)) \<le> length rs"
  shows "\<exists>started s' st'. RunDispatchLoop rs [] s st = Inr (started, s', st') \<and>
           requests (s_queue s') = {#}"
  using loop_decides [OF sched_reachable_queue_ok [OF assms(1)] assms(4,2,3), of "[]" st] assms(5)
  by auto

theorem dispatch_loop_progress_witness:
  "let s = Enqueue 2 ''sb-1'' sample_spec 100
             (RegisterHost 1 (sample_host ''a'' (Fin 10) 0 True) NewScheduler)
   in \<exists>started s' st'.
        RunDispatchLoop [\<lparr>w_wake = Signal, w_now = 3, w_nowH = 3, w_nowT = 3, w_ord = [''a'']\<rparr>]
          [] s NewStore = Inr (started, s', st') \<and> requests (s_queue s') = {#}"
proof -
  let ?h = "(sample_host ''a'' (Fin 10) 0 True)\<lparr>h_LastSeen := 1\<rparr>"
  let ?s = "Enqueue 2 ''sb-1'' sample_spec 100
             (RegisterHost 1 (sample_host ''a'' (Fin 10) 0 True) NewScheduler)"
  have hosts: "s_hosts ?s = [''a'' \<mapsto> ?h]" by (simp add: RegisterHost_def sample_host_def)
  have "sched_reachable ?s" by (intro sched_reachable.intros)
  moreover have "?h \<in> ran (s_hosts ?s)" "scoreHost ?h \<noteq> NaN"
    unfolding hosts by (simp_all add: sample_host_def)
  moreover have "range_order (s_hosts ?s) [''a'']"
    unfolding hosts by (simp add: range_order_def)
  moreover have "size (requests (s_queue ?s)) = 1" by (simp add: queue_Push_requests)
  ultimately show ?thesis
    using dispatch_loop_progress [of ?s ?h
        "[\<lparr>w_wake = Signal, w_now = 3, w_nowH = 3, w_nowT = 3, w_ord = [''a'']\<rparr>]" NewStore]
    by (simp add: Let_def del: Enqueue_queue)
qed

end
