(* ===== verification/Orchestrator.thy ===== *)
theory Orchestrator
  imports Scheduler Fencing
begin

text \<open>
  \<^verbatim>\<open>cmd/orchestrator/main.go\<close>: the placer that calls a host agent, and the monitor that polls the
  hosts, counts missed heartbeats and fences. The network and the fencer are arguments, each with
  a world of its own.
\<close>

section \<open>The placer\<close>

definition httpPlacer_PlaceSandbox ::
  "(json_error \<Rightarrow> string) \<Rightarrow> 'w transport \<Rightarrow> string \<Rightarrow> time \<Rightarrow> 'w placer" where
  "httpPlacer_PlaceSandbox jerr tr agentSecret now sandboxID host sp st w =
     (let client = NewClient (''http://'' @ h_Addr host) agentSecret
      in case client_PlaceSandbox jerr tr client
                \<lparr>pl_SandboxID = sandboxID, pl_TenantID = sp_TenantID sp, pl_ImageRef = sp_Image sp,
                 pl_CPUMillis = sp_CPUMillis sp, pl_MemMiB = sp_MemoryMiB sp,
                 pl_TimeoutMs = sp_TimeoutMs sp, pl_EgressAllowlist = sp_EgressAllowlist sp,
                 pl_SnapshotKey = ''''\<rparr> w of
           (Inl err, w') \<Rightarrow> (Inl err, st, w')
         | (Inr resp, w') \<Rightarrow>
             (Inr (plr_VsockCID resp),
              snd (store_SetVsockCID now sandboxID (plr_VsockCID resp) (plr_UnixSocket resp) st), w'))"

lemma SetVsockCID_other: "j \<noteq> i \<Longrightarrow> snd (store_SetVsockCID now i c u st) j = st j"
  by (auto simp: store_SetVsockCID_def split: option.splits)

lemma SetVsockCID_none: "st i = None \<Longrightarrow> snd (store_SetVsockCID now i c u st) i = None"
  by (simp add: store_SetVsockCID_def)

lemma SetVsockCID_some:
  "st i = Some r \<Longrightarrow> \<exists>r'. snd (store_SetVsockCID now i c u st) i = Some r' \<and> evolves r r' \<and>
     r_State r' = r_State r"
  by (simp add: store_SetVsockCID_def)

lemmas SetVsockCID_facts = SetVsockCID_other SetVsockCID_none SetVsockCID_some

interpretation hp: sandbox_placer "httpPlacer_PlaceSandbox jerr tr secret now"
  for jerr :: "json_error \<Rightarrow> string" and tr :: "'w transport" and secret now
  by unfold_locales
    (auto simp: httpPlacer_PlaceSandbox_def Let_def SetVsockCID_facts split: prod.splits sum.splits)

section \<open>The heartbeat monitor\<close>

text \<open>
  What one answer, or its absence, does: \<open>now\<close> is the clock reading stored as the time the host was
  last seen.
\<close>

definition monitor_record ::
  "(string \<Rightarrow> 'f \<Rightarrow> string option \<times> 'f) \<Rightarrow> time \<Rightarrow> HostInfo \<Rightarrow> string + HeartbeatResponse \<Rightarrow>
   HealthScorer \<times> Scheduler \<times> 'f \<Rightarrow> HealthScorer \<times> Scheduler \<times> 'f" where
  "monitor_record fence now host reply m =
     (case m of (scorer, sched, f) \<Rightarrow>
        (case reply of
           Inl err \<Rightarrow>
             let (ask, scorer') = RecordMiss (h_ID host) scorer
             in if ask
                then (scorer', UpdateHostHealth (h_ID host) False sched, snd (fence (h_ID host) f))
                else (scorer', sched, f)
         | Inr resp \<Rightarrow>
             (RecordSuccess (h_ID host) scorer,
              (case s_hosts sched (h_ID host) of
                 None \<Rightarrow> sched
               | Some h \<Rightarrow> sched\<lparr>s_hosts := (s_hosts sched)(h_ID host \<mapsto>
                   h\<lparr>h_ActiveVMs := hbr_ActiveVMs resp, h_IdlePool := hbr_IdlePoolSize resp,
                     h_CPUUsagePct := hbr_CPUUsagePct resp, h_LastSeen := now,
                     h_Healthy := True\<rparr>)\<rparr>),
              f)))"

text \<open>One tick: the hosts registered when it starts, one after the other.\<close>

fun monitor_hosts ::
  "(json_error \<Rightarrow> string) \<Rightarrow> 'w transport \<Rightarrow> string \<Rightarrow> (string \<Rightarrow> 'f \<Rightarrow> string option \<times> 'f) \<Rightarrow>
   (nat \<Rightarrow> time) \<Rightarrow> HostInfo list \<Rightarrow> HealthScorer \<times> Scheduler \<times> 'f \<Rightarrow> 'w \<Rightarrow>
   (HealthScorer \<times> Scheduler \<times> 'f) \<times> 'w" where
  "monitor_hosts jerr tr secret fence clk [] m w = (m, w)"
| "monitor_hosts jerr tr secret fence clk (host # hosts) m w =
     (case client_Heartbeat jerr tr (NewClient (''http://'' @ h_Addr host) secret)
             \<lparr>hb_HostID = h_ID host\<rparr> w of
        (reply, w') \<Rightarrow>
          monitor_hosts jerr tr secret fence clk hosts
            (monitor_record fence (clk (length hosts)) host reply m) w')"

definition monitor_tick ::
  "(json_error \<Rightarrow> string) \<Rightarrow> 'w transport \<Rightarrow> string \<Rightarrow> (string \<Rightarrow> 'f \<Rightarrow> string option \<times> 'f) \<Rightarrow>
   (nat \<Rightarrow> time) \<Rightarrow> string list \<Rightarrow> HealthScorer \<times> Scheduler \<times> 'f \<Rightarrow> 'w \<Rightarrow>
   (HealthScorer \<times> Scheduler \<times> 'f) \<times> 'w" where
  "monitor_tick jerr tr secret fence clk ord m w =
     monitor_hosts jerr tr secret fence clk
       (List.map_filter (s_hosts (fst (snd m))) ord) m w"

text \<open>
  A history of the monitor, oldest first: the host polled, its reply, and the clock. It starts
  from a scorer with threshold 3.
\<close>

type_synonym poll = "HostInfo \<times> (string + HeartbeatResponse) \<times> time"

fun monitor_run ::
  "(string \<Rightarrow> 'f \<Rightarrow> string option \<times> 'f) \<Rightarrow> poll list \<Rightarrow> HealthScorer \<times> Scheduler \<times> 'f \<Rightarrow>
   HealthScorer \<times> Scheduler \<times> 'f" where
  "monitor_run fence [] m = m"
| "monitor_run fence ((host, reply, now) # ps) m =
     monitor_run fence ps (monitor_record fence now host reply m)"

definition monitor_start :: "Scheduler \<Rightarrow> 'f \<Rightarrow> HealthScorer \<times> Scheduler \<times> 'f" where
  "monitor_start sched f = (NewHealthScorer 3, sched, f)"

definition answered :: "poll \<Rightarrow> string \<times> bool" where
  "answered p = (h_ID (fst p), is_ok (fst (snd p)))"

lemma answered_eq [simp]: "answered (host, reply, now) = (h_ID host, is_ok reply)"
  by (simp add: answered_def)

lemma monitor_run_append:
  "monitor_run fence (ps @ qs) m = monitor_run fence qs (monitor_run fence ps m)"
  by (induction fence ps m rule: monitor_run.induct) auto

text \<open>A tick is a stretch of such a history, whatever the network does.\<close>

lemma monitor_hosts_run:
  "\<exists>ps. map fst ps = hosts \<and>
        fst (monitor_hosts jerr tr secret fence clk hosts m w) = monitor_run fence ps m"
proof (induction hosts arbitrary: m w)
  case Nil
  show ?case by (rule exI [of _ "[]"]) simp
next
  case (Cons host hosts)
  obtain reply w' where r: "client_Heartbeat jerr tr (NewClient (''http://'' @ h_Addr host) secret)
      \<lparr>hb_HostID = h_ID host\<rparr> w = (reply, w')" by (meson prod.exhaust)
  from Cons obtain ps where "map fst ps = hosts"
    "fst (monitor_hosts jerr tr secret fence clk hosts
       (monitor_record fence (clk (length hosts)) host reply m) w') =
     monitor_run fence ps (monitor_record fence (clk (length hosts)) host reply m)" by blast
  then show ?case
    by (intro exI [of _ "(host, reply, clk (length hosts)) # ps"]) (simp add: r [simplified])
qed

lemma fst_monitor_record:
  "fst (monitor_record fence now host reply (scorer, sched, f)) =
   scorer_run [(h_ID host, is_ok reply)] scorer"
  by (cases reply) (simp_all add: monitor_record_def Let_def split: prod.splits)

lemma fst_monitor_run:
  "fst (monitor_run fence ps m) = scorer_run (map answered ps) (fst m)"
proof (induction fence ps m rule: monitor_run.induct)
  case (2 fence host reply now ps m)
  obtain scorer sched f where m: "m = (scorer, sched, f)" by (cases m)
  have "scorer_run (map answered ps) (scorer_run [(h_ID host, is_ok reply)] scorer) =
      scorer_run ((h_ID host, is_ok reply) # map answered ps) scorer"
    by (simp flip: scorer_run_append)
  with 2 show ?case by (simp add: m fst_monitor_record)
qed simp

text \<open>The hosts a history fences: those whose answer is the third miss in a row, or a later one.\<close>

definition third_miss :: "string \<Rightarrow> poll list \<Rightarrow> bool" where
  "third_miss h ps \<longleftrightarrow>
     (let last3 = take 3 (rev (outcomes h (map answered ps)))
      in length last3 = 3 \<and> (\<forall>ok \<in> set last3. \<not> ok))"

lemma ask_iff_third_miss:
  "fst (RecordMiss h (scorer_run (map answered ps) (NewHealthScorer 3))) \<longleftrightarrow>
   third_miss h (ps @ [(host, Inl err, now)])" if "h = h_ID host"
  unfolding record_miss_iff third_miss_def using that by (simp add: Let_def)

lemma not_third_miss_ok: "\<not> third_miss (h_ID host) (ps @ [(host, Inr resp, now)])"
  by (auto simp: third_miss_def outcomes_def Let_def take_Cons')

lemma monitor_last:
  assumes "monitor_run fence ps (monitor_start sched f) = (scorer, s, w)"
  shows "scorer = scorer_run (map answered ps) (NewHealthScorer 3)"
    and "monitor_run fence (ps @ [(host, reply, now)]) (monitor_start sched f) =
         monitor_record fence now host reply (scorer, s, w)"
  using assms fst_monitor_run [of fence ps "monitor_start sched f"]
  by (simp_all add: monitor_run_append monitor_start_def)

lemma monitor_off:
  "log_off g (snd (snd m)) \<Longrightarrow> log_off g (snd (snd (monitor_run log_Fence ps m)))"
proof (induction log_Fence ps m rule: monitor_run.induct)
  case (2 host reply now ps m)
  have "log_off g (snd (snd (monitor_record log_Fence now host reply m)))"
    using 2(2) lf.fence_keeps
    by (cases m) (auto simp: monitor_record_def Let_def split: sum.splits prod.splits)
  with 2(1) show ?case by simp
qed simp

section \<open>Properties\<close>

text \<open>
  C19: the monitor fences exactly after three missed heartbeats in a row. After any history of
  polls, one more poll of a host calls the fencer, once and for that host, exactly when it
  completes a run of at least three polls of it without an answer; the registry's entry of the
  host is then unhealthy. A poll that is answered resets the run and marks the entry healthy.
\<close>

theorem monitor_fences_third_miss:
  assumes "monitor_run fence ps (monitor_start sched f) = (scorer, s, w)"
    and "monitor_run fence (ps @ [(host, reply, now)]) (monitor_start sched f) = (scorer', s', w')"
  shows "w' = (if third_miss (h_ID host) (ps @ [(host, reply, now)])
               then snd (fence (h_ID host) w) else w) \<and>
    (\<forall>h. s_hosts s' (h_ID host) = Some h \<longrightarrow>
       (is_ok reply \<longrightarrow> h_Healthy h) \<and>
       (third_miss (h_ID host) (ps @ [(host, reply, now)]) \<longrightarrow> \<not> h_Healthy h)) \<and>
    dom (s_hosts s') = dom (s_hosts s) \<and> s_queue s' = s_queue s"
proof (cases reply)
  case (Inl err)
  have "monitor_record fence now host reply (scorer, s, w) = (scorer', s', w')"
    using monitor_last(2) [OF assms(1), of host reply now] assms(2) by simp
  moreover have "fst (RecordMiss (h_ID host) scorer) \<longleftrightarrow>
      third_miss (h_ID host) (ps @ [(host, reply, now)])"
    unfolding Inl monitor_last(1) [OF assms(1)] by (rule ask_iff_third_miss) simp
  ultimately show ?thesis
    by (auto simp: Inl monitor_record_def UpdateHostHealth_def Let_def
        split: prod.splits if_splits option.splits)
next
  case (Inr resp)
  have "monitor_record fence now host reply (scorer, s, w) = (scorer', s', w')"
    using monitor_last(2) [OF assms(1), of host reply now] assms(2) by simp
  with not_third_miss_ok [of host ps resp now] show ?thesis
    by (auto simp: Inr monitor_record_def split: option.splits if_splits)
qed

theorem monitor_fences_third_miss_witness:
  "let host = sample_host ''a'' (Fin 0) 0 True;
       polls = [(host, Inl ''do: refused'', 1), (host, Inl ''do: refused'', 2)]
   in snd (snd (monitor_run log_Fence (polls @ [(host, Inl ''do: refused'', 3)])
                  (monitor_start NewScheduler []))) = [FENCE ''a'']"
proof -
  let ?h = "sample_host ''a'' (Fin 0) 0 True"
  let ?ps = "[(?h, Inl ''do: refused'', 1), (?h, Inl ''do: refused'', 2)]"
  have before: "monitor_run log_Fence ?ps (monitor_start NewScheduler []) =
      (scorer_run [(''a'', False), (''a'', False)] (NewHealthScorer 3), NewScheduler, [])"
    by (simp add: monitor_start_def monitor_record_def RecordMiss_def Misses_def NewHealthScorer_def
        sample_host_def)
  obtain sc s w where after: "monitor_run log_Fence (?ps @ [(?h, Inl ''do: refused'', 3)])
      (monitor_start NewScheduler []) = (sc, s, w)" by (metis prod_cases3)
  have "third_miss ''a'' (?ps @ [(?h, Inl ''do: refused'', 3)])"
    by (simp add: third_miss_def outcomes_def sample_host_def)
  with monitor_fences_third_miss [OF before after] have "w = [FENCE ''a'']"
    by (simp add: sample_host_def log_Fence_def)
  with after show ?thesis by (simp add: Let_def)
qed

text \<open>
  The monitor takes a fenced host back by itself. It never unfences: a host that is off for
  the fencer stays off through any history; yet the first answered poll marks its entry healthy,
  so requests are placed on a host that was fenced and never released.
\<close>

theorem monitor_readmits_fenced:
  assumes "monitor_run log_Fence ps (monitor_start sched out) = (scorer, s, w)"
    and "log_off (h_ID host) w" and "s_hosts s (h_ID host) = Some h"
  shows "\<exists>scorer' s' w' h'.
    monitor_run log_Fence (ps @ [(host, Inr resp, now)]) (monitor_start sched out) = (scorer', s', w') \<and>
    s_hosts s' (h_ID host) = Some h' \<and> h_Healthy h' \<and> log_off (h_ID host) w'"
proof -
  have "monitor_run log_Fence (ps @ [(host, Inr resp, now)]) (monitor_start sched out) =
      monitor_record log_Fence now host (Inr resp) (scorer, s, w)"
    by (rule monitor_last(2) [OF assms(1)])
  moreover have "log_off (h_ID host) (snd (snd (monitor_run log_Fence [(host, Inr resp, now)] (scorer, s, w))))"
    using assms(2) by (intro monitor_off) simp
  ultimately show ?thesis using assms(3) by (simp add: monitor_record_def)
qed

theorem monitor_readmits_fenced_witness:
  "let host = sample_host ''a'' (Fin 0) 0 True;
       sched = NewScheduler\<lparr>s_hosts := [''a'' \<mapsto> host\<lparr>h_Healthy := False\<rparr>]\<rparr>
   in \<exists>scorer' s' w' h'.
        monitor_run log_Fence [(host, Inr zero_HeartbeatResponse, 9)]
          (monitor_start sched [FENCE ''a'']) = (scorer', s', w') \<and>
        s_hosts s' ''a'' = Some h' \<and> h_Healthy h' \<and> log_off ''a'' w'"
  using monitor_readmits_fenced [of "[]"
      "NewScheduler\<lparr>s_hosts := [''a'' \<mapsto> (sample_host ''a'' (Fin 0) 0 True)\<lparr>h_Healthy := False\<rparr>]\<rparr>"
      "[FENCE ''a'']" "NewHealthScorer 3"
      "NewScheduler\<lparr>s_hosts := [''a'' \<mapsto> (sample_host ''a'' (Fin 0) 0 True)\<lparr>h_Healthy := False\<rparr>]\<rparr>"
      "[FENCE ''a'']" "sample_host ''a'' (Fin 0) 0 True"
      "(sample_host ''a'' (Fin 0) 0 True)\<lparr>h_Healthy := False\<rparr>" zero_HeartbeatResponse 9]
  by (simp add: monitor_start_def sample_host_def log_off_def)

end
