(* ===== verification/ApiScheduler.thy ===== *)
theory ApiScheduler
  imports Orchestrator
begin

text \<open>
  \<^verbatim>\<open>cmd/api/scheduler.go\<close>: the copy of the scheduler that runs inside the API server, and the placer
  it uses. The copy is translated on its own and proved equal to the orchestrator's, operation by
  operation; its placer is compared with the orchestrator's on the request the host agent gets.
\<close>

section \<open>The copy\<close>

definition api_scoreHost :: "HostInfo \<Rightarrow> f64" where
  "api_scoreHost h =
     (if \<not> h_Healthy h then Fin (- 1)
      else
        let fit = f_sub (Fin 1) (f_div_const (h_CPUUsagePct h) 100);
            cpuFit = (if f_less fit (Fin 0) then Fin 0 else fit);
            warmPoolHit = (if h_IdlePool h > 0 then Fin 1 else Fin 0)
        in f_add (f_add (f_mul (f64_of (4 / 10)) cpuFit) (f_mul (f64_of (35 / 100)) warmPoolHit))
             (f64_of (25 / 100)))"

definition api_pq_Less :: "pendingQueue \<Rightarrow> nat \<Rightarrow> nat \<Rightarrow> bool" where
  "api_pq_Less pq i j =
     (let a = pq ! i; b = pq ! j
      in if i_deadline a = i_deadline b then i_priority a > i_priority b
         else i_deadline a < i_deadline b)"

definition api_pq_Swap :: "pendingQueue \<Rightarrow> nat \<Rightarrow> nat \<Rightarrow> pendingQueue" where
  "api_pq_Swap pq i j =
     (let pq1 = pq[i := pq ! j, j := pq ! i];
          pq2 = pq1[i := (pq1 ! i)\<lparr>i_index := int i\<rparr>]
      in pq2[j := (pq2 ! j)\<lparr>i_index := int j\<rparr>])"

definition api_pq_Push :: "pendingQueue \<Rightarrow> pendingItem \<Rightarrow> pendingQueue" where
  "api_pq_Push pq item = (let n = length pq in pq @ [item\<lparr>i_index := int n\<rparr>])"

definition api_pq_Pop :: "pendingQueue \<Rightarrow> pendingItem \<times> pendingQueue" where
  "api_pq_Pop old =
     (let n = length old; item = old ! (n - 1) in (item\<lparr>i_index := -1\<rparr>, take (n - 1) old))"

definition api_NewScheduler :: Scheduler where
  "api_NewScheduler =
     \<lparr>s_hosts = Map.empty, s_queue = heap_Init api_pq_Less api_pq_Swap [], s_placeCh = 0\<rparr>"

definition api_RegisterHost :: "time \<Rightarrow> HostInfo \<Rightarrow> Scheduler \<Rightarrow> Scheduler" where
  "api_RegisterHost now h s =
     (let h1 = h\<lparr>h_LastSeen := now\<rparr>; h2 = h1\<lparr>h_Healthy := True\<rparr>
      in s\<lparr>s_hosts := (s_hosts s)(h_ID h2 \<mapsto> h2)\<rparr>)"

definition api_Enqueue :: "time \<Rightarrow> string \<Rightarrow> SandboxSpec \<Rightarrow> u32 \<Rightarrow> Scheduler \<Rightarrow> Scheduler" where
  "api_Enqueue now sandboxID sp timeoutMs s =
     (let item = \<lparr>i_sandboxID = sandboxID, i_spec = sp,
                  i_deadline = time_add now (duration_ms timeoutMs), i_priority = 1, i_index = 0\<rparr>;
          s1 = s\<lparr>s_queue := heap_Push api_pq_Less api_pq_Swap api_pq_Push (s_queue s) item\<rparr>
      in if s_placeCh s1 < 100 then s1\<lparr>s_placeCh := s_placeCh s1 + 1\<rparr> else s1)"

fun api_best_loop ::
  "(string \<rightharpoonup> HostInfo) \<Rightarrow> string list \<Rightarrow> HostInfo option \<Rightarrow> f64 \<Rightarrow> HostInfo option" where
  "api_best_loop hosts [] best bestScore = best"
| "api_best_loop hosts (k # ks) best bestScore =
     (case hosts k of
        None \<Rightarrow> api_best_loop hosts ks best bestScore
      | Some h \<Rightarrow>
          let sc = api_scoreHost h
          in if f_less bestScore sc then api_best_loop hosts ks (Some h) sc
             else api_best_loop hosts ks best bestScore)"

definition api_bestHost :: "string list \<Rightarrow> Scheduler \<Rightarrow> string + HostInfo" where
  "api_bestHost ord s =
     (case api_best_loop (s_hosts s) ord None (Fin (- 2)) of
        None \<Rightarrow> Inl ''scheduler: no healthy hosts available''
      | Some h \<Rightarrow> Inr h)"

definition api_dispatchPending ::
  "time \<Rightarrow> time \<Rightarrow> time \<Rightarrow> string list \<Rightarrow> Scheduler \<Rightarrow> Store \<Rightarrow>
   go_panic + (pendingItem \<times> HostInfo) option \<times> Scheduler \<times> Store" where
  "api_dispatchPending now nowH nowT ord s st =
     (if s_queue s = [] then Inr (None, s, st)
      else case heap_Pop api_pq_Less api_pq_Swap api_pq_Pop (s_queue s) of
        Inl p \<Rightarrow> Inl p
      | Inr (item, q) \<Rightarrow>
          let s1 = s\<lparr>s_queue := q\<rparr>; i = i_sandboxID item
          in Inr
            (if now > i_deadline item
             then (None, s1, snd (store_Transition nowT i StateQueued StateFailed
                                    ''deadline exceeded'' st))
             else case api_bestHost ord s1 of
               Inl _ \<Rightarrow>
                 (None, s1\<lparr>s_queue := heap_Push api_pq_Less api_pq_Swap api_pq_Push q item\<rparr>, st)
             | Inr host \<Rightarrow>
                 case store_SetHostID nowH i (h_ID host) st of
                   (_, st1) \<Rightarrow>
                     (case store_Transition nowT i StateQueued StateProvisioning '''' st1 of
                        (Inl _, st2) \<Rightarrow> (None, s1, st2)
                      | (Inr _, st2) \<Rightarrow> (Some (item, host), s1, st2))))"

fun api_RunDispatchLoop ::
  "round list \<Rightarrow> (pendingItem \<times> HostInfo) list \<Rightarrow> Scheduler \<Rightarrow> Store \<Rightarrow>
   go_panic + (pendingItem \<times> HostInfo) list \<times> Scheduler \<times> Store" where
  "api_RunDispatchLoop [] started s st = Inr (started, s, st)"
| "api_RunDispatchLoop (r # rs) started s st =
     (case w_wake r of
        CtxDone \<Rightarrow> Inr (started, s, st)
      | wake \<Rightarrow>
          let s1 = (if wake = Signal then s\<lparr>s_placeCh := s_placeCh s - 1\<rparr> else s)
          in case api_dispatchPending (w_now r) (w_nowH r) (w_nowT r) (w_ord r) s1 st of
               Inl p \<Rightarrow> Inl p
             | Inr (p, s2, st2) \<Rightarrow>
                 api_RunDispatchLoop rs (started @ (case p of None \<Rightarrow> [] | Some q \<Rightarrow> [q])) s2 st2)"

definition api_place_goroutine ::
  "'w placer \<Rightarrow> time \<Rightarrow> pendingItem \<Rightarrow> HostInfo \<Rightarrow> Store \<Rightarrow> 'w \<Rightarrow> Store \<times> 'w" where
  "api_place_goroutine placer now item host st w =
     (case placer (i_sandboxID item) host (i_spec item) st w of
        (res, st1, w1) \<Rightarrow>
          (case res of
             Inl err \<Rightarrow>
               (snd (store_Transition now (i_sandboxID item) StateProvisioning StateFailed err st1), w1)
           | Inr _ \<Rightarrow>
               (snd (store_Transition now (i_sandboxID item) StateProvisioning StateRunning '''' st1),
                w1)))"

section \<open>The copy decides as the original\<close>

lemma f64_of_25_100: "f64_of (25 / 100) = Fin (1 / 4)"
  using f64_of_quarter by simp

lemma api_scoreHost_eq: "api_scoreHost h = scoreHost h"
  unfolding api_scoreHost_def scoreHost_def f64_of_25_100 ..

lemma api_Less_eq: "api_pq_Less = pq_Less"
  by (intro ext) (simp add: api_pq_Less_def pq_Less_def Let_def)

lemma api_Swap_eq: "api_pq_Swap = pq_Swap"
  by (intro ext) (simp add: api_pq_Swap_def pq_Swap_def)

lemma api_Push_eq: "api_pq_Push = pq_Push"
  by (intro ext) (simp add: api_pq_Push_def pq_Push_def Let_def)

lemma api_Pop_eq: "q \<noteq> [] \<Longrightarrow> api_pq_Pop q = pq_Pop q"
  by (simp add: api_pq_Pop_def pq_Pop_def Let_def last_conv_nth butlast_conv_take)

lemma api_heap_Push_eq: "heap_Push api_pq_Less api_pq_Swap api_pq_Push = queue_Push"
  by (simp add: queue_Push_def api_Less_eq api_Swap_eq api_Push_eq)

lemma api_heap_Pop_eq: "heap_Pop api_pq_Less api_pq_Swap api_pq_Pop q = queue_Pop q"
proof (cases "q = []")
  case False
  let ?s = "pq_Swap q 0 (length q - 1)"
  have "length (heap_down pq_Less pq_Swap ?s 0 (length q - 1)) = length q"
    using heap_down_preserves [where P = "\<lambda>_. True" and h = ?s and swap = pq_Swap] by simp
  then have "heap_down pq_Less pq_Swap ?s 0 (length q - 1) \<noteq> []" using False by auto
  with False show ?thesis
    by (simp add: queue_Pop_def heap_Pop_def api_Less_eq api_Swap_eq api_Pop_eq Let_def)
qed (simp add: queue_Pop_def heap_Pop_def)

lemma api_best_loop_eq: "api_best_loop hosts ks best bs = best_loop hosts ks best bs"
  by (induction hosts ks best bs rule: best_loop.induct)
    (auto simp: api_scoreHost_eq Let_def split: option.splits)

lemma api_bestHost_eq: "api_bestHost ord s = bestHost ord s"
  by (simp add: api_bestHost_def bestHost_def api_best_loop_eq)

lemma api_dispatchPending_eq:
  "api_dispatchPending now nowH nowT ord s st = dispatchPending now nowH nowT ord s st"
  by (auto simp: api_dispatchPending_def dispatchPending_def take_next_def dispatch_item_def
      api_heap_Pop_eq api_heap_Push_eq api_bestHost_eq Let_def
      split: sum.splits prod.splits)

lemma api_RunDispatchLoop_eq:
  "api_RunDispatchLoop rs started s st = RunDispatchLoop rs started s st"
  by (induction rs arbitrary: started s st)
    (auto simp: api_dispatchPending_eq Let_def split: wake.splits sum.splits)

lemma api_NewScheduler_eq: "api_NewScheduler = NewScheduler"
  by (simp add: api_NewScheduler_def NewScheduler_def heap_Init_def)

lemma api_RegisterHost_eq: "api_RegisterHost = RegisterHost"
  by (intro ext) (simp add: api_RegisterHost_def RegisterHost_def Let_def)

lemma api_Enqueue_eq:
  "s_placeCh s \<le> 100 \<Longrightarrow> api_Enqueue now i sp tmo s = Enqueue now i sp tmo s"
  by (simp add: api_Enqueue_def Enqueue_def new_item_def api_heap_Push_eq Let_def min_def)

lemma api_place_goroutine_eq: "api_place_goroutine = place_goroutine"
  by (intro ext) (auto simp: api_place_goroutine_def place_goroutine_def split: prod.splits sum.splits)

lemma api_queue_ops_eq:
  "api_pq_Less = pq_Less" "api_pq_Swap = pq_Swap" "api_pq_Push = pq_Push"
  "api_NewScheduler = NewScheduler" "api_RegisterHost = RegisterHost"
  by (simp_all add: api_Less_eq api_Swap_eq api_Push_eq api_NewScheduler_eq api_RegisterHost_eq)

section \<open>The placer of the API server\<close>

definition grpcPlacer_PlaceSandbox ::
  "(json_error \<Rightarrow> string) \<Rightarrow> 'w transport \<Rightarrow> string \<Rightarrow> time \<Rightarrow> 'w placer" where
  "grpcPlacer_PlaceSandbox jerr tr agentSecret now sandboxID host sp st w =
     (let client = NewClient (''http://'' @ h_Addr host) agentSecret
      in case client_PlaceSandbox jerr tr client
                (zero_PlaceRequest\<lparr>pl_SandboxID := sandboxID, pl_TenantID := sp_TenantID sp,
                   pl_ImageRef := sp_Image sp, pl_CPUMillis := sp_CPUMillis sp,
                   pl_MemMiB := sp_MemoryMiB sp, pl_TimeoutMs := sp_TimeoutMs sp\<rparr>) w of
           (Inl err, w') \<Rightarrow> (Inl (''host-agent PlaceSandbox: '' @ err), st, w')
         | (Inr resp, w') \<Rightarrow>
             (Inr (plr_VsockCID resp),
              snd (store_SetVsockCID now sandboxID (plr_VsockCID resp) (plr_UnixSocket resp) st), w'))"

interpretation gp: sandbox_placer "grpcPlacer_PlaceSandbox jerr tr secret now"
  for jerr :: "json_error \<Rightarrow> string" and tr :: "'w transport" and secret now
  by unfold_locales
    (auto simp: grpcPlacer_PlaceSandbox_def Let_def SetVsockCID_facts split: prod.splits sum.splits)

text \<open>
  A transport that answers nothing and records what it was asked: it shows the requests a placer
  makes, and the message a host agent would decode from each.
\<close>

definition recorder :: "http_request list transport" where
  "recorder rq seen = (Inl (NoAnswer ''recorded''), seen @ [rq])"

definition asked :: "http_request list placer \<Rightarrow> string \<Rightarrow> HostInfo \<Rightarrow> SandboxSpec \<Rightarrow>
    (string \<times> (json_error + PlaceRequest)) list" where
  "asked placer i host sp =
     map (\<lambda>rq. (rq_URL rq, json_decode PlaceRequest_fields zero_PlaceRequest (rq_Body rq)))
       (snd (snd (placer i host sp NewStore [])))"

definition utf8_spec :: "string \<Rightarrow> SandboxSpec \<Rightarrow> bool" where
  "utf8_spec i sp \<longleftrightarrow>
     is_utf8 i \<and> is_utf8 (sp_TenantID sp) \<and> is_utf8 (sp_Image sp) \<and>
     list_all is_utf8 (sp_EgressAllowlist sp)"

lemma client_PlaceSandbox_recorder:
  "snd (client_PlaceSandbox jerr recorder c req seen) =
   seen @ [\<lparr>rq_Method = ''POST'', rq_URL = cl_baseURL c @ ''/internal/v1/place'',
           rq_Headers = [(''Content-Type'', ''application/json''), (''X-Agent-Secret'', cl_secret c)],
           rq_Body = Json (enc_PlaceRequest req)\<rparr>]"
  by (simp add: client_PlaceSandbox_def client_post_def recorder_def)

lemma snd_grpcPlacer:
  "snd (snd (grpcPlacer_PlaceSandbox jerr tr secret now i host sp st w)) =
   snd (client_PlaceSandbox jerr tr (NewClient (''http://'' @ h_Addr host) secret)
     \<lparr>pl_SandboxID = i, pl_TenantID = sp_TenantID sp, pl_ImageRef = sp_Image sp,
      pl_CPUMillis = sp_CPUMillis sp, pl_MemMiB = sp_MemoryMiB sp,
      pl_TimeoutMs = sp_TimeoutMs sp, pl_EgressAllowlist = [], pl_SnapshotKey = []\<rparr> w)"
  unfolding grpcPlacer_PlaceSandbox_def Let_def zero_PlaceRequest_def
  by (simp split: prod.split sum.split)

lemma snd_httpPlacer:
  "snd (snd (httpPlacer_PlaceSandbox jerr tr secret now i host sp st w)) =
   snd (client_PlaceSandbox jerr tr (NewClient (''http://'' @ h_Addr host) secret)
     \<lparr>pl_SandboxID = i, pl_TenantID = sp_TenantID sp, pl_ImageRef = sp_Image sp,
      pl_CPUMillis = sp_CPUMillis sp, pl_MemMiB = sp_MemoryMiB sp,
      pl_TimeoutMs = sp_TimeoutMs sp, pl_EgressAllowlist = sp_EgressAllowlist sp,
      pl_SnapshotKey = ''''\<rparr> w)"
  unfolding httpPlacer_PlaceSandbox_def Let_def by (simp split: prod.split sum.split)

section \<open>The registry of the API server\<close>

text \<open>
  \<^verbatim>\<open>main\<close> of \<^verbatim>\<open>cmd/api\<close> registers the configured host agents, or one local host when none is
  configured, and nothing updates the registry afterwards. A host is its identifier and address.
\<close>

definition configured_host :: "string \<times> string \<Rightarrow> HostInfo" where
  "configured_host ha =
     \<lparr>h_ID = fst ha, h_Addr = snd ha, h_ActiveVMs = 0, h_IdlePool = 0, h_CPUUsagePct = Fin 0,
      h_LastSeen = 0, h_Healthy = True\<rparr>"

definition api_register_hosts ::
  "time \<Rightarrow> (string \<times> string) list \<Rightarrow> string \<Rightarrow> Scheduler \<Rightarrow> Scheduler" where
  "api_register_hosts now hostAgents grpcAddr s =
     (let s1 = fold (\<lambda>ha. api_RegisterHost now (configured_host ha)) hostAgents s
      in if length hostAgents = 0
         then api_RegisterHost now (configured_host (''host-local'', grpcAddr)) s1 else s1)"

lemma configured_healthy:
  "\<forall>h \<in> ran (s_hosts s). h_Healthy h \<and> h_CPUUsagePct h = Fin 0 \<Longrightarrow>
   \<forall>h \<in> ran (s_hosts (api_RegisterHost now (configured_host ha) s)).
     h_Healthy h \<and> h_CPUUsagePct h = Fin 0"
  by (auto simp: api_RegisterHost_eq RegisterHost_def configured_host_def ran_def)

lemma configured_fold:
  "\<forall>h \<in> ran (s_hosts s). h_Healthy h \<and> h_CPUUsagePct h = Fin 0 \<Longrightarrow>
   (\<forall>h \<in> ran (s_hosts (fold (\<lambda>ha. api_RegisterHost now (configured_host ha)) has s)).
      h_Healthy h \<and> h_CPUUsagePct h = Fin 0) \<and>
   dom (s_hosts (fold (\<lambda>ha. api_RegisterHost now (configured_host ha)) has s)) =
     dom (s_hosts s) \<union> fst ` set has"
proof (induction has arbitrary: s)
  case (Cons ha has)
  from Cons.IH [OF configured_healthy [OF Cons.prems, of now ha]] show ?case
    by (auto simp: api_RegisterHost_eq RegisterHost_def configured_host_def)
qed simp

lemma api_registry:
  fixes now hostAgents grpcAddr
  defines "s \<equiv> api_register_hosts now hostAgents grpcAddr api_NewScheduler"
  shows "\<forall>h \<in> ran (s_hosts s). h_Healthy h \<and> h_CPUUsagePct h = Fin 0"
    and "dom (s_hosts s) = (if hostAgents = [] then {''host-local''} else fst ` set hostAgents)"
proof -
  have new: "\<forall>h \<in> ran (s_hosts api_NewScheduler). h_Healthy h \<and> h_CPUUsagePct h = Fin 0"
    by (simp add: api_NewScheduler_eq)
  note fold = configured_fold [OF new, of now hostAgents]
  show "\<forall>h \<in> ran (s_hosts s). h_Healthy h \<and> h_CPUUsagePct h = Fin 0"
    using fold configured_healthy [OF new] by (auto simp: s_def api_register_hosts_def Let_def)
  show "dom (s_hosts s) = (if hostAgents = [] then {''host-local''} else fst ` set hostAgents)"
    using fold by (auto simp: s_def api_register_hosts_def Let_def api_RegisterHost_eq
        RegisterHost_def configured_host_def api_NewScheduler_eq)
qed

section \<open>Properties\<close>

text \<open>
  C27: the scheduler embedded in the API server is the orchestrator's. Every operation of the copy
  gives the same result as the original on every state the program reaches: the score, the heap's
  interface, registration, admission, the choice of a host, one dispatch, the dispatch loop and the
  placement goroutine.
\<close>

theorem api_scheduler_equivalent:
  assumes "s_placeCh s \<le> 100" and "q \<noteq> []"
  shows "api_scoreHost h = scoreHost h \<and> api_pq_Less q i j = pq_Less q i j \<and>
    api_pq_Swap q i j = pq_Swap q i j \<and> api_pq_Push q x = pq_Push q x \<and>
    api_pq_Pop q = pq_Pop q \<and> api_NewScheduler = NewScheduler \<and>
    api_RegisterHost now h s = RegisterHost now h s \<and>
    api_Enqueue now sid sp tmo s = Enqueue now sid sp tmo s \<and>
    api_bestHost ord s = bestHost ord s \<and>
    api_dispatchPending now nowH nowT ord s st = dispatchPending now nowH nowT ord s st \<and>
    api_RunDispatchLoop rs started s st = RunDispatchLoop rs started s st \<and>
    api_place_goroutine placer now x h st w = place_goroutine placer now x h st w"
  using assms
  by (simp add: api_scoreHost_eq api_queue_ops_eq api_Pop_eq api_Enqueue_eq api_bestHost_eq
      api_dispatchPending_eq api_RunDispatchLoop_eq api_place_goroutine_eq)

theorem api_scheduler_equivalent_witness:
  "api_Enqueue 1 ''sb-1'' sample_spec 30000 api_NewScheduler =
     Enqueue 1 ''sb-1'' sample_spec 30000 NewScheduler \<and>
   api_pq_Pop [new_item 1 ''sb-1'' sample_spec 5] = pq_Pop [new_item 1 ''sb-1'' sample_spec 5]"
proof -
  have small: "s_placeCh NewScheduler \<le> 100" by (simp add: NewScheduler_def)
  note eq = api_scheduler_equivalent [where q = "[new_item 1 ''sb-1'' sample_spec 5]",
      OF small list.distinct(2)]
  note rest = eq [THEN conjunct2, THEN conjunct2, THEN conjunct2, THEN conjunct2]
  have "api_pq_Pop [new_item 1 ''sb-1'' sample_spec 5] = pq_Pop [new_item 1 ''sb-1'' sample_spec 5]"
    by (rule rest [THEN conjunct1])
  moreover have new: "api_NewScheduler = NewScheduler"
    by (rule rest [THEN conjunct2, THEN conjunct1])
  moreover have "api_Enqueue 1 ''sb-1'' sample_spec 30000 NewScheduler =
      Enqueue 1 ''sb-1'' sample_spec 30000 NewScheduler"
    by (rule rest [THEN conjunct2, THEN conjunct2, THEN conjunct2, THEN conjunct1])
  ultimately show ?thesis by simp
qed

text \<open>
  The two placers do not ask for the same sandbox. Each makes one request, to the place
  endpoint of the chosen host, and the host agent decodes the specification from it; the
  orchestrator's carries the egress allowlist, the API server's never does, so a sandbox placed
  through the API has no allowlist whatever its specification says.
\<close>

theorem placers_request:
  assumes "utf8_spec i sp"
  shows "asked (httpPlacer_PlaceSandbox jerr recorder secret now) i host sp =
      [(''http://'' @ h_Addr host @ ''/internal/v1/place'',
        Inr \<lparr>pl_SandboxID = i, pl_TenantID = sp_TenantID sp, pl_ImageRef = sp_Image sp,
             pl_CPUMillis = sp_CPUMillis sp, pl_MemMiB = sp_MemoryMiB sp,
             pl_TimeoutMs = sp_TimeoutMs sp, pl_EgressAllowlist = sp_EgressAllowlist sp,
             pl_SnapshotKey = ''''\<rparr>)] \<and>
    asked (grpcPlacer_PlaceSandbox jerr recorder secret now) i host sp =
      [(''http://'' @ h_Addr host @ ''/internal/v1/place'',
        Inr \<lparr>pl_SandboxID = i, pl_TenantID = sp_TenantID sp, pl_ImageRef = sp_Image sp,
             pl_CPUMillis = sp_CPUMillis sp, pl_MemMiB = sp_MemoryMiB sp,
             pl_TimeoutMs = sp_TimeoutMs sp, pl_EgressAllowlist = [],
             pl_SnapshotKey = ''''\<rparr>)]"
  using assms
  by (simp add: asked_def snd_grpcPlacer snd_httpPlacer client_PlaceSandbox_recorder NewClient_def
      decode_PlaceRequest utf8_PlaceRequest_def utf8_spec_def)

theorem placers_request_witness:
  "map (map_sum id pl_EgressAllowlist \<circ> snd)
     (asked (httpPlacer_PlaceSandbox (\<lambda>_. ''bad JSON'') recorder ''key'' 1) ''sb-1''
        (sample_host ''a'' (Fin 0) 0 True) sample_spec) = [Inr [''10.0.0.0/8'']] \<and>
   map (map_sum id pl_EgressAllowlist \<circ> snd)
     (asked (grpcPlacer_PlaceSandbox (\<lambda>_. ''bad JSON'') recorder ''key'' 1) ''sb-1''
        (sample_host ''a'' (Fin 0) 0 True) sample_spec) = [Inr []]"
proof -
  have "utf8_spec ''sb-1'' sample_spec"
    by (simp add: utf8_spec_def sample_spec_def is_utf8_ascii in_bytes_def)
  from placers_request [OF this, of "\<lambda>_. ''bad JSON''" "''key''" 1
      "sample_host ''a'' (Fin 0) 0 True"]
  show ?thesis by (simp add: sample_spec_def)
qed

end
