(* ===== verification/ApiServer.thy ===== *)
theory ApiServer
  imports ApiScheduler Quota
begin

text \<open>
  \<^verbatim>\<open>cmd/api/handlers.go\<close>: the HTTP handlers of the API server, their routes, and the in-process
  implementation of the interface \<^verbatim>\<open>OrchestratorClient\<close>. A handler maps a request and the server's
  state to a response, or to the panic that net/http recovers from, and the new state. Clock
  readings, UUIDs, the iteration order of the store's map, the network and the text of decoding
  errors and times are arguments. Tracing and logging do not affect the result and are left out.
\<close>

section \<open>Requests, responses, state\<close>

record api_request =
  ar_Method :: string
  ar_Path :: string
  ar_Authorization :: string
  ar_Body :: body

datatype api_response = JsonReply int json | EmptyReply int | TextReply int string

record 'w ApiState =
  a_store :: Store
  a_sched :: Scheduler
  a_quota :: MemoryStore
  a_world :: 'w

record apiServer =
  ap_defaultQuotaLimit :: int
  ap_jwtSecret :: string

definition writeJSON :: "int \<Rightarrow> json \<Rightarrow> api_response" where
  "writeJSON code v = JsonReply code v"

definition writeError :: "int \<Rightarrow> string \<Rightarrow> api_response" where
  "writeError code msg = writeJSON code (JObj [(''error'', j_str msg)])"

text \<open>The text of a store's error; the arrow is the three bytes of U+2192.\<close>

definition arrow :: string where
  "arrow = '' '' @ map char_of [0xE2, 0x86, 0x92 :: nat] @ '' ''"

fun state_error_msg :: "state_error \<Rightarrow> string" where
  "state_error_msg (UnknownSourceState s) = ''state: unknown source state '' @ [CHR 0x22] @ s @ [CHR 0x22]"
| "state_error_msg (IllegalTransition s t) = ''state: illegal transition '' @ s @ arrow @ t"
| "state_error_msg (AlreadyExists i) = ''state: sandbox '' @ i @ '' already exists''"
| "state_error_msg (NotFound i) = ''state: sandbox '' @ i @ '' not found''"
| "state_error_msg (WrongState i s t) = ''state: sandbox '' @ i @ '' is in '' @ s @ '', expected '' @ t"

section \<open>The JSON form of the API's types\<close>

definition zero_SandboxSpec :: SandboxSpec where
  "zero_SandboxSpec = \<lparr>sp_Image = '''', sp_CPUMillis = 0, sp_MemoryMiB = 0, sp_TimeoutMs = 0,
     sp_EgressAllowlist = [], sp_TenantID = ''''\<rparr>"

text \<open>The tenant is not decoded: its tag is \<^verbatim>\<open>json:"-"\<close>.\<close>

definition SandboxSpec_fields :: "SandboxSpec field list" where
  "SandboxSpec_fields =
     [f_str ''image'' (\<lambda>x. sp_Image_update (\<lambda>_. x)),
      f_u32 ''cpu_millis'' (\<lambda>x. sp_CPUMillis_update (\<lambda>_. x)),
      f_u32 ''memory_mib'' (\<lambda>x. sp_MemoryMiB_update (\<lambda>_. x)),
      f_u32 ''timeout_ms'' (\<lambda>x. sp_TimeoutMs_update (\<lambda>_. x)),
      f_strs ''egress_allowlist'' (\<lambda>x. sp_EgressAllowlist_update (\<lambda>_. x))]"

definition zero_SpecExecRequest :: SpecExecRequest where
  "zero_SpecExecRequest = \<lparr>x_SandboxID = '''', x_Command = '''', x_Stdin = '''', x_TimeoutMs = 0\<rparr>"

definition SpecExecRequest_fields :: "SpecExecRequest field list" where
  "SpecExecRequest_fields =
     [f_str ''sandbox_id'' (\<lambda>x. x_SandboxID_update (\<lambda>_. x)),
      f_str ''command'' (\<lambda>x. x_Command_update (\<lambda>_. x)),
      f_str ''stdin'' (\<lambda>x. x_Stdin_update (\<lambda>_. x)),
      f_u32 ''timeout_ms'' (\<lambda>x. x_TimeoutMs_update (\<lambda>_. x))]"

definition enc_SandboxRecord :: "(time \<Rightarrow> string) \<Rightarrow> SandboxRecord \<Rightarrow> json" where
  "enc_SandboxRecord jtime r = JObj
     ([(''id'', j_str (r_ID r)), (''tenant_id'', j_str (r_TenantID r)),
       (''state'', j_str (r_State r))] @
      omit_str ''host_id'' (r_HostID r) @
      (if r_VsockCID r = 0 then [] else [(''vsock_cid'', j_u32 (r_VsockCID r))]) @
      omit_str ''vm_agent_socket'' (r_VMAgentSocket r) @
      [(''created_at'', JStr (jtime (r_CreatedAt r))),
       (''updated_at'', JStr (jtime (r_UpdatedAt r)))] @
      omit_str ''fail_reason'' (r_FailReason r))"

definition enc_SpecExecResult :: "SpecExecResult \<Rightarrow> json" where
  "enc_SpecExecResult r = JObj
     [(''stdout'', j_str (xr_Stdout r)), (''stderr'', j_str (xr_Stderr r)),
      (''exit_code'', j_int (xr_ExitCode r)), (''duration_ms'', j_int (xr_DurationMs r))]"

section \<open>Authentication\<close>

text \<open>A refusal, or the tenant; the slice \<^verbatim>\<open>token[:8]\<close> panics on a shorter token.\<close>

definition authenticate ::
  "apiServer \<Rightarrow> api_request \<Rightarrow> go_panic + api_response + string" where
  "authenticate a r =
     (let auth = ar_Authorization r
      in if \<not> has_prefix auth ''Bearer ''
         then Inr (Inl (writeError 401 ''missing or invalid Authorization header''))
         else let token = trim_prefix auth ''Bearer ''
              in if token \<noteq> ap_jwtSecret a then Inr (Inl (writeError 401 ''invalid token''))
                 else case slice_to token 8 of
                        Inl p \<Rightarrow> Inl p
                      | Inr t \<Rightarrow> Inr (Inr (''ten-'' @ t)))"

text \<open>Every handler starts with it and returns when it refuses.\<close>

type_synonym 's handled = "(go_panic + api_response) \<times> 's"

definition authenticated ::
  "apiServer \<Rightarrow> api_request \<Rightarrow> 's \<Rightarrow> (string \<Rightarrow> 's handled) \<Rightarrow> 's handled" where
  "authenticated a r s k =
     (case authenticate a r of
        Inl p \<Rightarrow> (Inl p, s)
      | Inr (Inl resp) \<Rightarrow> (Inr resp, s)
      | Inr (Inr tenantID) \<Rightarrow> k tenantID)"

definition pathID :: "api_request \<Rightarrow> string" where
  "pathID r =
     (case split_on (CHR ''/'') (trim_prefix (ar_Path r) ''/v1/sandboxes/'') of
        [] \<Rightarrow> '''' | p # _ \<Rightarrow> p)"

section \<open>The interface to the orchestrator\<close>

text \<open>
  \<open>submit\<close>, \<open>terminate\<close> and \<open>exec\<close> of \<^verbatim>\<open>OrchestratorClient\<close> and what the handlers rely on: a
  submission that succeeds creates exactly one record, queued, of the caller's tenant; one that
  fails creates none; terminating touches no other sandbox and moves the one named along the
  graph; running a command changes nothing but the outside world; none of them touches a quota.
\<close>

locale orchestrator_client =
  fixes submit :: "SandboxSpec \<Rightarrow> 'w ApiState \<Rightarrow> (go_panic + string + string) \<times> 'w ApiState"
    and terminate :: "string \<Rightarrow> string \<Rightarrow> 'w ApiState \<Rightarrow> (string + unit) \<times> 'w ApiState"
    and exec :: "SpecExecRequest \<Rightarrow> 'w ApiState \<Rightarrow> (string + SpecExecResult) \<times> 'w ApiState"
  assumes submit_created: "fst (submit sp s) = Inr (Inr i) \<Longrightarrow> a_store s i = None \<and>
        (\<exists>r. a_store (snd (submit sp s)) = (a_store s)(i \<mapsto> r) \<and> r_ID r = i \<and>
             r_TenantID r = sp_TenantID sp \<and> r_State r = StateQueued)"
    and submit_failed: "(\<nexists>i. fst (submit sp s) = Inr (Inr i)) \<Longrightarrow> snd (submit sp s) = s"
    and submit_quota: "a_quota (snd (submit sp s)) = a_quota s"
    and terminate_other: "j \<noteq> i \<Longrightarrow> a_store (snd (terminate i why s)) j = a_store s j"
    and terminate_evolves: "a_store s i = Some r \<Longrightarrow>
        \<exists>r'. a_store (snd (terminate i why s)) i = Some r' \<and> evolves r r'"
    and terminate_none: "a_store s i = None \<Longrightarrow> a_store (snd (terminate i why s)) i = None"
    and terminate_quota: "a_quota (snd (terminate i why s)) = a_quota s"
    and exec_state: "a_store (snd (exec req s)) = a_store s \<and> a_sched (snd (exec req s)) = a_sched s \<and>
        a_quota (snd (exec req s)) = a_quota s"

section \<open>The handlers\<close>

definition handleCreateSandbox ::
  "(json_error \<Rightarrow> string) \<Rightarrow> (time \<Rightarrow> string) \<Rightarrow> apiServer \<Rightarrow>
   (SandboxSpec \<Rightarrow> 'w ApiState \<Rightarrow> (go_panic + string + string) \<times> 'w ApiState) \<Rightarrow>
   api_request \<Rightarrow> 'w ApiState \<Rightarrow> 'w ApiState handled" where
  "handleCreateSandbox jerr jtime a submit r s =
     authenticated a r s (\<lambda>tenantID.
       case json_decode SandboxSpec_fields zero_SandboxSpec (ar_Body r) of
         Inl e \<Rightarrow> (Inr (writeError 400 (''invalid request body: '' @ jerr e)), s)
       | Inr sp0 \<Rightarrow>
           let sp = sp0\<lparr>sp_TenantID := tenantID\<rparr>
           in case spec_Validate sp of
                Inl e \<Rightarrow> (Inr (writeError 400 e), s)
              | Inr _ \<Rightarrow>
                  let limit = (if ap_defaultQuotaLimit a \<le> 0 then 20 else ap_defaultQuotaLimit a)
                  in case quota_Acquire tenantID limit (a_quota s) of
                       (Inl e, q) \<Rightarrow>
                         (Inr (writeError 429 (''quota exceeded: '' @ quota_error_msg e)),
                          s\<lparr>a_quota := q\<rparr>)
                     | (Inr _, q) \<Rightarrow>
                         (case submit sp (s\<lparr>a_quota := q\<rparr>) of
                            (Inl p, s1) \<Rightarrow> (Inl p, s1)
                          | (Inr (Inl e), s1) \<Rightarrow>
                              (Inr (writeError 500 ''could not create sandbox''), s1)
                          | (Inr (Inr sandboxID), s1) \<Rightarrow>
                              (Inr (writeJSON 201
                                 (case store_Get sandboxID (a_store s1) of
                                    Inl _ \<Rightarrow> JNull
                                  | Inr rec \<Rightarrow> enc_SandboxRecord jtime rec)), s1)))"

definition handleGetSandbox ::
  "(time \<Rightarrow> string) \<Rightarrow> apiServer \<Rightarrow> api_request \<Rightarrow> 'w ApiState \<Rightarrow> 'w ApiState handled" where
  "handleGetSandbox jtime a r s =
     authenticated a r s (\<lambda>_.
       case store_Get (pathID r) (a_store s) of
         Inl _ \<Rightarrow> (Inr (writeError 404 ''sandbox not found''), s)
       | Inr rec \<Rightarrow> (Inr (writeJSON 200 (enc_SandboxRecord jtime rec)), s))"

definition handleDeleteSandbox ::
  "apiServer \<Rightarrow> (string \<Rightarrow> string \<Rightarrow> 'w ApiState \<Rightarrow> (string + unit) \<times> 'w ApiState) \<Rightarrow>
   api_request \<Rightarrow> 'w ApiState \<Rightarrow> 'w ApiState handled" where
  "handleDeleteSandbox a terminate r s =
     authenticated a r s (\<lambda>tenantID.
       let sandboxID = pathID r
       in case store_Get sandboxID (a_store s) of
            Inl _ \<Rightarrow> (Inr (writeError 404 ''sandbox not found''), s)
          | Inr rec \<Rightarrow>
              if r_TenantID rec \<noteq> tenantID
              then (Inr (writeError 403 ''not your sandbox''), s)
              else case terminate sandboxID ''client requested kill'' s of
                     (Inl e, s1) \<Rightarrow> (Inr (writeError 500 ''could not kill sandbox''), s1)
                   | (Inr _, s1) \<Rightarrow>
                       (Inr (EmptyReply 204),
                        s1\<lparr>a_quota := quota_Release (r_TenantID rec) (a_quota s1)\<rparr>))"

definition handleExec ::
  "(json_error \<Rightarrow> string) \<Rightarrow> apiServer \<Rightarrow>
   (SpecExecRequest \<Rightarrow> 'w ApiState \<Rightarrow> (string + SpecExecResult) \<times> 'w ApiState) \<Rightarrow>
   api_request \<Rightarrow> 'w ApiState \<Rightarrow> 'w ApiState handled" where
  "handleExec jerr a exec r s =
     authenticated a r s (\<lambda>tenantID.
       let sandboxID = pathID r
       in case store_Get sandboxID (a_store s) of
            Inl _ \<Rightarrow> (Inr (writeError 404 ''sandbox not found''), s)
          | Inr rec \<Rightarrow>
              if r_TenantID rec \<noteq> tenantID
              then (Inr (writeError 403 ''not your sandbox''), s)
              else if r_State rec \<noteq> StateRunning
              then (Inr (writeError 409 (''sandbox is not in running state: '' @ r_State rec)), s)
              else case json_decode SpecExecRequest_fields zero_SpecExecRequest (ar_Body r) of
                     Inl e \<Rightarrow> (Inr (writeError 400 (''invalid exec body: '' @ jerr e)), s)
                   | Inr x0 \<Rightarrow>
                       let x1 = x0\<lparr>x_SandboxID := sandboxID\<rparr>;
                           x2 = (if x_TimeoutMs x1 = 0 then x1\<lparr>x_TimeoutMs := 30000\<rparr> else x1)
                       in case exec x2 s of
                            (Inl e, s1) \<Rightarrow> (Inr (writeError 500 (''exec error: '' @ e)), s1)
                          | (Inr res, s1) \<Rightarrow>
                              (Inr (writeJSON 200 (enc_SpecExecResult res)), s1))"

text \<open>A slice that was never appended to is encoded as \<^verbatim>\<open>null\<close>; the keys of a map are sorted.\<close>

definition handleListSandboxes ::
  "(time \<Rightarrow> string) \<Rightarrow> string list \<Rightarrow> apiServer \<Rightarrow> api_request \<Rightarrow> 'w ApiState \<Rightarrow>
   'w ApiState handled" where
  "handleListSandboxes jtime ord a r s =
     authenticated a r s (\<lambda>tenantID.
       let records = store_List ord tenantID (a_store s)
       in (Inr (writeJSON 200 (JObj
             [(''count'', j_int (int (length records))),
              (''sandboxes'',
               if records = [] then JNull else JArr (map (enc_SandboxRecord jtime) records))])), s))"

definition handleHealth :: "time \<Rightarrow> 's \<Rightarrow> 's handled" where
  "handleHealth now s =
     (Inr (writeJSON 200 (JObj [(''status'', JStr ''ok''), (''ts'', j_int (now div 1000000000))])), s)"

section \<open>The routes\<close>

text \<open>
  \<^verbatim>\<open>registerRoutes\<close> on a \<^verbatim>\<open>ServeMux\<close>: a pattern \<^verbatim>\<open>GET\<close> also serves \<^verbatim>\<open>HEAD\<close>, a pattern that ends in a
  slash serves every path below it, a known path with another method is answered 405, an unknown
  path 404. Paths are in canonical form here: the mux redirects the others before it looks for a
  handler.
\<close>

datatype route = RHealth | RList | RCreate | RGet | RExec | RDelete | RNotFound | RMethod

definition is_get :: "string \<Rightarrow> bool" where
  "is_get m \<longleftrightarrow> m = ''GET'' \<or> m = ''HEAD''"

definition route_of :: "string \<Rightarrow> string \<Rightarrow> route" where
  "route_of m path =
     (if path = ''/healthz'' then (if is_get m then RHealth else RMethod)
      else if path = ''/v1/sandboxes''
      then (if is_get m then RList else if m = ''POST'' then RCreate else RMethod)
      else if has_prefix path ''/v1/sandboxes/''
      then (if is_get m
            then (if has_suffix path ''/exec'' \<and> m = ''POST'' then RExec else RGet)
            else if m = ''DELETE'' then RDelete
            else if m = ''POST'' then (if has_suffix path ''/exec'' then RExec else RNotFound)
            else RMethod)
      else RNotFound)"

text \<open>What a request meets: the clock, the order of the store's map.\<close>

definition api_serve ::
  "(json_error \<Rightarrow> string) \<Rightarrow> (time \<Rightarrow> string) \<Rightarrow> apiServer \<Rightarrow>
   (SandboxSpec \<Rightarrow> 'w ApiState \<Rightarrow> (go_panic + string + string) \<times> 'w ApiState) \<Rightarrow>
   (string \<Rightarrow> string \<Rightarrow> 'w ApiState \<Rightarrow> (string + unit) \<times> 'w ApiState) \<Rightarrow>
   (SpecExecRequest \<Rightarrow> 'w ApiState \<Rightarrow> (string + SpecExecResult) \<times> 'w ApiState) \<Rightarrow>
   time \<Rightarrow> string list \<Rightarrow> api_request \<Rightarrow> 'w ApiState \<Rightarrow> 'w ApiState handled" where
  "api_serve jerr jtime a submit terminate exec now ord r s =
     (case route_of (ar_Method r) (ar_Path r) of
        RHealth \<Rightarrow> handleHealth now s
      | RList \<Rightarrow> handleListSandboxes jtime ord a r s
      | RCreate \<Rightarrow> handleCreateSandbox jerr jtime a submit r s
      | RGet \<Rightarrow> handleGetSandbox jtime a r s
      | RExec \<Rightarrow> handleExec jerr a exec r s
      | RDelete \<Rightarrow> handleDeleteSandbox a terminate r s
      | RNotFound \<Rightarrow> (Inr (TextReply 404 ''404 page not found''), s)
      | RMethod \<Rightarrow> (Inr (TextReply 405 ''Method Not Allowed''), s))"

section \<open>The in-process orchestrator\<close>

definition orch_Submit ::
  "time \<Rightarrow> time \<Rightarrow> string \<Rightarrow> SandboxSpec \<Rightarrow> 'w ApiState \<Rightarrow>
   (go_panic + string + string) \<times> 'w ApiState" where
  "orch_Submit now nowE uuid sp s =
     (case NewSandbox uuid of
        Inl p \<Rightarrow> (Inl p, s)
      | Inr sandboxID \<Rightarrow>
          (case store_Create now
                  (zero_record\<lparr>r_ID := sandboxID, r_TenantID := sp_TenantID sp\<rparr>) (a_store s) of
             (Inl e, _) \<Rightarrow> (Inr (Inl (state_error_msg e)), s)
           | (Inr _, st) \<Rightarrow>
               (Inr (Inr sandboxID),
                s\<lparr>a_store := st,
                  a_sched := api_Enqueue nowE sandboxID sp (sp_TimeoutMs sp) (a_sched s)\<rparr>)))"

text \<open>The answer of the host agent to \<^verbatim>\<open>TerminateSandbox\<close> is ignored.\<close>

definition orch_Terminate ::
  "(json_error \<Rightarrow> string) \<Rightarrow> 'w transport \<Rightarrow> string \<Rightarrow> time \<Rightarrow> string \<Rightarrow> string \<Rightarrow>
   'w ApiState \<Rightarrow> (string + unit) \<times> 'w ApiState" where
  "orch_Terminate jerr tr agentSecret now sandboxID reason s =
     (case store_Get sandboxID (a_store s) of
        Inl e \<Rightarrow> (Inl (state_error_msg e), s)
      | Inr rec \<Rightarrow>
          if IsTerminal (r_State rec) then (Inr (), s)
          else
            let s1 = (if r_HostID rec \<noteq> ''''
                      then (case s_hosts (a_sched s) (r_HostID rec) of
                              None \<Rightarrow> s
                            | Some host \<Rightarrow>
                                s\<lparr>a_world := snd (client_TerminateSandbox jerr tr
                                    (NewClient (''http://'' @ h_Addr host) agentSecret)
                                    \<lparr>tm_SandboxID = sandboxID, tm_Reason = reason\<rparr> (a_world s))\<rparr>)
                      else s)
            in case store_Transition now sandboxID (r_State rec) StateDraining reason (a_store s1) of
                 (Inl e, st) \<Rightarrow> (Inl (state_error_msg e), s1\<lparr>a_store := st\<rparr>)
               | (Inr _, st) \<Rightarrow> (Inr (), s1\<lparr>a_store := st\<rparr>))"

definition orch_Exec ::
  "(json_error \<Rightarrow> string) \<Rightarrow> 'w transport \<Rightarrow> string \<Rightarrow> SpecExecRequest \<Rightarrow> 'w ApiState \<Rightarrow>
   (string + SpecExecResult) \<times> 'w ApiState" where
  "orch_Exec jerr tr agentSecret req s =
     (case store_Get (x_SandboxID req) (a_store s) of
        Inl e \<Rightarrow> (Inl (state_error_msg e), s)
      | Inr rec \<Rightarrow>
          if r_State rec \<noteq> StateRunning
          then (Inl (''sandbox '' @ x_SandboxID req @ '' is not running (state='' @ r_State rec @
                     '')''), s)
          else if r_HostID rec = ''''
          then (Inl (''sandbox '' @ x_SandboxID req @ '' has no assigned host''), s)
          else case s_hosts (a_sched s) (r_HostID rec) of
                 None \<Rightarrow> (Inl (''host '' @ r_HostID rec @ '' not found in registry''), s)
               | Some host \<Rightarrow>
                   let timeoutMs = (if x_TimeoutMs req = 0 then 30000 else x_TimeoutMs req)
                   in case client_ExecInSandbox jerr tr
                             (NewClient (''http://'' @ h_Addr host) agentSecret)
                             \<lparr>ex_SandboxID = x_SandboxID req, ex_Command = x_Command req,
                              ex_Stdin = x_Stdin req, ex_TimeoutMs = timeoutMs\<rparr> (a_world s) of
                        (Inl e, w) \<Rightarrow> (Inl (''exec in sandbox: '' @ e), s\<lparr>a_world := w\<rparr>)
                      | (Inr resp, w) \<Rightarrow>
                          (Inr \<lparr>xr_Stdout = exr_Stdout resp, xr_Stderr = exr_Stderr resp,
                                xr_ExitCode = exr_ExitCode resp,
                                xr_DurationMs = exr_DurationMs resp\<rparr>, s\<lparr>a_world := w\<rparr>))"

section \<open>What the handlers keep\<close>

text \<open>The records and the quotas of other tenants are as they were.\<close>

definition foreign_kept :: "string \<Rightarrow> 'w ApiState \<Rightarrow> 'w ApiState \<Rightarrow> bool" where
  "foreign_kept t s s' \<longleftrightarrow>
     (\<forall>j r. a_store s j = Some r \<and> r_TenantID r \<noteq> t \<longrightarrow> a_store s' j = Some r) \<and>
     (\<forall>u. u \<noteq> t \<longrightarrow> quota_Current u (a_quota s') = quota_Current u (a_quota s))"

lemma foreign_kept_refl [simp]: "foreign_kept t s s"
  by (simp add: foreign_kept_def)

lemma quota_Acquire_other: "u \<noteq> t \<Longrightarrow> quota_Current u (snd (quota_Acquire t l q)) = quota_Current u q"
  by (simp add: mq.acquire_current)

lemma quota_Release_other: "u \<noteq> t \<Longrightarrow> quota_Current u (quota_Release t q) = quota_Current u q"
  by (simp add: mq.release_current)

definition authenticated_route :: "route \<Rightarrow> bool" where
  "authenticated_route rt \<longleftrightarrow> rt \<notin> {RHealth, RNotFound, RMethod}"

context orchestrator_client
begin

lemma create_isolates:
  assumes "authenticate a r = Inr (Inr t)"
  shows "foreign_kept t s (snd (handleCreateSandbox jerr jtime a submit r s))"
proof -
  let ?limit = "if ap_defaultQuotaLimit a \<le> 0 then 20 else ap_defaultQuotaLimit a"
  let ?s = "s\<lparr>a_quota := snd (quota_Acquire t ?limit (a_quota s))\<rparr>"
  have sub: "foreign_kept t s (snd (submit sp ?s))" if "sp_TenantID sp = t" for sp
  proof (cases "\<exists>i. fst (submit sp ?s) = Inr (Inr i)")
    case True
    then obtain i where "fst (submit sp ?s) = Inr (Inr i)" by blast
    from submit_created [OF this] submit_quota [of sp ?s] show ?thesis
      by (auto simp: foreign_kept_def quota_Acquire_other)
  next
    case False
    from submit_failed [OF this] show ?thesis by (auto simp: foreign_kept_def quota_Acquire_other)
  qed
  have acq: "foreign_kept t s ?s" by (simp add: foreign_kept_def quota_Acquire_other)
  have sub': "foreign_kept t s s'" if "quota_Acquire t ?limit (a_quota s) = (x, q)"
    "submit sp (s\<lparr>a_quota := q\<rparr>) = (y, s')" "sp_TenantID sp = t" for x q sp y s'
    using sub [OF that(3)] that(1,2) by simp
  have acq': "foreign_kept t s (s\<lparr>a_quota := q\<rparr>)"
    if "quota_Acquire t ?limit (a_quota s) = (x, q)" for x q
    using acq that by simp
  show ?thesis
    unfolding handleCreateSandbox_def authenticated_def
    by (auto simp: assms Let_def split: sum.splits prod.splits intro: sub' acq')
qed

lemma delete_isolates:
  assumes "authenticate a r = Inr (Inr t)"
  shows "foreign_kept t s (snd (handleDeleteSandbox a terminate r s))"
proof -
  have kept: "foreign_kept t s (snd (terminate i why s))"
    if own: "a_store s i = Some rec" "r_TenantID rec = t" for i why rec
  proof -
    have "a_store (snd (terminate i why s)) j = Some x"
      if "a_store s j = Some x" "r_TenantID x \<noteq> t" for j x
      using that own terminate_other [of j i why s] by (cases "j = i") auto
    then show ?thesis using terminate_quota [of i why s] by (simp add: foreign_kept_def)
  qed
  have freed: "foreign_kept t s (s1\<lparr>a_quota := quota_Release t (a_quota s1)\<rparr>)"
    if "foreign_kept t s s1" for s1
    using that by (simp add: foreign_kept_def quota_Release_other)
  show ?thesis
  proof (cases "a_store s (pathID r)")
    case None
    then show ?thesis by (simp add: handleDeleteSandbox_def authenticated_def assms store_Get_def)
  next
    case (Some rec)
    obtain x s1 where t: "terminate (pathID r) ''client requested kill'' s = (x, s1)"
      by (meson prod.exhaust)
    show ?thesis
    proof (cases "r_TenantID rec = t")
      case True
      with kept [OF Some True] freed t have
        "foreign_kept t s s1" "foreign_kept t s (s1\<lparr>a_quota := quota_Release t (a_quota s1)\<rparr>)"
        by (metis snd_conv)+
      with Some True show ?thesis
        by (simp add: handleDeleteSandbox_def authenticated_def assms store_Get_def t [simplified]
            split: sum.split)
    qed (simp add: handleDeleteSandbox_def authenticated_def assms store_Get_def Some)
  qed
qed

lemma exec_isolates: "foreign_kept t s (snd (handleExec jerr a exec r s))"
proof -
  have "foreign_kept t s s'" if "exec x s = (y, s')" for x y s'
    using exec_state [of x s] that by (simp add: foreign_kept_def)
  then show ?thesis
    unfolding handleExec_def authenticated_def
    by (auto simp: Let_def split: sum.splits prod.splits)
qed

lemma serve_isolates:
  assumes "authenticate a r = Inr (Inr t)"
  shows "foreign_kept t s (snd (api_serve jerr jtime a submit terminate exec now ord r s))"
proof -
  have "foreign_kept t s (snd (handleListSandboxes jtime ord a r s))"
    "foreign_kept t s (snd (handleGetSandbox jtime a r s))"
    by (simp_all add: handleListSandboxes_def handleGetSandbox_def authenticated_def assms Let_def
        split: sum.splits)
  with create_isolates [OF assms] delete_isolates [OF assms] exec_isolates show ?thesis
    by (simp add: api_serve_def handleHealth_def split: route.split)
qed

end

lemma orch_Terminate_store:
  "a_store (snd (orch_Terminate jerr tr secret now i why s)) =
     (case a_store s i of
        None \<Rightarrow> a_store s
      | Some r \<Rightarrow>
          if IsTerminal (r_State r) then a_store s
          else snd (store_Transition now i (r_State r) StateDraining why (a_store s)))"
  by (auto simp: orch_Terminate_def store_Get_def Let_def split: option.split sum.split prod.split)

lemma store_Transition_other:
  "j \<noteq> i \<Longrightarrow> snd (store_Transition now i cur new why st) j = st j"
  by (auto simp: store_Transition_cases split: option.split)

interpretation oc: orchestrator_client "orch_Submit now nowE uuid" "orch_Terminate jerr tr secret nowT"
    "orch_Exec jerr tr secret"
  for now nowE uuid nowT secret and jerr :: "json_error \<Rightarrow> string" and tr :: "'w transport"
proof unfold_locales
  fix sp and s :: "'w ApiState" and i
  show "fst (orch_Submit now nowE uuid sp s) = Inr (Inr i) \<Longrightarrow> a_store s i = None \<and>
      (\<exists>r. a_store (snd (orch_Submit now nowE uuid sp s)) = (a_store s)(i \<mapsto> r) \<and> r_ID r = i \<and>
           r_TenantID r = sp_TenantID sp \<and> r_State r = StateQueued)"
    by (auto simp: orch_Submit_def store_Create_def split: sum.splits option.splits)
  show "\<nexists>i. fst (orch_Submit now nowE uuid sp s) = Inr (Inr i) \<Longrightarrow>
      snd (orch_Submit now nowE uuid sp s) = s"
    by (auto simp: orch_Submit_def store_Create_def split: sum.splits option.splits)
  show "a_quota (snd (orch_Submit now nowE uuid sp s)) = a_quota s"
    by (auto simp: orch_Submit_def store_Create_def split: sum.splits option.splits)
next
  fix i j why and s :: "'w ApiState" and r
  let ?t = "orch_Terminate jerr tr secret nowT i why s"
  show "j \<noteq> i \<Longrightarrow> a_store (snd ?t) j = a_store s j"
    by (simp add: orch_Terminate_store store_Transition_other split: option.split)
  show "a_store s i = None \<Longrightarrow> a_store (snd ?t) i = None"
    by (simp add: orch_Terminate_store)
  show "a_quota (snd ?t) = a_quota s"
    by (auto simp: orch_Terminate_def store_Get_def Let_def split: option.split sum.split prod.split)
  show "a_store s i = Some r \<Longrightarrow> \<exists>r'. a_store (snd ?t) i = Some r' \<and> evolves r r'"
    using store_step_evolves [of "a_store s" i r nowT "OpTransition i (r_State r) StateDraining why"]
    by (simp add: orch_Terminate_store)
next
  fix req and s :: "'w ApiState"
  show "a_store (snd (orch_Exec jerr tr secret req s)) = a_store s \<and>
      a_sched (snd (orch_Exec jerr tr secret req s)) = a_sched s \<and>
      a_quota (snd (orch_Exec jerr tr secret req s)) = a_quota s"
    by (auto simp: orch_Exec_def Let_def split: option.splits sum.splits prod.splits)
qed

section \<open>The server\<close>

text \<open>
  The server on the in-process orchestrator. The arguments of a request are collected in \<open>env\<close>: the
  clock readings of its store operations, the UUID drawn, the order of the store's map, and the
  network with the text of decoding errors and of times.
\<close>

record 'w env =
  e_jerr :: "json_error \<Rightarrow> string"
  e_jtime :: "time \<Rightarrow> string"
  e_transport :: "'w transport"
  e_agentSecret :: string
  e_now :: time
  e_nowEnqueue :: time
  e_nowTransition :: time
  e_uuid :: string
  e_ord :: "string list"

definition api_handle ::
  "'w env \<Rightarrow> apiServer \<Rightarrow> api_request \<Rightarrow> 'w ApiState \<Rightarrow> 'w ApiState handled" where
  "api_handle e a r s =
     api_serve (e_jerr e) (e_jtime e) a (orch_Submit (e_now e) (e_nowEnqueue e) (e_uuid e))
       (orch_Terminate (e_jerr e) (e_transport e) (e_agentSecret e) (e_nowTransition e))
       (orch_Exec (e_jerr e) (e_transport e) (e_agentSecret e)) (e_now e) (e_ord e) r s"

lemma authenticate_cases:
  "authenticate a r =
     (if ar_Authorization r = ''Bearer '' @ ap_jwtSecret a
      then (if length (ap_jwtSecret a) < 8 then Inl SliceOutOfRange
            else Inr (Inr (''ten-'' @ take 8 (ap_jwtSecret a))))
      else Inr (Inl (writeError 401
             (if has_prefix (ar_Authorization r) ''Bearer '' then ''invalid token''
              else ''missing or invalid Authorization header''))))"
proof (cases "has_prefix (ar_Authorization r) ''Bearer ''")
  case True
  then obtain token where "ar_Authorization r = ''Bearer '' @ token" by (auto simp: has_prefix_iff)
  then show ?thesis
    unfolding authenticate_def by (simp only: Let_def trim_prefix_append has_prefix_append
        slice_to_def not_True_eq_False if_False if_True same_append_eq) auto
next
  case False
  then have "ar_Authorization r \<noteq> ''Bearer '' @ ap_jwtSecret a" by (metis has_prefix_append)
  with False show ?thesis unfolding authenticate_def by (simp only: Let_def) simp
qed

lemma serve_refused:
  assumes "authenticated_route (route_of (ar_Method r) (ar_Path r))"
  shows "authenticate a r = Inl p \<Longrightarrow> api_serve jerr jtime a sub ter ex now ord r s = (Inl p, s)"
    and "authenticate a r = Inr (Inl resp) \<Longrightarrow>
         api_serve jerr jtime a sub ter ex now ord r s = (Inr resp, s)"
  using assms
  by (cases "route_of (ar_Method r) (ar_Path r)";
      simp add: api_serve_def authenticated_route_def handleListSandboxes_def handleGetSandbox_def
        handleCreateSandbox_def handleDeleteSandbox_def handleExec_def authenticated_def)+

text \<open>The world after the host agent was told to kill, if the record names a registered host.\<close>

definition told ::
  "(json_error \<Rightarrow> string) \<Rightarrow> 'w transport \<Rightarrow> string \<Rightarrow> string \<Rightarrow> string \<Rightarrow> SandboxRecord \<Rightarrow>
   'w ApiState \<Rightarrow> 'w" where
  "told jerr tr secret i why rec s =
     (case s_hosts (a_sched s) (r_HostID rec) of
        None \<Rightarrow> a_world s
      | Some host \<Rightarrow>
          if r_HostID rec = '''' then a_world s
          else snd (client_TerminateSandbox jerr tr (NewClient (''http://'' @ h_Addr host) secret)
                      \<lparr>tm_SandboxID = i, tm_Reason = why\<rparr> (a_world s)))"

lemma orch_Terminate_told:
  assumes "a_store s i = Some rec" and "\<not> IsTerminal (r_State rec)"
  shows "orch_Terminate jerr tr secret now i why s =
    (case store_Transition now i (r_State rec) StateDraining why (a_store s) of
       (Inl e, st) \<Rightarrow> (Inl (state_error_msg e), s\<lparr>a_world := told jerr tr secret i why rec s, a_store := st\<rparr>)
     | (Inr _, st) \<Rightarrow> (Inr (), s\<lparr>a_world := told jerr tr secret i why rec s, a_store := st\<rparr>))"
proof -
  have "(if r_HostID rec \<noteq> ''''
         then (case s_hosts (a_sched s) (r_HostID rec) of
                 None \<Rightarrow> s
               | Some host \<Rightarrow>
                   s\<lparr>a_world := snd (client_TerminateSandbox jerr tr
                       (NewClient (''http://'' @ h_Addr host) secret)
                       \<lparr>tm_SandboxID = i, tm_Reason = why\<rparr> (a_world s))\<rparr>)
         else s) = s\<lparr>a_world := told jerr tr secret i why rec s\<rparr>"
    by (simp add: told_def split: option.split)
  with assms show ?thesis
    unfolding orch_Terminate_def store_Get_def by (simp only: option.case sum.case if_False Let_def) simp
qed

lemma orch_Terminate_running:
  assumes "a_store s i = Some rec" and "r_State rec = StateRunning"
  shows "orch_Terminate jerr tr secret now i why s =
    (Inr (), s\<lparr>a_world := told jerr tr secret i why rec s,
               a_store := (a_store s)(i \<mapsto> moved now StateDraining why rec)\<rparr>)"
proof -
  have "\<not> IsTerminal (r_State rec)" using assms(2) by (simp add: terminal_iff)
  from orch_Terminate_told [OF assms(1) this] assms show ?thesis
    by (simp add: store_Transition_cases running_draining)
qed

lemma orch_Terminate_refused:
  assumes "a_store s i = Some rec" and "r_State rec \<noteq> StateRunning" and "\<not> IsTerminal (r_State rec)"
  shows "\<exists>m. orch_Terminate jerr tr secret now i why s =
    (Inl m, s\<lparr>a_world := told jerr tr secret i why rec s\<rparr>)"
proof -
  have "\<not> lifecycle (r_State rec) StateDraining" using assms(2) by (auto simp: lifecycle.simps)
  then obtain e where
    "store_Transition now i (r_State rec) StateDraining why (a_store s) = (Inl e, a_store s)"
    using assms(1)
    by (cases "r_State rec \<in> dom validTransitions") (simp_all add: store_Transition_cases)
  with orch_Terminate_told [OF assms(1,3)] show ?thesis by simp
qed

lemma serve_create:
  "route_of (ar_Method r) (ar_Path r) = RCreate \<Longrightarrow> api_handle e a r s =
   handleCreateSandbox (e_jerr e) (e_jtime e) a (orch_Submit (e_now e) (e_nowEnqueue e) (e_uuid e)) r s"
  by (simp add: api_handle_def api_serve_def)

lemma enqueued_requests:
  assumes "sched_reachable sc" and "s_placeCh sc \<le> 100"
  shows "requests (s_queue (api_Enqueue t i sp ms sc)) =
    add_mset \<lparr>i_sandboxID = i, i_spec = sp, i_deadline = t + uint ms * 1000000, i_priority = 1,
      i_index = 0\<rparr> (requests (s_queue sc))"
  using sched_reachable_queue_ok [OF assms(1)]
  by (simp add: api_Enqueue_eq [OF assms(2)] queue_Push_requests new_item_def request_def
      time_add_duration_ms)

lemma acquired:
  assumes "quota_Acquire t limit qs = (x, q)"
  shows "quota_Current t q = quota_Current t qs + (if quota_Current t qs < limit then 1 else 0)"
    and "x = Inr () \<longleftrightarrow> quota_Current t qs < limit"
  using mq.acquire_current [of t t limit qs] mq.acquire_ok [of t limit qs] assms by simp_all

text \<open>A server and a request for the examples.\<close>

definition sample_server :: apiServer where
  "sample_server = \<lparr>ap_defaultQuotaLimit = 20, ap_jwtSecret = ''0123456789abcdef''\<rparr>"

definition sample_env :: "unit env" where
  "sample_env = \<lparr>e_jerr = (\<lambda>_. ''invalid JSON''), e_jtime = (\<lambda>_. ''2024-01-01T00:00:00Z''),
     e_transport = (\<lambda>_ w. (Inl (NoAnswer ''connection refused''), w)), e_agentSecret = ''key'',
     e_now = 1, e_nowEnqueue = 2, e_nowTransition = 3,
     e_uuid = ''0a1b2c3d-4e5f-4071-8293-a4b5c6d7e8f9'', e_ord = []\<rparr>"

definition sample_request :: "string \<Rightarrow> string \<Rightarrow> body \<Rightarrow> api_request" where
  "sample_request m path b = \<lparr>ar_Method = m, ar_Path = path,
     ar_Authorization = ''Bearer 0123456789abcdef'', ar_Body = b\<rparr>"

definition sample_state :: "Store \<Rightarrow> unit ApiState" where
  "sample_state st =
     \<lparr>a_store = st, a_sched = NewScheduler, a_quota = NewMemoryStore, a_world = ()\<rparr>"

lemmas sample_defs = sample_server_def sample_env_def sample_request_def sample_state_def

section \<open>Properties\<close>

text \<open>
  C28: every sandbox route is behind the shared secret. A request whose Authorization header is not
  \<^verbatim>\<open>Bearer\<close> and exactly the secret gets 401 and changes nothing; one that has it acts as the one
  tenant named after the first eight bytes of the secret, unless the secret is shorter than eight
  bytes: then the handler panics on every such request.
\<close>

theorem api_authentication:
  assumes "authenticated_route (route_of (ar_Method r) (ar_Path r))"
  shows "(ar_Authorization r \<noteq> ''Bearer '' @ ap_jwtSecret a \<longrightarrow>
            (\<exists>msg. api_handle e a r s = (Inr (JsonReply 401 (JObj [(''error'', msg)])), s))) \<and>
         (ar_Authorization r = ''Bearer '' @ ap_jwtSecret a \<longrightarrow>
            (if length (ap_jwtSecret a) < 8 then api_handle e a r s = (Inl SliceOutOfRange, s)
             else authenticate a r = Inr (Inr (''ten-'' @ take 8 (ap_jwtSecret a)))))"
proof (intro conjI impI)
  assume "ar_Authorization r \<noteq> ''Bearer '' @ ap_jwtSecret a"
  then obtain m where "authenticate a r = Inr (Inl (JsonReply 401 (JObj [(''error'', m)])))"
    unfolding authenticate_cases writeError_def writeJSON_def by (simp only: if_False)
  from serve_refused(2) [OF assms this]
  show "\<exists>msg. api_handle e a r s = (Inr (JsonReply 401 (JObj [(''error'', msg)])), s)"
    unfolding api_handle_def by blast
next
  assume auth: "ar_Authorization r = ''Bearer '' @ ap_jwtSecret a"
  show "if length (ap_jwtSecret a) < 8 then api_handle e a r s = (Inl SliceOutOfRange, s)
        else authenticate a r = Inr (Inr (''ten-'' @ take 8 (ap_jwtSecret a)))"
  proof (cases "length (ap_jwtSecret a) < 8")
    case True
    with auth have "authenticate a r = Inl SliceOutOfRange"
      unfolding authenticate_cases by (simp only: if_True simp_thms)
    from serve_refused(1) [OF assms this] True show ?thesis unfolding api_handle_def by simp
  next
    case False
    with auth show ?thesis unfolding authenticate_cases by (simp only: if_True if_False simp_thms)
  qed
qed

theorem api_authentication_witness:
  "api_handle sample_env (sample_server\<lparr>ap_jwtSecret := ''dev''\<rparr>)
     (sample_request ''GET'' ''/v1/sandboxes'' Malformed\<lparr>ar_Authorization := ''Bearer dev''\<rparr>)
     (sample_state NewStore) = (Inl SliceOutOfRange, sample_state NewStore)"
  using api_authentication [of "sample_request ''GET'' ''/v1/sandboxes'' Malformed
        \<lparr>ar_Authorization := ''Bearer dev''\<rparr>" "sample_server\<lparr>ap_jwtSecret := ''dev''\<rparr>" sample_env
        "sample_state NewStore"]
  by (simp add: sample_request_def sample_server_def route_of_def is_get_def authenticated_route_def)

text \<open>
  C5: a request cannot change what belongs to another tenant. Whatever it asks for, and whatever
  the network and the clock do, every record of another tenant stays as it was, and so does every
  other tenant's quota.
\<close>

theorem api_tenant_isolation:
  assumes "authenticate a r = Inr (Inr t)"
  shows "(\<forall>j rec. a_store s j = Some rec \<and> r_TenantID rec \<noteq> t \<longrightarrow>
            a_store (snd (api_handle e a r s)) j = Some rec) \<and>
         (\<forall>u. u \<noteq> t \<longrightarrow> quota_Current u (a_quota (snd (api_handle e a r s))) =
            quota_Current u (a_quota s))"
  using oc.serve_isolates [OF assms, where s = s, of "e_jerr e" "e_jtime e"]
  unfolding foreign_kept_def api_handle_def by blast

theorem api_tenant_isolation_witness:
  "a_store (snd (api_handle sample_env sample_server
       (sample_request ''DELETE'' ''/v1/sandboxes/sb-1'' Malformed)
       (sample_state [''sb-1'' \<mapsto> zero_record\<lparr>r_ID := ''sb-1'', r_TenantID := ''ten-b''\<rparr>]))) ''sb-1'' =
     Some (zero_record\<lparr>r_ID := ''sb-1'', r_TenantID := ''ten-b''\<rparr>)"
proof -
  let ?r = "sample_request ''DELETE'' ''/v1/sandboxes/sb-1'' Malformed"
  have "authenticate sample_server ?r = Inr (Inr ''ten-01234567'')"
    by (simp add: authenticate_cases sample_request_def sample_server_def)
  from api_tenant_isolation [OF this, of "sample_state
        [''sb-1'' \<mapsto> zero_record\<lparr>r_ID := ''sb-1'', r_TenantID := ''ten-b''\<rparr>]" sample_env]
  show ?thesis by (simp add: sample_state_def zero_record_def)
qed

text \<open>
  C13: what POST /v1/sandboxes does on every branch. A body that does not decode and a
  specification out of range get 400, a tenant at its limit 429, and none of these changes the
  store, the queue or a count. Otherwise the tenant's count goes up by one: with a fresh identifier
  the reply is 201, the store has one more record, queued and of the caller's tenant, and the queue
  one more request with the specification's timeout as deadline; with an identifier in use the reply
  is 500, no sandbox exists, and the count stays up.
\<close>

theorem api_create_outcome:
  assumes "authenticate a r = Inr (Inr t)" and "route_of (ar_Method r) (ar_Path r) = RCreate"
    and "sched_reachable (a_sched s)" and "s_placeCh (a_sched s) \<le> 100"
    and "NewSandbox (e_uuid e) = Inr i"
  shows "let limit = (if ap_defaultQuotaLimit a \<le> 0 then 20 else ap_defaultQuotaLimit a);
             (resp, s') = api_handle e a r s
         in case json_decode SandboxSpec_fields zero_SandboxSpec (ar_Body r) of
              Inl _ \<Rightarrow> (\<exists>m. resp = Inr (JsonReply 400 m)) \<and> s' = s
            | Inr sp \<Rightarrow>
                if \<not> spec_in_range sp then (\<exists>m. resp = Inr (JsonReply 400 m)) \<and> s' = s
                else a_world s' = a_world s \<and>
                  (if limit \<le> quota_Current t (a_quota s)
                   then (\<exists>m. resp = Inr (JsonReply 429 m)) \<and>
                        a_store s' = a_store s \<and> a_sched s' = a_sched s \<and>
                        quota_Current t (a_quota s') = quota_Current t (a_quota s)
                   else quota_Current t (a_quota s') = quota_Current t (a_quota s) + 1 \<and>
                     (if a_store s i = None
                      then (\<exists>m. resp = Inr (JsonReply 201 m)) \<and>
                           a_store s' = (a_store s)(i \<mapsto> zero_record\<lparr>r_ID := i, r_TenantID := t,
                             r_State := StateQueued, r_CreatedAt := e_now e, r_UpdatedAt := e_now e\<rparr>) \<and>
                           requests (s_queue (a_sched s')) =
                             add_mset \<lparr>i_sandboxID = i, i_spec = sp\<lparr>sp_TenantID := t\<rparr>,
                                i_deadline = e_nowEnqueue e + uint (sp_TimeoutMs sp) * 1000000,
                                i_priority = 1, i_index = 0\<rparr> (requests (s_queue (a_sched s)))
                      else (\<exists>m. resp = Inr (JsonReply 500 m)) \<and>
                           a_store s' = a_store s \<and> a_sched s' = a_sched s))"
proof (cases "json_decode SandboxSpec_fields zero_SandboxSpec (ar_Body r)")
  case (Inl x)
  with assms(1,2) show ?thesis
    by (simp add: api_handle_def api_serve_def handleCreateSandbox_def authenticated_def
        writeError_def writeJSON_def)
next
  case (Inr sp)
  let ?limit = "if ap_defaultQuotaLimit a \<le> 0 then 20 else ap_defaultQuotaLimit a"
  let ?sp = "sp\<lparr>sp_TenantID := t\<rparr>"
  obtain x q where q: "quota_Acquire t ?limit (a_quota s) = (x, q)" by (meson prod.exhaust)
  note count = acquired(1) [OF q] and ok = acquired(2) [OF q]
  have valid: "spec_Validate ?sp = Inr () \<longleftrightarrow> spec_in_range sp"
    by (simp add: spec_Validate_ok spec_in_range_def)
  note serve = serve_create [OF assms(2)]
  show ?thesis
  proof (cases "spec_in_range sp")
    case False
    then obtain m where "spec_Validate ?sp = Inl m" using valid by (cases "spec_Validate ?sp") auto
    with Inr False assms(1) show ?thesis
      by (simp add: serve handleCreateSandbox_def authenticated_def writeError_def writeJSON_def)
  next
    case True
    then have v: "spec_Validate ?sp = Inr ()" using valid by simp
    show ?thesis
    proof (cases x)
      case (Inl err)
      with ok have "?limit \<le> quota_Current t (a_quota s)" by auto
      with Inl Inr v q count True assms(1) show ?thesis
        by (simp add: serve handleCreateSandbox_def authenticated_def writeError_def writeJSON_def Let_def)
    next
      case x: (Inr u)
      with ok have lt: "quota_Current t (a_quota s) < ?limit" by simp
      note enq = enqueued_requests [OF assms(3,4), of "e_nowEnqueue e" i ?sp "sp_TimeoutMs sp"]
      from lt x Inr v q count True assms(1,5) enq show ?thesis
        by (cases "a_store s i")
          (simp_all add: serve handleCreateSandbox_def authenticated_def orch_Submit_def
            store_Create_def writeError_def writeJSON_def zero_record_def Let_def)
    qed
  qed
qed

text \<open>
  C14: what DELETE does on every branch. An unknown identifier gets 404 and another tenant's
  sandbox 403, without a change. A running sandbox moves to draining and a slot of the tenant is
  given back, once; a terminated or failed one gives a slot back again on every call; in any other
  state the reply is 500 and nothing changes, although the host agent was told to kill the sandbox
  when the record named a registered host.
\<close>

theorem api_delete_outcome:
  assumes "authenticate a r = Inr (Inr t)" and "route_of (ar_Method r) (ar_Path r) = RDelete"
  shows "let i = pathID r; (resp, s') = api_handle e a r s
         in case a_store s i of
              None \<Rightarrow> (\<exists>m. resp = Inr (JsonReply 404 m)) \<and> s' = s
            | Some rec \<Rightarrow>
                if r_TenantID rec \<noteq> t then (\<exists>m. resp = Inr (JsonReply 403 m)) \<and> s' = s
                else a_sched s' = a_sched s \<and>
                  (if IsTerminal (r_State rec)
                   then resp = Inr (EmptyReply 204) \<and>
                        s' = s\<lparr>a_quota := quota_Release t (a_quota s)\<rparr>
                   else a_world s' =
                          (case s_hosts (a_sched s) (r_HostID rec) of
                             None \<Rightarrow> a_world s
                           | Some host \<Rightarrow>
                               if r_HostID rec = '''' then a_world s
                               else snd (client_TerminateSandbox (e_jerr e) (e_transport e)
                                 (NewClient (''http://'' @ h_Addr host) (e_agentSecret e))
                                 \<lparr>tm_SandboxID = i, tm_Reason = ''client requested kill''\<rparr> (a_world s))) \<and>
                        (if r_State rec = StateRunning
                         then resp = Inr (EmptyReply 204) \<and>
                              a_store s' = (a_store s)(i \<mapsto> moved (e_nowTransition e) StateDraining
                                 ''client requested kill'' rec) \<and>
                              a_quota s' = quota_Release t (a_quota s)
                         else (\<exists>m. resp = Inr (JsonReply 500 m)) \<and>
                              a_store s' = a_store s \<and> a_quota s' = a_quota s))"
proof (cases "a_store s (pathID r)")
  case None
  with assms show ?thesis
    by (simp add: api_handle_def api_serve_def handleDeleteSandbox_def authenticated_def
        store_Get_def writeError_def writeJSON_def)
next
  case (Some rec)
  have serve: "api_handle e a r s = handleDeleteSandbox a
      (orch_Terminate (e_jerr e) (e_transport e) (e_agentSecret e) (e_nowTransition e)) r s"
    using assms(2) by (simp add: api_handle_def api_serve_def)
  note handle = serve handleDeleteSandbox_def authenticated_def store_Get_def writeError_def
    writeJSON_def assms(1) Some
  consider (foreign) "r_TenantID rec \<noteq> t" | (ended) "r_TenantID rec = t" "IsTerminal (r_State rec)"
    | (running) "r_TenantID rec = t" "r_State rec = StateRunning"
    | (other) "r_TenantID rec = t" "r_State rec \<noteq> StateRunning" "\<not> IsTerminal (r_State rec)"
    by blast
  then show ?thesis
  proof cases
    case foreign
    then show ?thesis by (simp add: handle)
  next
    case ended
    then show ?thesis by (simp add: handle orch_Terminate_def)
  next
    case running
    then have "\<not> IsTerminal (r_State rec)" by (simp add: terminal_iff)
    with running orch_Terminate_running [OF Some running(2)] show ?thesis
      by (simp add: handle told_def cong: option.case_cong)
  next
    case other
    from orch_Terminate_refused [OF Some other(2,3), of "e_jerr e" "e_transport e"
        "e_agentSecret e" "e_nowTransition e" "''client requested kill''"]
    obtain m where "orch_Terminate (e_jerr e) (e_transport e) (e_agentSecret e) (e_nowTransition e)
        (pathID r) ''client requested kill'' s =
        (Inl m, s\<lparr>a_world := told (e_jerr e) (e_transport e) (e_agentSecret e) (pathID r)
           ''client requested kill'' rec s\<rparr>)" by blast
    with other show ?thesis by (simp add: handle told_def cong: option.case_cong)
  qed
qed

theorem api_delete_outcome_witness:
  "let rec = zero_record\<lparr>r_ID := ''sb-1'', r_TenantID := ''ten-01234567'', r_State := StateFailed\<rparr>;
       s = (sample_state [''sb-1'' \<mapsto> rec])\<lparr>a_quota := [''ten-01234567'' \<mapsto> 2]\<rparr>
   in api_handle sample_env sample_server
        (sample_request ''DELETE'' ''/v1/sandboxes/sb-1'' Malformed) s =
      (Inr (EmptyReply 204), s\<lparr>a_quota := [''ten-01234567'' \<mapsto> 1]\<rparr>)"
proof -
  let ?rec = "zero_record\<lparr>r_ID := ''sb-1'', r_TenantID := ''ten-01234567'', r_State := StateFailed\<rparr>"
  let ?s = "(sample_state [''sb-1'' \<mapsto> ?rec])\<lparr>a_quota := [''ten-01234567'' \<mapsto> 2]\<rparr>"
  let ?r = "sample_request ''DELETE'' ''/v1/sandboxes/sb-1'' Malformed"
  have auth: "authenticate sample_server ?r = Inr (Inr ''ten-01234567'')"
    by (simp add: authenticate_cases sample_defs)
  have route: "route_of (ar_Method ?r) (ar_Path ?r) = RDelete"
    by (simp add: sample_request_def route_of_def is_get_def has_prefix_def)
  have path: "pathID ?r = ''sb-1''"
    by (simp add: pathID_def sample_request_def trim_prefix_def has_prefix_def)
  obtain resp s' where h: "api_handle sample_env sample_server ?r ?s = (resp, s')"
    by (meson prod.exhaust)
  from api_delete_outcome [OF auth route, of sample_env ?s] have
    "resp = Inr (EmptyReply 204) \<and> s' = ?s\<lparr>a_quota := quota_Release ''ten-01234567'' (a_quota ?s)\<rparr>"
    unfolding h path by (simp add: sample_state_def zero_record_def terminal_iff Let_def)
  with h show ?thesis by (simp add: Let_def quota_Release_def getOrCreate_def)
qed

theorem api_create_outcome_witness:
  "\<exists>m s'. api_handle sample_env sample_server
     (sample_request ''POST'' ''/v1/sandboxes'' (Json (JObj [(''image'', JStr ''base'')])))
     (sample_state NewStore) = (Inr (JsonReply 400 m), s') \<and> s' = sample_state NewStore"
proof -
  let ?r = "sample_request ''POST'' ''/v1/sandboxes'' (Json (JObj [(''image'', JStr ''base'')]))"
  have auth: "authenticate sample_server ?r = Inr (Inr ''ten-01234567'')"
    by (simp add: authenticate_cases sample_defs)
  have route: "route_of (ar_Method ?r) (ar_Path ?r) = RCreate"
    by (simp add: sample_request_def route_of_def is_get_def)
  have sched: "sched_reachable (a_sched (sample_state NewStore))"
    "s_placeCh (a_sched (sample_state NewStore)) \<le> 100"
    by (simp_all add: sample_state_def sched_new) (simp add: NewScheduler_def)
  have uuid: "NewSandbox (e_uuid sample_env) = Inr ''sb-0a1b2c3d4e5f''"
    by (simp add: sample_env_def NewSandbox_def shortUUID_def remove_char_def slice_to_def)
  have dec: "json_decode SandboxSpec_fields zero_SandboxSpec (ar_Body ?r) =
      Inr (zero_SandboxSpec\<lparr>sp_Image := ''base''\<rparr>)"
    by (simp add: sample_request_def SandboxSpec_fields_def json_simps)
  obtain resp s' where h: "api_handle sample_env sample_server ?r (sample_state NewStore) = (resp, s')"
    by (meson prod.exhaust)
  have "\<not> spec_in_range (zero_SandboxSpec\<lparr>sp_Image := ''base''\<rparr>)"
    by (simp add: spec_in_range_def zero_SandboxSpec_def)
  with api_create_outcome [OF auth route sched uuid] show ?thesis
    unfolding dec h Let_def by auto
qed

text \<open>
  C16: what POST .../exec does on every branch. Only the owner of a running sandbox on a registered
  host reaches the host agent, which gets the command and its input as they were sent and the
  timeout, 30 seconds when the request has none; the reply is the agent's result, or 500. Nothing
  but the outside world changes, and on every other branch nothing changes at all.
\<close>

theorem api_exec_outcome:
  assumes "authenticate a r = Inr (Inr t)" and "route_of (ar_Method r) (ar_Path r) = RExec"
  shows "let i = pathID r; (resp, s') = api_handle e a r s
         in case a_store s i of
              None \<Rightarrow> (\<exists>m. resp = Inr (JsonReply 404 m)) \<and> s' = s
            | Some rec \<Rightarrow>
                if r_TenantID rec \<noteq> t then (\<exists>m. resp = Inr (JsonReply 403 m)) \<and> s' = s
                else if r_State rec \<noteq> StateRunning
                then (\<exists>m. resp = Inr (JsonReply 409 m)) \<and> s' = s
                else (case json_decode SpecExecRequest_fields zero_SpecExecRequest (ar_Body r) of
                        Inl _ \<Rightarrow> (\<exists>m. resp = Inr (JsonReply 400 m)) \<and> s' = s
                      | Inr x \<Rightarrow>
                          (case s_hosts (a_sched s) (r_HostID rec) of
                             None \<Rightarrow> (\<exists>m. resp = Inr (JsonReply 500 m)) \<and> s' = s
                           | Some host \<Rightarrow>
                               if r_HostID rec = ''''
                               then (\<exists>m. resp = Inr (JsonReply 500 m)) \<and> s' = s
                               else let (reply, w) = client_ExecInSandbox (e_jerr e) (e_transport e)
                                          (NewClient (''http://'' @ h_Addr host) (e_agentSecret e))
                                          \<lparr>ex_SandboxID = i, ex_Command = x_Command x,
                                           ex_Stdin = x_Stdin x,
                                           ex_TimeoutMs = (if x_TimeoutMs x = 0 then 30000
                                                           else x_TimeoutMs x)\<rparr> (a_world s)
                                    in s' = s\<lparr>a_world := w\<rparr> \<and>
                                       (case reply of
                                          Inl _ \<Rightarrow> (\<exists>m. resp = Inr (JsonReply 500 m))
                                        | Inr res \<Rightarrow> resp = Inr (JsonReply 200 (enc_ExecResponse res)))))"
proof (cases "a_store s (pathID r)")
  case None
  with assms show ?thesis
    by (simp add: api_handle_def api_serve_def handleExec_def authenticated_def
        store_Get_def writeError_def writeJSON_def)
next
  case (Some rec)
  have serve: "api_handle e a r s =
      handleExec (e_jerr e) a (orch_Exec (e_jerr e) (e_transport e) (e_agentSecret e)) r s"
    using assms(2) by (simp add: api_handle_def api_serve_def)
  note handle = serve handleExec_def authenticated_def store_Get_def writeError_def
    writeJSON_def assms(1) Some
  show ?thesis
  proof (cases "r_TenantID rec = t \<and> r_State rec = StateRunning")
    case False
    then show ?thesis by (auto simp: handle)
  next
    case own: True
    show ?thesis
    proof (cases "json_decode SpecExecRequest_fields zero_SpecExecRequest (ar_Body r)")
      case (Inl x)
      with own show ?thesis by (simp add: handle)
    next
      case (Inr x)
      show ?thesis
      proof (cases "s_hosts (a_sched s) (r_HostID rec)")
        case None
        with own Inr show ?thesis by (simp add: handle orch_Exec_def Let_def)
      next
        case host: (Some host)
        with own Inr show ?thesis
          by (cases "r_HostID rec = ''''")
            (auto simp: handle orch_Exec_def Let_def enc_SpecExecResult_def enc_ExecResponse_def
              split: prod.split sum.split)
      qed
    qed
  qed
qed

theorem api_exec_outcome_witness:
  "let rec = zero_record\<lparr>r_ID := ''sb-1'', r_TenantID := ''ten-01234567'', r_State := StateQueued\<rparr>;
       s = sample_state [''sb-1'' \<mapsto> rec]
   in \<exists>m. api_handle sample_env sample_server
        (sample_request ''POST'' ''/v1/sandboxes/sb-1/exec'' Malformed) s =
      (Inr (JsonReply 409 m), s)"
proof -
  let ?rec = "zero_record\<lparr>r_ID := ''sb-1'', r_TenantID := ''ten-01234567'', r_State := StateQueued\<rparr>"
  let ?s = "sample_state [''sb-1'' \<mapsto> ?rec]"
  let ?r = "sample_request ''POST'' ''/v1/sandboxes/sb-1/exec'' Malformed"
  have auth: "authenticate sample_server ?r = Inr (Inr ''ten-01234567'')"
    by (simp add: authenticate_cases sample_defs)
  have route: "route_of (ar_Method ?r) (ar_Path ?r) = RExec"
    by (simp add: sample_request_def route_of_def is_get_def has_prefix_def has_suffix_def)
  have path: "pathID ?r = ''sb-1''"
    by (simp add: pathID_def sample_request_def trim_prefix_def has_prefix_def)
  obtain resp s' where h: "api_handle sample_env sample_server ?r ?s = (resp, s')"
    by (meson prod.exhaust)
  from api_exec_outcome [OF auth route, of sample_env ?s] have
    "\<exists>m. resp = Inr (JsonReply 409 m) \<and> s' = ?s"
    unfolding h path by (auto simp: sample_state_def zero_record_def Let_def)
  with h show ?thesis by (auto simp: Let_def)
qed

end
