(* ===== verification/ApiSystem.thy ===== *)
theory ApiSystem
  imports ApiServer
begin

text \<open>
  The API server as a whole, with its goroutines interleaved: HTTP handlers that submit and kill
  sandboxes, the dispatch loop, and one goroutine per placement (\<^verbatim>\<open>cmd/api/handlers.go\<close> and
  \<^verbatim>\<open>cmd/api/scheduler.go\<close>). A step is one operation that is atomic in the source because it runs
  under a lock: an operation of the store or of the queue, or the choice of a host. The program
  counters of the goroutines are part of the state. The theory shows which goroutine is in charge
  of a sandbox at every moment, so that none is lost, dispatched twice or dropped.
\<close>

section \<open>States and steps\<close>

text \<open>The dispatch loop between its operations.\<close>

datatype dispatcher =
    Idle
  | Taken pendingItem
  | Chosen pendingItem HostInfo
  | Assigned pendingItem HostInfo

text \<open>
  \<open>y_submitting\<close> are the calls of \<^verbatim>\<open>Submit\<close> that have created the record and not yet queued the
  request, \<open>y_placing\<close> the placements waiting for the host agent, \<open>y_placed\<close> those that have its
  answer and not yet recorded it.
\<close>

record sys =
  y_store :: Store
  y_sched :: Scheduler
  y_submitting :: "(string \<times> SandboxSpec) multiset"
  y_disp :: dispatcher
  y_placing :: "pendingItem multiset"
  y_placed :: "pendingItem multiset"

inductive sys_step :: "sys \<Rightarrow> sys \<Rightarrow> bool" where
  create: "store_Create now (zero_record\<lparr>r_ID := i, r_TenantID := sp_TenantID sp\<rparr>) (y_store y) =
      (Inr (), st) \<Longrightarrow>
    sys_step y (y\<lparr>y_store := st, y_submitting := add_mset (i, sp) (y_submitting y)\<rparr>)"
| enqueue: "y_submitting y = add_mset (i, sp) rest \<Longrightarrow>
    sys_step y (y\<lparr>y_submitting := rest,
      y_sched := api_Enqueue now i sp (sp_TimeoutMs sp) (y_sched y)\<rparr>)"
| take: "y_disp y = Idle \<Longrightarrow> take_next (y_sched y) = Inr (Some item, s') \<Longrightarrow>
    sys_step y (y\<lparr>y_sched := s', y_disp := Taken item\<rparr>)"
| expire: "y_disp y = Taken item \<Longrightarrow> now > i_deadline item \<Longrightarrow>
    sys_step y (y\<lparr>y_disp := Idle,
      y_store := snd (store_Transition nowT (i_sandboxID item) StateQueued StateFailed
                        ''deadline exceeded'' (y_store y))\<rparr>)"
| requeue: "y_disp y = Taken item \<Longrightarrow> now \<le> i_deadline item \<Longrightarrow>
    api_bestHost ord (y_sched y) = Inl e \<Longrightarrow>
    sys_step y (y\<lparr>y_disp := Idle,
      y_sched := (y_sched y)\<lparr>s_queue := queue_Push (s_queue (y_sched y)) item\<rparr>\<rparr>)"
| choose: "y_disp y = Taken item \<Longrightarrow> now \<le> i_deadline item \<Longrightarrow>
    api_bestHost ord (y_sched y) = Inr host \<Longrightarrow> sys_step y (y\<lparr>y_disp := Chosen item host\<rparr>)"
| assign: "y_disp y = Chosen item host \<Longrightarrow>
    sys_step y (y\<lparr>y_disp := Assigned item host,
      y_store := snd (store_SetHostID now (i_sandboxID item) (h_ID host) (y_store y))\<rparr>)"
| start: "y_disp y = Assigned item host \<Longrightarrow>
    store_Transition now (i_sandboxID item) StateQueued StateProvisioning '''' (y_store y) =
      (Inr (), st) \<Longrightarrow>
    sys_step y (y\<lparr>y_disp := Idle, y_store := st, y_placing := add_mset item (y_placing y)\<rparr>)"
| drop: "y_disp y = Assigned item host \<Longrightarrow>
    store_Transition now (i_sandboxID item) StateQueued StateProvisioning '''' (y_store y) =
      (Inl e, st) \<Longrightarrow>
    sys_step y (y\<lparr>y_disp := Idle, y_store := st\<rparr>)"
| place_failed: "y_placing y = add_mset item rest \<Longrightarrow>
    sys_step y (y\<lparr>y_placing := rest,
      y_store := snd (store_Transition now (i_sandboxID item) StateProvisioning StateFailed err
                        (y_store y))\<rparr>)"
| place_ok: "y_placing y = add_mset item rest \<Longrightarrow>
    sys_step y (y\<lparr>y_placing := rest, y_placed := add_mset item (y_placed y),
      y_store := snd (store_SetVsockCID now (i_sandboxID item) cid sock (y_store y))\<rparr>)"
| running: "y_placed y = add_mset item rest \<Longrightarrow>
    sys_step y (y\<lparr>y_placed := rest,
      y_store := snd (store_Transition now (i_sandboxID item) StateProvisioning StateRunning ''''
                        (y_store y))\<rparr>)"
| kill: "sys_step y (y\<lparr>y_store := snd (store_Transition now i cur StateDraining why (y_store y))\<rparr>)"

text \<open>
  A killing handler read the state \<open>cur\<close> at some earlier moment: the step allows any. The server
  starts with its hosts registered and nothing else.
\<close>

definition sys_start :: "time \<Rightarrow> (string \<times> string) list \<Rightarrow> string \<Rightarrow> sys" where
  "sys_start now hostAgents grpcAddr =
     \<lparr>y_store = NewStore,
      y_sched = api_register_hosts now hostAgents grpcAddr api_NewScheduler,
      y_submitting = {#}, y_disp = Idle, y_placing = {#}, y_placed = {#}\<rparr>"

definition sys_reachable :: "sys \<Rightarrow> bool" where
  "sys_reachable y \<longleftrightarrow>
     (\<exists>now hostAgents grpcAddr. sys_step\<^sup>*\<^sup>* (sys_start now hostAgents grpcAddr) y)"

section \<open>Who is in charge\<close>

fun held :: "dispatcher \<Rightarrow> string multiset" where
  "held Idle = {#}"
| "held (Taken item) = {#i_sandboxID item#}"
| "held (Chosen item host) = {#i_sandboxID item#}"
| "held (Assigned item host) = {#i_sandboxID item#}"

text \<open>The sandboxes waiting to be dispatched, and those with a placement in flight.\<close>

definition waiting :: "sys \<Rightarrow> string multiset" where
  "waiting y = image_mset fst (y_submitting y) + mset (map i_sandboxID (s_queue (y_sched y))) +
     held (y_disp y)"

definition in_flight :: "sys \<Rightarrow> string multiset" where
  "in_flight y = image_mset i_sandboxID (y_placing y + y_placed y)"

definition in_state :: "sandbox_state \<Rightarrow> Store \<Rightarrow> string \<Rightarrow> bool" where
  "in_state s st i \<longleftrightarrow> (\<exists>r. st i = Some r \<and> r_State r = s)"

definition sys_inv :: "sys \<Rightarrow> bool" where
  "sys_inv y \<longleftrightarrow>
     queue_ok (s_queue (y_sched y)) \<and>
     (\<forall>i. count (waiting y) i = (if in_state StateQueued (y_store y) i then 1 else 0)) \<and>
     (\<forall>i. count (in_flight y) i = (if in_state StateProvisioning (y_store y) i then 1 else 0)) \<and>
     (\<forall>i. \<not> in_state StateTerminated (y_store y) i)"

lemma in_state_Transition:
  "in_state s (snd (store_Transition now j cur new why st)) i \<longleftrightarrow>
     (if i = j \<and> in_state cur st j \<and> lifecycle cur new then s = new else in_state s st i)"
  by (auto simp: in_state_def store_Transition_cases split: option.splits)

lemma in_state_SetHostID [simp]:
  "in_state s (snd (store_SetHostID now j h st)) i = in_state s st i"
  by (auto simp: in_state_def store_SetHostID_def split: option.splits)

lemma in_state_SetVsockCID [simp]:
  "in_state s (snd (store_SetVsockCID now j c u st)) i = in_state s st i"
  by (auto simp: in_state_def store_SetVsockCID_def split: option.splits)

lemma in_state_Create:
  "store_Create now r st = (Inr (), st') \<Longrightarrow>
   in_state s st' i \<longleftrightarrow> (if i = r_ID r then s = StateQueued else in_state s st i)"
  by (auto simp: in_state_def store_Create_ok)

lemma in_state_unique: "in_state s st i \<Longrightarrow> in_state t st i \<Longrightarrow> s = t"
  by (auto simp: in_state_def)

lemma mset_ids_Push:
  "queue_ok q \<Longrightarrow> mset (map i_sandboxID (queue_Push q x)) = add_mset (i_sandboxID x) (mset (map i_sandboxID q))"
proof -
  assume "queue_ok q"
  from queue_Push_requests [OF this, of x]
  have "image_mset i_sandboxID (requests (queue_Push q x)) =
      image_mset i_sandboxID (add_mset (request x) (requests q))" by simp
  then show ?thesis by (simp add: requests_def multiset.map_comp comp_def)
qed

lemma mset_ids_Pop:
  assumes "queue_ok q" and "queue_Pop q = Inr (x, q')"
  shows "mset (map i_sandboxID q) = add_mset (i_sandboxID x) (mset (map i_sandboxID q'))"
proof -
  from queue_Pop_ok(2) [OF assms]
  have "image_mset i_sandboxID (requests q) =
      image_mset i_sandboxID (add_mset (request x) (requests q'))" by simp
  then show ?thesis by (simp add: requests_def multiset.map_comp comp_def)
qed

lemma api_Enqueue_fields [simp]:
  "s_queue (api_Enqueue now i sp tmo s) = queue_Push (s_queue s) (new_item now i sp tmo)"
  "s_hosts (api_Enqueue now i sp tmo s) = s_hosts s"
  by (simp_all add: api_Enqueue_def api_heap_Push_eq new_item_def Let_def)

lemma take_next_Some:
  assumes "queue_ok (s_queue s)" and "take_next s = Inr (Some item, s')"
  shows "queue_ok (s_queue s')"
    and "mset (map i_sandboxID (s_queue s)) =
         add_mset (i_sandboxID item) (mset (map i_sandboxID (s_queue s')))"
    and "s_hosts s' = s_hosts s"
proof -
  from assms(2) have "queue_Pop (s_queue s) = Inr (item, s_queue s')" "s_hosts s' = s_hosts s"
    by (auto simp: take_next_def split: if_splits sum.splits)
  then show "queue_ok (s_queue s')" "mset (map i_sandboxID (s_queue s)) =
         add_mset (i_sandboxID item) (mset (map i_sandboxID (s_queue s')))" "s_hosts s' = s_hosts s"
    using queue_Pop_ok(1) [OF assms(1)] mset_ids_Pop [OF assms(1)] by blast+
qed

lemma lifecycle_to_draining [simp]: "lifecycle s StateDraining \<longleftrightarrow> s = StateRunning"
  by (auto simp: lifecycle.simps)

lemmas custody_simps = sys_inv_def waiting_def in_flight_def in_state_Transition
  queued_failed queued_provisioning provisioning_failed provisioning_running

lemma queued_ids:
  assumes "sys_inv y" and "count (waiting y) i > 0"
  shows "in_state StateQueued (y_store y) i" and "count (waiting y) i = 1"
  using assms by (auto simp: sys_inv_def split: if_splits)

lemma flying_ids:
  assumes "sys_inv y" and "count (in_flight y) i > 0"
  shows "in_state StateProvisioning (y_store y) i" and "count (in_flight y) i = 1"
  using assms by (auto simp: sys_inv_def split: if_splits)

lemma sys_invI:
  assumes "queue_ok (s_queue (y_sched y))"
    and "\<And>i. count (waiting y) i = (if in_state StateQueued (y_store y) i then 1 else 0)"
    and "\<And>i. count (in_flight y) i = (if in_state StateProvisioning (y_store y) i then 1 else 0)"
    and "\<And>i. \<not> in_state StateTerminated (y_store y) i"
  shows "sys_inv y"
  using assms by (simp add: sys_inv_def)

text \<open>A step that only hands requests and placements on, and leaves the lifecycle states alone.\<close>

lemma sys_inv_hand_over:
  assumes "sys_inv y" and "queue_ok (s_queue (y_sched y'))" and "waiting y' = waiting y"
    and "in_flight y' = in_flight y" and "\<And>s i. in_state s (y_store y') i = in_state s (y_store y) i"
  shows "sys_inv y'"
  using assms by (simp add: sys_inv_def)

text \<open>A step that settles a sandbox: it leaves one group and its record leaves the state.\<close>

lemma sys_inv_unqueue:
  assumes inv: "sys_inv y" and q: "queue_ok (s_queue (y_sched y'))"
    and w: "waiting y = add_mset j (waiting y')"
    and f: "in_flight y' = (if t = StateProvisioning then add_mset j (in_flight y) else in_flight y)"
    and st: "\<And>s i. in_state s (y_store y') i \<longleftrightarrow> (if i = j then s = t else in_state s (y_store y) i)"
    and t: "t = StateProvisioning \<or> t = StateFailed"
  shows "sys_inv y'"
proof (rule sys_invI)
  have j: "in_state StateQueued (y_store y) j" "count (waiting y) j = 1"
    using queued_ids [OF inv, of j] w by auto
  then have np: "\<not> in_state StateProvisioning (y_store y) j" "\<not> in_state StateTerminated (y_store y) j"
    using in_state_unique [of _ "y_store y" j StateQueued] by fastforce+
  show "queue_ok (s_queue (y_sched y'))" by (rule q)
  fix i
  show "count (waiting y') i = (if in_state StateQueued (y_store y') i then 1 else 0)"
  proof (cases "i = j")
    case True
    with w j(2) t show ?thesis by (auto simp: st)
  next
    case False
    then have "count (waiting y') i = count (waiting y) i" using w by simp
    with False inv show ?thesis by (simp add: st sys_inv_def)
  qed
  show "count (in_flight y') i = (if in_state StateProvisioning (y_store y') i then 1 else 0)"
    using f inv np t by (auto simp: st sys_inv_def)
  show "\<not> in_state StateTerminated (y_store y') i"
    using inv t by (auto simp: st sys_inv_def)
qed

lemma sys_inv_land:
  assumes inv: "sys_inv y" and q: "queue_ok (s_queue (y_sched y'))"
    and w: "waiting y' = waiting y" and f: "in_flight y = add_mset j (in_flight y')"
    and st: "\<And>s i. in_state s (y_store y') i \<longleftrightarrow> (if i = j then s = t else in_state s (y_store y) i)"
    and t: "t = StateRunning \<or> t = StateFailed"
  shows "sys_inv y'"
proof (rule sys_invI)
  have j: "in_state StateProvisioning (y_store y) j" "count (in_flight y) j = 1"
    using flying_ids [OF inv, of j] f by auto
  then have nq: "\<not> in_state StateQueued (y_store y) j" "\<not> in_state StateTerminated (y_store y) j"
    using in_state_unique [of _ "y_store y" j StateProvisioning] by fastforce+
  show "queue_ok (s_queue (y_sched y'))" by (rule q)
  fix i
  show "count (waiting y') i = (if in_state StateQueued (y_store y') i then 1 else 0)"
    using w inv nq t by (auto simp: st sys_inv_def)
  show "count (in_flight y') i = (if in_state StateProvisioning (y_store y') i then 1 else 0)"
  proof (cases "i = j")
    case True
    with f j(2) t show ?thesis by (auto simp: st)
  next
    case False
    then have "count (in_flight y') i = count (in_flight y) i" using f by simp
    with False inv show ?thesis by (simp add: st sys_inv_def)
  qed
  show "\<not> in_state StateTerminated (y_store y') i"
    using inv t by (auto simp: st sys_inv_def)
qed

lemma sys_inv_step:
  assumes "sys_step y y'" and inv: "sys_inv y"
  shows "sys_inv y'"
  using assms(1)
proof cases
  case (create now sp i st)
  have fresh: "y_store y i = None" using create(2) by (simp add: store_Create_ok)
  then have no: "\<not> in_state s (y_store y) i" for s by (simp add: in_state_def)
  have st: "in_state s st j \<longleftrightarrow> (if j = i then s = StateQueued else in_state s (y_store y) j)" for s j
    using in_state_Create [OF create(2), of s j] by simp
  show ?thesis
  proof (rule sys_invI)
    show "queue_ok (s_queue (y_sched y'))" using inv create(1) by (simp add: sys_inv_def)
    fix j
    have "waiting y' = add_mset i (waiting y)" using create(1) by (simp add: waiting_def)
    then show "count (waiting y') j = (if in_state StateQueued (y_store y') j then 1 else 0)"
      using inv no create(1) by (simp add: st sys_inv_def)
    have "in_flight y' = in_flight y" using create(1) by (simp add: in_flight_def)
    then show "count (in_flight y') j = (if in_state StateProvisioning (y_store y') j then 1 else 0)"
      using inv no create(1) by (simp add: st sys_inv_def)
    show "\<not> in_state StateTerminated (y_store y') j"
      using inv create(1) by (simp add: st sys_inv_def)
  qed
next
  case (enqueue i sp rest now)
  have ok: "queue_ok (s_queue (y_sched y))" using inv by (simp add: sys_inv_def)
  have "i_sandboxID (new_item now i sp (sp_TimeoutMs sp)) = i" by (simp add: new_item_def)
  with enqueue ok inv show ?thesis
    by (intro sys_inv_hand_over [OF inv])
      (simp_all add: waiting_def in_flight_def queue_Push_ok mset_ids_Push del: mset_map)
next
  case (take s' item)
  have ok: "queue_ok (s_queue (y_sched y))" using inv by (simp add: sys_inv_def)
  from take take_next_Some [OF ok take(3)] show ?thesis
    by (intro sys_inv_hand_over [OF inv]) (simp_all add: waiting_def in_flight_def del: mset_map)
next
  case (expire item now nowT)
  then have w: "waiting y = add_mset (i_sandboxID item) (waiting y')" by (simp add: waiting_def)
  then have "in_state StateQueued (y_store y) (i_sandboxID item)" using queued_ids [OF inv] by simp
  with expire w inv show ?thesis
    by (intro sys_inv_unqueue [OF inv, where j = "i_sandboxID item" and t = StateFailed])
      (auto simp: in_flight_def in_state_Transition queued_failed sys_inv_def)
next
  case (requeue item now ord e)
  have ok: "queue_ok (s_queue (y_sched y))" using inv by (simp add: sys_inv_def)
  from requeue show ?thesis
    by (intro sys_inv_hand_over [OF inv])
      (simp_all add: waiting_def in_flight_def queue_Push_ok mset_ids_Push ok del: mset_map)
next
  case (choose item now ord host)
  with inv show ?thesis
    by (intro sys_inv_hand_over [OF inv]) (simp_all add: waiting_def in_flight_def sys_inv_def)
next
  case (assign item host now)
  with inv show ?thesis
    by (intro sys_inv_hand_over [OF inv]) (simp_all add: waiting_def in_flight_def sys_inv_def)
next
  case (start item host now st)
  then have w: "waiting y = add_mset (i_sandboxID item) (waiting y')" by (simp add: waiting_def)
  then have "in_state StateQueued (y_store y) (i_sandboxID item)" using queued_ids [OF inv] by simp
  then have "in_state s st i \<longleftrightarrow>
      (if i = i_sandboxID item then s = StateProvisioning else in_state s (y_store y) i)" for s i
    using in_state_Transition [of s now "i_sandboxID item" StateQueued StateProvisioning "''''"
        "y_store y" i] start(3) by (auto simp: queued_provisioning)
  with start w inv show ?thesis
    by (intro sys_inv_unqueue [OF inv, where j = "i_sandboxID item" and t = StateProvisioning])
      (auto simp: in_flight_def sys_inv_def)
next
  case (drop item host now e st)
  then have "count (waiting y) (i_sandboxID item) > 0" by (simp add: waiting_def)
  from queued_ids(1) [OF inv this] drop(3) show ?thesis
    by (auto simp: in_state_def store_Transition_cases queued_provisioning)
next
  case (place_failed item rest now err)
  then have f: "in_flight y = add_mset (i_sandboxID item) (in_flight y')" by (simp add: in_flight_def)
  then have "in_state StateProvisioning (y_store y) (i_sandboxID item)"
    using flying_ids [OF inv] by simp
  with place_failed f inv show ?thesis
    by (intro sys_inv_land [OF inv, where j = "i_sandboxID item" and t = StateFailed])
      (auto simp: waiting_def in_state_Transition provisioning_failed sys_inv_def)
next
  case (place_ok item rest now cid sock)
  with inv show ?thesis
    by (intro sys_inv_hand_over [OF inv]) (simp_all add: waiting_def in_flight_def sys_inv_def)
next
  case (running item rest now)
  then have f: "in_flight y = add_mset (i_sandboxID item) (in_flight y')" by (simp add: in_flight_def)
  then have "in_state StateProvisioning (y_store y) (i_sandboxID item)"
    using flying_ids [OF inv] by simp
  with running f inv show ?thesis
    by (intro sys_inv_land [OF inv, where j = "i_sandboxID item" and t = StateRunning])
      (auto simp: waiting_def in_state_Transition provisioning_running sys_inv_def)
next
  case (kill now i cur why)
  have keep: "in_state s (y_store y') j = in_state s (y_store y) j" if "s \<noteq> StateRunning" "s \<noteq> StateDraining" for s j
    using kill that in_state_unique [of s "y_store y" i StateRunning]
    by (auto simp: in_state_Transition)
  with kill inv show ?thesis
    by (auto intro!: sys_invI simp: sys_inv_def waiting_def in_flight_def simp del: mset_map)
qed

lemma sys_inv_start: "sys_inv (sys_start now has addr)"
proof -
  have "s_queue (fold (\<lambda>ha. api_RegisterHost now (configured_host ha)) has s) = s_queue s" for s
    by (induction has arbitrary: s) (simp_all add: api_RegisterHost_eq)
  then have "s_queue (api_register_hosts now has addr api_NewScheduler) = []"
    by (simp add: api_register_hosts_def api_RegisterHost_eq api_NewScheduler_eq Let_def)
  then show ?thesis
    by (simp add: sys_inv_def sys_start_def waiting_def in_flight_def in_state_def NewStore_def)
qed

lemma sys_reachable_inv: "sys_reachable y \<Longrightarrow> sys_inv y"
proof -
  have "sys_step\<^sup>*\<^sup>* y0 y \<Longrightarrow> sys_inv y0 \<Longrightarrow> sys_inv y" for y0
    by (induction rule: rtranclp_induct) (auto intro: sys_inv_step)
  then show "sys_reachable y \<Longrightarrow> sys_inv y"
    unfolding sys_reachable_def using sys_inv_start by blast
qed

lemma draining_step:
  "sys_step y y' \<Longrightarrow> in_state StateDraining (y_store y) i \<Longrightarrow> in_state StateDraining (y_store y') i"
proof (induction rule: sys_step.induct)
  case (create now i' sp y st)
  then show ?case using in_state_Create [OF create(1), of StateDraining i]
    by (auto simp: in_state_def store_Create_ok)
next
  case (start y item host now st)
  then show ?case
    using in_state_Transition [of StateDraining now "i_sandboxID item" StateQueued
        StateProvisioning "''''" "y_store y" i] by (auto simp: in_state_def)
next
  case (drop y item host now e st)
  then show ?case using store_Transition_error [OF drop(2)] by simp
qed (auto simp: in_state_Transition dest: in_state_unique)

text \<open>
  \<^verbatim>\<open>dispatchPending\<close> run without interference is a sequence of these steps, so the step relation
  covers every run of the dispatch loop.
\<close>

lemma sys_step_then: "sys_step y y1 \<Longrightarrow> sys_step\<^sup>*\<^sup>* y1 y2 \<Longrightarrow> sys_step\<^sup>*\<^sup>* y y2"
  by (rule converse_rtranclp_into_rtranclp)

lemma sys_update_order:
  "y\<lparr>y_store := st, y_disp := d\<rparr> = y\<lparr>y_disp := d, y_store := st\<rparr>"
  "y\<lparr>y_sched := sc, y_store := st, y_disp := d\<rparr> = y\<lparr>y_disp := d, y_sched := sc, y_store := st\<rparr>"
  "y\<lparr>y_sched := sc, y_disp := d\<rparr> = y\<lparr>y_disp := d, y_sched := sc\<rparr>" for y :: sys
  by simp_all

definition after_dispatch ::
  "sys \<Rightarrow> (pendingItem \<times> HostInfo) option \<Rightarrow> Scheduler \<Rightarrow> Store \<Rightarrow> sys" where
  "after_dispatch y p s st =
     y\<lparr>y_sched := s, y_store := st, y_disp := Idle,
       y_placing := (case p of None \<Rightarrow> y_placing y
                     | Some (item, _) \<Rightarrow> add_mset item (y_placing y))\<rparr>"

lemma dispatch_item_steps:
  assumes "y_disp y = Taken item"
    and "dispatch_item now nowH nowT ord item (y_sched y) (y_store y) = (p, s', st')"
  shows "sys_step\<^sup>*\<^sup>* y (after_dispatch y p s' st')"
proof (cases "now > i_deadline item")
  case True
  with assms(2) have "p = None" "s' = y_sched y"
    "st' = snd (store_Transition nowT (i_sandboxID item) StateQueued StateFailed
        ''deadline exceeded'' (y_store y))" by (auto simp: dispatch_item_def)
  with sys_step.expire [OF assms(1) True, of nowT] show ?thesis
    by (auto simp: after_dispatch_def sys_update_order)
next
  case now: False
  show ?thesis
  proof (cases "bestHost ord (y_sched y)")
    case (Inl e)
    with now assms(2) have "p = None" "st' = y_store y"
      "s' = (y_sched y)\<lparr>s_queue := queue_Push (s_queue (y_sched y)) item\<rparr>"
      by (auto simp: dispatch_item_def)
    with sys_step.requeue [OF assms(1), of now ord e] now Inl show ?thesis
      by (auto simp: after_dispatch_def api_bestHost_eq sys_update_order)
  next
    case (Inr host)
    let ?i = "i_sandboxID item"
    let ?y1 = "y\<lparr>y_disp := Chosen item host\<rparr>"
    let ?st = "snd (store_SetHostID nowH ?i (h_ID host) (y_store y))"
    let ?y2 = "?y1\<lparr>y_disp := Assigned item host, y_store := ?st\<rparr>"
    have 1: "sys_step y ?y1"
      using sys_step.choose [OF assms(1), of now ord host] now Inr by (simp add: api_bestHost_eq)
    have 2: "sys_step ?y1 ?y2" using sys_step.assign [of ?y1 item host nowH] by simp
    have 3: "sys_step ?y2 (after_dispatch y p s' st')"
    proof (cases "store_Transition nowT ?i StateQueued StateProvisioning '''' ?st")
      case (Pair res st2)
      show ?thesis
      proof (cases res)
        case (Inl e)
        with Pair now Inr assms(2) sys_step.drop [of ?y2 item host nowT e st2] show ?thesis
          by (auto simp: dispatch_item_def after_dispatch_def Let_def sys_update_order)
      next
        case r: (Inr u)
        with Pair now Inr assms(2) sys_step.start [of ?y2 item host nowT st2] show ?thesis
          by (auto simp: dispatch_item_def after_dispatch_def Let_def sys_update_order)
      qed
    qed
    from sys_step_then [OF 1 sys_step_then [OF 2 r_into_rtranclp [of sys_step, OF 3]]]
    show ?thesis .
  qed
qed

lemma dispatch_steps:
  assumes "y_disp y = Idle"
    and "api_dispatchPending now nowH nowT ord (y_sched y) (y_store y) = Inr (p, s', st')"
  shows "sys_step\<^sup>*\<^sup>* y (after_dispatch y p s' st')"
proof -
  have d: "dispatchPending now nowH nowT ord (y_sched y) (y_store y) = Inr (p, s', st')"
    using assms(2) by (simp add: api_dispatchPending_eq)
  show ?thesis
  proof (cases "take_next (y_sched y)")
    case (Inl e)
    with d show ?thesis by (simp add: dispatchPending_def)
  next
    case (Inr r)
    obtain nx s1 where r: "r = (nx, s1)" by (cases r)
    show ?thesis
    proof (cases nx)
      case None
      with Inr r have "s1 = y_sched y" by (auto simp: take_next_def split: if_splits sum.splits)
      moreover have "y\<lparr>y_disp := Idle\<rparr> = y" using assms(1) by (cases y) simp
      ultimately show ?thesis
        using d Inr r None by (auto simp: dispatchPending_def after_dispatch_def)
    next
      case (Some item)
      let ?y1 = "y\<lparr>y_sched := s1, y_disp := Taken item\<rparr>"
      have "sys_step y ?y1" using sys_step.take [OF assms(1)] Inr r Some by simp
      moreover have "sys_step\<^sup>*\<^sup>* ?y1 (after_dispatch ?y1 p s' st')"
        using d Inr r Some by (intro dispatch_item_steps) (auto simp: dispatchPending_def)
      moreover have "after_dispatch ?y1 p s' st' = after_dispatch y p s' st'"
        by (cases y; cases p) (auto simp: after_dispatch_def)
      ultimately show ?thesis by (metis sys_step_then)
    qed
  qed
qed

text \<open>A sandbox can be assigned, run and be killed.\<close>

lemma reachable_step: "sys_reachable y \<Longrightarrow> sys_step y y' \<Longrightarrow> sys_reachable y'"
  unfolding sys_reachable_def by (metis rtranclp.rtrancl_into_rtrancl)

lemma reach_assigned: "\<exists>y item host. sys_reachable y \<and> y_disp y = Assigned item host"
proof -
  let ?y0 = "sys_start 1 [] ''127.0.0.1:9090''"
  let ?rec = "zero_record\<lparr>r_ID := ''sb-1'', r_TenantID := ''ten-a''\<rparr>"
  let ?st = "snd (store_Create 1 ?rec NewStore)"
  let ?y1 = "?y0\<lparr>y_store := ?st, y_submitting := {#(''sb-1'', sample_spec)#}\<rparr>"
  let ?y2 = "?y1\<lparr>y_submitting := {#},
    y_sched := api_Enqueue 2 ''sb-1'' sample_spec (sp_TimeoutMs sample_spec) (y_sched ?y1)\<rparr>"
  have r0: "sys_reachable ?y0" unfolding sys_reachable_def by blast
  have r1: "sys_reachable ?y1"
    using sys_step.create [where now = 1 and i = "''sb-1''" and sp = sample_spec and y = ?y0
        and st = ?st]
    by (intro reachable_step [OF r0])
      (simp add: sys_start_def NewStore_def zero_record_def store_Create_def sample_spec_def)
  have r2: "sys_reachable ?y2"
    using sys_step.enqueue [of ?y1 "''sb-1''" sample_spec "{#}" 2]
    by (intro reachable_step [OF r1]) simp
  note inv2 = sys_reachable_inv [OF r2]
  have "queue_ok (s_queue (y_sched ?y2))" using inv2 by (simp only: sys_inv_def)
  then obtain item s' where take: "take_next (y_sched ?y2) = Inr (Some item, s')"
  proof (cases rule: take_next_cases)
    case idle
    have "queue_ok (s_queue (y_sched ?y1))"
      using sys_reachable_inv [OF r1] by (simp only: sys_inv_def)
    from queue_Push_requests [OF this, of "new_item 2 ''sb-1'' sample_spec (sp_TimeoutMs sample_spec)"]
    have "requests (s_queue (y_sched ?y2)) \<noteq> {#}" by simp
    with idle(1) have False by (simp only: requests_Nil)
    then show ?thesis ..
  qed blast
  let ?y3 = "?y2\<lparr>y_sched := s', y_disp := Taken item\<rparr>"
  have r3: "sys_reachable ?y3"
    using sys_step.take [of ?y2 item s'] take
    by (intro reachable_step [OF r2]) (simp add: sys_start_def)
  have hosts: "s_hosts s' = s_hosts (api_register_hosts 1 [] ''127.0.0.1:9090'' api_NewScheduler)"
    using take by (auto simp: take_next_def sys_start_def split: if_splits sum.splits)
  note registry = api_registry [of 1 "[]" "''127.0.0.1:9090''"]
  have ord: "range_order (s_hosts s') [''host-local'']"
    using registry(2) unfolding hosts range_order_def by simp
  have "\<not> (\<forall>h \<in> ran (s_hosts s'). scoreHost h = NaN)"
    using registry unfolding hosts by (fastforce simp: ran_def dom_def)
  then obtain host where "bestHost [''host-local''] s' = Inr host"
    using bestHost_none [OF ord] by (cases "bestHost [''host-local''] s'") auto
  then have "sys_step ?y3 (?y3\<lparr>y_disp := Chosen item host\<rparr>)"
    using sys_step.choose [of ?y3 item "i_deadline item" "[''host-local'']" host]
    by (simp add: api_bestHost_eq)
  from reachable_step [OF r3 this]
  have "sys_reachable (?y3\<lparr>y_disp := Chosen item host\<rparr>)" .
  from reachable_step [OF this sys_step.assign [of _ item host 3]] show ?thesis by fastforce
qed

lemma reach_draining: "\<exists>y i. sys_reachable y \<and> in_state StateDraining (y_store y) i"
proof -
  obtain y item host where r: "sys_reachable y" and d: "y_disp y = Assigned item host"
    using reach_assigned by blast
  let ?i = "i_sandboxID item"
  have "count (waiting y) ?i > 0" using d by (simp add: waiting_def)
  from queued_ids(1) [OF sys_reachable_inv [OF r] this] obtain st
    where tr: "store_Transition 4 ?i StateQueued StateProvisioning '''' (y_store y) = (Inr (), st)"
    by (auto simp: in_state_def store_Transition_cases queued_provisioning)
  let ?y1 = "y\<lparr>y_disp := Idle, y_store := st, y_placing := add_mset item (y_placing y)\<rparr>"
  have r1: "sys_reachable ?y1" by (rule reachable_step [OF r sys_step.start [OF d tr]])
  let ?y2 = "?y1\<lparr>y_placing := y_placing y, y_placed := add_mset item (y_placed ?y1),
      y_store := snd (store_SetVsockCID 5 ?i 3 '''' (y_store ?y1))\<rparr>"
  have r2: "sys_reachable ?y2" by (rule reachable_step [OF r1 sys_step.place_ok]) simp
  let ?y3 = "?y2\<lparr>y_placed := y_placed y, y_store := snd (store_Transition 6 ?i StateProvisioning
      StateRunning '''' (y_store ?y2))\<rparr>"
  have r3: "sys_reachable ?y3" by (rule reachable_step [OF r2 sys_step.running]) simp
  have "count (in_flight ?y1) ?i > 0" by (simp add: in_flight_def)
  from flying_ids(1) [OF sys_reachable_inv [OF r1] this]
  have "in_state StateRunning (y_store ?y3) ?i"
    by (simp add: in_state_Transition provisioning_running)
  moreover from reachable_step [OF r3 sys_step.kill [of ?y3 7 ?i StateRunning "''kill''"]]
  have "sys_reachable (?y3\<lparr>y_store := snd (store_Transition 7 ?i StateRunning StateDraining ''kill''
      (y_store ?y3))\<rparr>)" .
  ultimately show ?thesis by (fastforce simp: in_state_Transition)
qed

section \<open>Properties\<close>

text \<open>
  C1: no sandbox is lost or served twice, under every interleaving of the API server's
  goroutines. At any moment each queued sandbox is waiting in exactly one place, a submission, the
  heap or the dispatcher's hand, and nothing else waits; each provisioning sandbox has exactly one
  placement in flight, and nothing else is in flight.
\<close>

theorem system_custody:
  assumes "sys_reachable y"
  shows "count (waiting y) i = (if in_state StateQueued (y_store y) i then 1 else 0) \<and>
         count (in_flight y) i = (if in_state StateProvisioning (y_store y) i then 1 else 0)"
  using sys_reachable_inv [OF assms] unfolding sys_inv_def by blast

theorem system_custody_witness:
  "count (waiting (sys_start 1 [] ''127.0.0.1:9090'')) ''sb-1'' = 0"
proof -
  have "sys_reachable (sys_start 1 [] ''127.0.0.1:9090'')"
    unfolding sys_reachable_def by blast
  from system_custody [OF this, of "''sb-1''"] show ?thesis
    by (simp add: sys_start_def in_state_def NewStore_def)
qed

text \<open>
  The dispatcher never drops a request. Between taking a request from the heap and starting
  its placement the record cannot leave the queued state, whatever the handlers do meanwhile, so
  the transition to provisioning always succeeds and the branch that abandons the request is dead.
\<close>

theorem dispatcher_never_drops:
  assumes "sys_reachable y" and "y_disp y = Assigned item host"
  shows "\<exists>st. store_Transition now (i_sandboxID item) StateQueued StateProvisioning '''' (y_store y) =
    (Inr (), st)"
proof -
  have "count (waiting y) (i_sandboxID item) > 0" using assms(2) by (simp add: waiting_def)
  from queued_ids(1) [OF sys_reachable_inv [OF assms(1)] this] show ?thesis
    by (auto simp: in_state_def store_Transition_cases queued_provisioning)
qed

theorem dispatcher_never_drops_witness:
  "\<exists>(y :: sys) item host st. y_disp y = Assigned item host \<and>
     store_Transition 4 (i_sandboxID item) StateQueued StateProvisioning '''' (y_store y) = (Inr (), st)"
proof -
  obtain y item host where r: "sys_reachable y" and d: "y_disp y = Assigned item host"
    using reach_assigned by blast
  from dispatcher_never_drops [OF r d, of 4] d show ?thesis by blast
qed

text \<open>
  C29: a killed sandbox is never finished. No reachable state has a terminated sandbox, and once
  draining a sandbox stays draining for ever: no code of the API server makes the last transition
  of the lifecycle.
\<close>

theorem draining_forever:
  assumes "sys_reachable y" and "in_state StateDraining (y_store y) i" and "sys_step\<^sup>*\<^sup>* y y'"
  shows "in_state StateDraining (y_store y') i \<and> (\<forall>j. \<not> in_state StateTerminated (y_store y') j)"
proof
  from assms(3) show "in_state StateDraining (y_store y') i"
    by (induction rule: rtranclp_induct) (auto intro: assms(2) draining_step)
  have "sys_reachable y'" using assms(1,3) unfolding sys_reachable_def by (metis rtranclp_trans)
  from sys_reachable_inv [OF this] show "\<forall>j. \<not> in_state StateTerminated (y_store y') j"
    by (simp add: sys_inv_def)
qed

theorem draining_forever_witness:
  "\<exists>(y :: sys) i. in_state StateDraining (y_store y) i \<and> (\<forall>j. \<not> in_state StateTerminated (y_store y) j)"
proof -
  obtain y i where "sys_reachable y" and "in_state StateDraining (y_store y) i"
    using reach_draining by blast
  from draining_forever [OF this rtranclp.rtrancl_refl] show ?thesis by blast
qed

text \<open>
  The interleaved system refines what the code of \<^verbatim>\<open>dispatchPending\<close> does: when nothing
  interferes, one call of it is a sequence of steps of the system that ends in its result.
\<close>

theorem dispatchPending_refines_steps:
  assumes "y_disp y = Idle"
    and "api_dispatchPending now nowH nowT ord (y_sched y) (y_store y) = Inr (p, s', st')"
  shows "sys_step\<^sup>*\<^sup>* y (y\<lparr>y_sched := s', y_store := st', y_disp := Idle,
           y_placing := (case p of None \<Rightarrow> y_placing y
                         | Some (item, _) \<Rightarrow> add_mset item (y_placing y))\<rparr>)"
  using dispatch_steps [OF assms] by (simp add: after_dispatch_def)

theorem dispatchPending_refines_steps_witness:
  "sys_step\<^sup>*\<^sup>* (sys_start 1 [] ''127.0.0.1:9090'')
     ((sys_start 1 [] ''127.0.0.1:9090'')\<lparr>y_disp := Idle\<rparr>)"
proof -
  let ?y = "sys_start 1 [] ''127.0.0.1:9090''"
  have idle: "y_disp ?y = Idle" by (simp add: sys_start_def)
  have "s_queue (y_sched ?y) = []"
    by (simp add: sys_start_def api_register_hosts_def api_queue_ops_eq Let_def)
  then have "api_dispatchPending 5 5 5 [] (y_sched ?y) (y_store ?y) = Inr (None, y_sched ?y, y_store ?y)"
    by (simp add: api_dispatchPending_def)
  from dispatchPending_refines_steps [OF idle this] show ?thesis by simp
qed

end
