(* ===== verification/GoPath.thy ===== *)
theory GoPath
  imports Prelude
begin

text \<open>
  What the program uses of Go's \<^verbatim>\<open>path/filepath\<close> on Unix: the lexical cleaning of a path, the join
  of elements and the directory of a path. The components of a path are the parts between its
  slashes; cleaning drops empty and \<^verbatim>\<open>.\<close> components and resolves \<^verbatim>\<open>..\<close> against the component before
  it, which at the root of an absolute path is nothing.
\<close>

section \<open>Cleaning\<close>

abbreviation slash :: char where
  "slash \<equiv> CHR ''/''"

text \<open>One component, onto the components kept so far (the last one first).\<close>

definition clean_step :: "bool \<Rightarrow> string list \<Rightarrow> string \<Rightarrow> string list" where
  "clean_step rooted out w =
     (if w = '''' \<or> w = ''.'' then out
      else if w = ''..''
      then (case out of
              [] \<Rightarrow> if rooted then [] else [w]
            | p # ps \<Rightarrow> if p = ''..'' then w # out else ps)
      else w # out)"

definition clean_parts :: "bool \<Rightarrow> string list \<Rightarrow> string list" where
  "clean_parts rooted ws = rev (foldl (clean_step rooted) [] ws)"

definition is_abs :: "string \<Rightarrow> bool" where
  "is_abs p \<longleftrightarrow> has_prefix p ''/''"

definition show_path :: "bool \<Rightarrow> string list \<Rightarrow> string" where
  "show_path rooted ws =
     (if rooted then slash # join_with ''/'' ws
      else if ws = [] then ''.'' else join_with ''/'' ws)"

definition path_Clean :: "string \<Rightarrow> string" where
  "path_Clean p = show_path (is_abs p) (clean_parts (is_abs p) (split_on slash p))"

text \<open>The join skips leading empty elements and cleans the rest; with no element it is empty.\<close>

definition path_Join :: "string list \<Rightarrow> string" where
  "path_Join ws =
     (case dropWhile (\<lambda>w. w = '''') ws of [] \<Rightarrow> '''' | v # vs \<Rightarrow> path_Clean (join_with ''/'' (v # vs)))"

text \<open>The directory: all up to the last slash, cleaned; the base: what follows it.\<close>

definition path_Dir :: "string \<Rightarrow> string" where
  "path_Dir p = path_Clean (rev (dropWhile (\<lambda>c. c \<noteq> slash) (rev p)))"

section \<open>Plain components and cleaned paths\<close>

definition plain :: "string \<Rightarrow> bool" where
  "plain w \<longleftrightarrow> w \<noteq> '''' \<and> w \<noteq> ''.'' \<and> w \<noteq> ''..'' \<and> slash \<notin> set w"

lemma clean_step_plain [simp]: "plain w \<Longrightarrow> clean_step b out w = w # out"
  by (simp add: plain_def clean_step_def)

text \<open>The absolute paths that cleaning leaves alone: a slash, and plain components.\<close>

definition abs_path :: "string list \<Rightarrow> string" where
  "abs_path ws = slash # join_with ''/'' ws"

lemma foldl_clean_plain: "list_all plain ws \<Longrightarrow> foldl (clean_step b) out ws = rev ws @ out"
  by (induction ws arbitrary: out) simp_all

lemma split_join_plain:
  "ws \<noteq> [] \<Longrightarrow> list_all plain ws \<Longrightarrow> split_on slash (join_with ''/'' ws) = ws"
  by (rule split_join) (auto simp: list_all_iff plain_def)

lemma is_abs_Cons [simp]: "is_abs (c # p) \<longleftrightarrow> c = slash" "\<not> is_abs ''''"
  by (auto simp: is_abs_def has_prefix_def)

lemma path_Clean_abs_path: "list_all plain ws \<Longrightarrow> path_Clean (abs_path ws) = abs_path ws"
proof (cases "ws = []")
  case True
  then show ?thesis
    by (simp add: path_Clean_def abs_path_def clean_parts_def clean_step_def show_path_def)
next
  case False
  assume "list_all plain ws"
  with False show ?thesis
    by (simp add: path_Clean_def abs_path_def clean_parts_def show_path_def split_join_plain
        foldl_clean_plain) (simp add: clean_step_def foldl_clean_plain)
qed

lemma join_with_snoc: "ws \<noteq> [] \<Longrightarrow> join_with sep (ws @ [w]) = join_with sep ws @ sep @ w"
  by (induction sep ws rule: join_with.induct) simp_all

lemma abs_path_append:
  "ws \<noteq> [] \<Longrightarrow> abs_path ws @ slash # w = abs_path (ws @ [w])"
  by (simp add: abs_path_def join_with_snoc)

text \<open>Joining a plain name to a cleaned absolute path below the root adds one component.\<close>

lemma path_Join_plain:
  "ws \<noteq> [] \<Longrightarrow> list_all plain ws \<Longrightarrow> plain w \<Longrightarrow>
   path_Join [abs_path ws, w] = abs_path (ws @ [w])"
  using path_Clean_abs_path [of "ws @ [w]"]
  by (simp add: path_Join_def abs_path_append [symmetric]) (simp add: abs_path_def)

lemma abs_path_inject:
  "list_all plain ws \<Longrightarrow> list_all plain vs \<Longrightarrow> abs_path ws = abs_path vs \<Longrightarrow> ws = vs"
proof -
  have empty: "join_with ''/'' us = '''' \<longleftrightarrow> us = []" if "list_all plain us" for us
    using that by (cases us; cases "tl us") (auto simp: plain_def)
  assume a: "list_all plain ws" "list_all plain vs" "abs_path ws = abs_path vs"
  then have "join_with ''/'' ws = join_with ''/'' vs"
    by (simp add: abs_path_def)
  with a empty split_join_plain show ?thesis
    by metis
qed

section \<open>Relative paths\<close>

text \<open>
  \<^verbatim>\<open>filepath.Rel\<close>: the components both cleaned paths start with are dropped; each one left of the
  base is a step up, and one of them being \<^verbatim>\<open>..\<close> is an error.
\<close>

fun drop_common :: "'a list \<Rightarrow> 'a list \<Rightarrow> 'a list \<times> 'a list" where
  "drop_common (x # xs) (y # ys) = (if x = y then drop_common xs ys else (x # xs, y # ys))"
| "drop_common xs ys = (xs, ys)"

definition path_parts :: "string \<Rightarrow> string list" where
  "path_parts p = clean_parts (is_abs p) (split_on slash p)"

definition rel_error :: "string \<Rightarrow> string \<Rightarrow> string" where
  "rel_error base targ = ''Rel: can'' @ [CHR 0x27] @ ''t make '' @ targ @ '' relative to '' @ base"

definition path_Rel :: "string \<Rightarrow> string \<Rightarrow> string + string" where
  "path_Rel base targ =
     (if path_Clean targ = path_Clean base then Inr ''.''
      else if is_abs base \<noteq> is_abs targ
      then Inl (rel_error base targ)
      else let (bs, ts) = drop_common (path_parts base)
                 (if path_parts targ = [] \<and> \<not> is_abs targ then [''.''] else path_parts targ)
           in case bs of
                [] \<Rightarrow> Inr (join_with ''/'' ts)
              | b # _ \<Rightarrow>
                  if b = ''..''
                  then Inl (rel_error base targ)
                  else Inr (join_with ''/'' (replicate (length bs) ''..'' @ ts)))"

lemma drop_common_append [simp]: "drop_common xs (xs @ ys) = ([], ys)"
  by (induction xs) (cases ys; simp)+

lemma path_parts_abs_path:
  assumes "list_all plain ws"
  shows "path_parts (abs_path ws) = ws"
proof (cases "ws = []")
  case True
  then show ?thesis
    by (simp add: path_parts_def abs_path_def clean_parts_def clean_step_def)
next
  case False
  with assms show ?thesis
    by (simp add: path_parts_def abs_path_def clean_parts_def split_join_plain clean_step_def
        foldl_clean_plain)
qed

lemma is_abs_abs_path [simp]: "is_abs (abs_path ws)"
  by (simp add: abs_path_def)

text \<open>A path below a directory, relative to it.\<close>

lemma path_Rel_below:
  assumes "list_all plain ws" "list_all plain vs" "vs \<noteq> []"
  shows "path_Rel (abs_path ws) (abs_path (ws @ vs)) = Inr (join_with ''/'' vs)"
proof -
  have "abs_path (ws @ vs) \<noteq> abs_path ws"
    using assms abs_path_inject [of "ws @ vs" ws] by auto
  then show ?thesis
    using assms(1,2) by (simp add: path_Rel_def path_Clean_abs_path path_parts_abs_path)
qed

section \<open>Cleaning rooted paths\<close>

lemma clean_step_rooted: "list_all plain out \<Longrightarrow> slash \<notin> set w \<Longrightarrow> list_all plain (clean_step True out w)"
  by (auto simp: clean_step_def plain_def split: list.splits)

lemma clean_parts_rooted: "(\<forall>w \<in> set ws. slash \<notin> set w) \<Longrightarrow> list_all plain (clean_parts True ws)"
proof -
  have "list_all plain out \<Longrightarrow> \<forall>w \<in> set ws. slash \<notin> set w \<Longrightarrow> list_all plain (foldl (clean_step True) out ws)" for out
    by (induction ws arbitrary: out) (auto intro: clean_step_rooted)
  from this [of "[]"] show "\<forall>w \<in> set ws. slash \<notin> set w \<Longrightarrow> ?thesis"
    by (simp add: clean_parts_def list_all_iff)
qed

text \<open>A rooted path cleans to one of plain components: no \<^verbatim>\<open>..\<close> is left.\<close>

lemma path_Clean_rooted:
  obtains vs where "path_Clean (slash # p) = abs_path vs" and "list_all plain vs"
proof -
  let ?vs = "clean_parts True (split_on slash (slash # p))"
  have "list_all plain ?vs"
    using split_on_parts [of _ slash "slash # p"] by (intro clean_parts_rooted) blast
  moreover have "path_Clean (slash # p) = abs_path ?vs"
    by (simp add: path_Clean_def show_path_def abs_path_def)
  ultimately show ?thesis by (rule that [rotated])
qed

end
