(* ===== verification/HostWorld.thy ===== *)
theory HostWorld
  imports GoPath Json "HOL-Library.State_Monad"
begin

text \<open>
  The machine a process runs on, as the source of a host agent sees it: the calls it makes of the
  operating system, of the Firecracker process and of its sockets, and the answers they get. What
  answers is an arbitrary function of the calls made so far (\<open>os_env\<close>), so a statement for every
  environment holds whatever fails, and other processes and goroutines may change the machine
  between two calls. The calls made and their answers are kept in a trace, the last one first.

  An operation of the program is a state monad over this world; \<open>attempt\<close> is Go's
  \<^verbatim>\<open>x, err := m; if err != nil { h }\<close>, and \<open>wp\<close> the weakest precondition by which the operations
  are reasoned about.
\<close>

section \<open>Calls and answers\<close>

text \<open>
  The kernel's network and BPF interfaces, reached through \<^verbatim>\<open>cilium/ebpf\<close>, \<^verbatim>\<open>netlink\<close> and
  \<^verbatim>\<open>wgctrl\<close>. Interfaces are named by their name or index, BPF objects by a number.
\<close>

datatype net_call =
    InterfaceNames
  | InterfaceByName string
  | LinkByIndex nat
  | LinkByName string
  | LinkSetUp string
  | LinkDel string
  | RouteReplace nat "u8 list" nat
  | LoadCollectionSpec string
  | NewCollection string
  | CollectionProgram nat string
  | CollectionMap nat string
  | CloseCollection nat
  | MapPut nat u32 u32 u8
  | QdiscList nat
  | QdiscAdd nat string
  | QdiscDel nat string
  | AttachTCX nat nat
  | CloseLink nat
  | FilterAdd nat nat
  | FilterDel nat
  | WgOpen
  | WgConfigure string "u8 list" "u8 list" "string option" "(u8 list \<times> nat) list" int
  | WgDevice string
  | WgClose
  | ResolveUDPAddr string

text \<open>
  The libraries that write and read an archive: \<^verbatim>\<open>klauspost/compress/zstd\<close> and \<^verbatim>\<open>archive/tar\<close>, on the
  open file of a name. An entry is written with its name and the target of its link.
\<close>

datatype archive_call =
    ZstdNewWriter string
  | TarFileInfo string
  | ZstdNewReader string
  | ZstdClose string
  | TarWriteHeader string string string
  | TarWriteFile string string
  | TarReadFile string string
  | TarClose string

datatype os_call =
    Stat string
  | Lstat string
  | Readlink string
  | Rename string string
  | Symlink string string
  | OpenTrunc string
  | Archive archive_call
  | Getwd
  | MkdirAll string
  | RemoveAll string
  | RemoveFile string
  | WriteFile string string
  | ReadFile string
  | OpenFile string
  | CreateFile string
  | OpenAppend string
  | CloseFile string
  | CopyBytes string string
  | WalkDir string
  | SysMount string string string string
  | SysUnmount string
  | RunCommand "string list"
  | StartProcess nat u64 "string list"
  | SendLog string string int string
  | CancelContext nat
  | KillProcess nat
  | WaitProcess nat
  | ParseURL string
  | HttpPut string string json
  | DialUnix string
  | SetDeadline string u64
  | SendText string string
  | SendJson string json
  | ReadLine string
  | ReadJson string
  | CloseConn string
  | Sleep u64
  | Metric string "string list" int
  | Net net_call

text \<open>
  An answer: the error, when the call fails, and what it returns otherwise: a text, a number, a
  list of names, the body of a message; and the time the call took, in nanoseconds.
\<close>

record reply =
  rp_err :: "string option"
  rp_text :: string
  rp_num :: nat
  rp_names :: "string list"
  rp_body :: body
  rp_time :: nat

definition plain_reply :: reply where
  "plain_reply = \<lparr>rp_err = None, rp_text = '''', rp_num = 0, rp_names = [],
     rp_body = Malformed, rp_time = 0\<rparr>"

type_synonym event = "os_call \<times> reply"

text \<open>
  The world: the environment, the trace, the clock, the platform (\<^verbatim>\<open>runtime.GOOS\<close>) and the texts of
  the JSON decoder's errors. The clock is the monotonic one of package \<^verbatim>\<open>time\<close>: every call takes its
  time, and \<^verbatim>\<open>time.Sleep\<close> pauses for at least its duration.
\<close>

record host =
  os_env :: "event list \<Rightarrow> os_call \<Rightarrow> reply"
  os_trace :: "event list"
  os_clock :: time
  os_GOOS :: string
  os_json_error :: "json_error \<Rightarrow> string"

type_synonym ('s, 'a) io = "('s host_scheme, 'a) state"

section \<open>The monad of operations\<close>

abbreviation ret :: "'a \<Rightarrow> ('s, 'a) state" where
  "ret \<equiv> State_Monad.return"

abbreviation the_state :: "('s, 's) state" where
  "the_state \<equiv> State_Monad.get"

abbreviation change :: "('s \<Rightarrow> 's) \<Rightarrow> ('s, unit) state" where
  "change \<equiv> State_Monad.update"

fun pause :: "os_call \<Rightarrow> time" where
  "pause (Sleep d) = sint d"
| "pause _ = 0"

definition note_call :: "os_call \<Rightarrow> 's host_scheme \<Rightarrow> 's host_scheme" where
  "note_call c s =
     (let a = os_env s (os_trace s) c
      in s\<lparr>os_trace := (c, a) # os_trace s, os_clock := os_clock s + pause c + int (rp_time a)\<rparr>)"

definition perform_raw :: "os_call \<Rightarrow> ('s, reply) io" where
  "perform_raw c = State (\<lambda>s. (os_env s (os_trace s) c, note_call c s))"

definition answer :: "reply \<Rightarrow> string + reply" where
  "answer a = (case rp_err a of Some e \<Rightarrow> Inl e | None \<Rightarrow> Inr a)"

definition perform :: "os_call \<Rightarrow> ('s, string + reply) io" where
  "perform c = do { a \<leftarrow> perform_raw c; ret (answer a) }"

definition attempt ::
  "('s, 'e + 'a) state \<Rightarrow> ('e \<Rightarrow> ('s, 'b) state) \<Rightarrow> ('a \<Rightarrow> ('s, 'b) state) \<Rightarrow> ('s, 'b) state" where
  "attempt m h k = do { r \<leftarrow> m; case r of Inl e \<Rightarrow> h e | Inr x \<Rightarrow> k x }"

definition now :: "('s, time) io" where
  "now = do { s \<leftarrow> the_state; ret (os_clock s) }"

text \<open>
  \<^verbatim>\<open>context.WithTimeout\<close>: a new context. It is named by the number of calls made before it, which no
  other context made by the same process has once a call has been made on it.
\<close>

definition new_context :: "('s, nat) io" where
  "new_context = do { s \<leftarrow> the_state; ret (length (os_trace s)) }"

section \<open>Weakest preconditions\<close>

definition wp :: "('s, 'a) state \<Rightarrow> ('a \<Rightarrow> 's \<Rightarrow> bool) \<Rightarrow> 's \<Rightarrow> bool" where
  "wp m Q s \<longleftrightarrow> Q (fst (run_state m s)) (snd (run_state m s))"

lemma wp_ret [simp]: "wp (ret x) Q s = Q x s"
  by (simp add: wp_def)

lemma wp_bind [simp]: "wp (State_Monad.bind m f) Q s = wp m (\<lambda>r. wp (f r) Q) s"
  by (simp add: wp_def split: prod.splits)

lemma wp_get [simp]: "wp the_state Q s = Q s s"
  by (simp add: wp_def)

lemma run_state_update [simp]: "run_state (change f) s = ((), f s)"
  by (simp add: State_Monad.update_def)

lemma wp_update [simp]: "wp (change f) Q s = Q () (f s)"
  by (simp add: wp_def)

lemma wp_attempt [simp]:
  "wp (attempt m h k) Q s =
   wp m (\<lambda>r. case r of Inl e \<Rightarrow> wp (h e) Q | Inr x \<Rightarrow> wp (k x) Q) s"
  by (simp add: attempt_def) (simp add: wp_def split: sum.splits)

lemma wp_mono: "wp m P s \<Longrightarrow> (\<And>r s'. P r s' \<Longrightarrow> Q r s') \<Longrightarrow> wp m Q s"
  by (simp add: wp_def)

lemma wp_run: "wp m Q s \<Longrightarrow> run_state m s = (r, s') \<Longrightarrow> Q r s'"
  by (simp add: wp_def)

lemma wp_perform_raw:
  "wp (perform_raw c) Q s = Q (os_env s (os_trace s) c) (note_call c s)"
  by (simp add: wp_def perform_raw_def)

lemma wp_perform:
  "wp (perform c) Q s = Q (answer (os_env s (os_trace s) c)) (note_call c s)"
  by (simp add: perform_def wp_perform_raw)

lemma note_call_simps [simp]:
  "os_env (note_call c s) = os_env s" "os_GOOS (note_call c s) = os_GOOS s"
  "os_json_error (note_call c s) = os_json_error s"
  "host.more (note_call c s) = host.more s"
  "os_trace (note_call c s) = (c, os_env s (os_trace s) c) # os_trace s"
  "os_clock (note_call c s) = os_clock s + pause c + int (rp_time (os_env s (os_trace s) c))"
  by (simp_all add: note_call_def Let_def)

lemma run_perform_raw [simp]:
  "run_state (perform_raw c) s = (os_env s (os_trace s) c, note_call c s)"
  by (simp add: perform_raw_def)

section \<open>What a process holds on the machine\<close>

text \<open>
  The resources that outlive the call which acquires them: a mounted file system, a directory, a
  running process and, until it is waited for, its entry in the process table. A release counts
  when it is asked for: what the operating system then does is the environment's business.
\<close>

datatype resource = Mounted string | Dir string | Running nat | Unreaped nat

definition after_event :: "event \<Rightarrow> resource set \<Rightarrow> resource set" where
  "after_event ev H =
     (let ok = rp_err (snd ev) = None; pid = rp_num (snd ev)
      in case fst ev of
           SysMount src tgt fstype dat \<Rightarrow> if ok then insert (Mounted tgt) H else H
         | MkdirAll p \<Rightarrow> if ok then insert (Dir p) H else H
         | StartProcess c d argv \<Rightarrow> if ok then insert (Running pid) (insert (Unreaped pid) H) else H
         | SysUnmount tgt \<Rightarrow> H - {Mounted tgt}
         | RemoveAll p \<Rightarrow> H - {Dir p}
         | KillProcess pid \<Rightarrow> H - {Running pid}
         | WaitProcess pid \<Rightarrow> H - {Running pid, Unreaped pid}
         | _ \<Rightarrow> H)"

lemma after_event_simps [simp]:
  "after_event (SysMount src tgt fstype dat, a) H =
     (if rp_err a = None then insert (Mounted tgt) H else H)"
  "after_event (MkdirAll p, a) H = (if rp_err a = None then insert (Dir p) H else H)"
  "after_event (StartProcess c d argv, a) H =
     (if rp_err a = None then insert (Running (rp_num a)) (insert (Unreaped (rp_num a)) H) else H)"
  "after_event (SysUnmount tgt, a) H = H - {Mounted tgt}"
  "after_event (RemoveAll p, a) H = H - {Dir p}"
  "after_event (KillProcess pid, a) H = H - {Running pid}"
  "after_event (WaitProcess pid, a) H = H - {Running pid, Unreaped pid}"
  by (simp_all add: after_event_def Let_def)

definition held :: "'s host_scheme \<Rightarrow> resource set" where
  "held s = foldr after_event (os_trace s) {}"

text \<open>The calls that acquire or release nothing.\<close>

definition neutral :: "os_call \<Rightarrow> bool" where
  "neutral c =
     (case c of
        SysMount src tgt fstype dat \<Rightarrow> False
      | MkdirAll p \<Rightarrow> False
      | StartProcess c d argv \<Rightarrow> False
      | SysUnmount tgt \<Rightarrow> False
      | RemoveAll p \<Rightarrow> False
      | KillProcess pid \<Rightarrow> False
      | WaitProcess pid \<Rightarrow> False
      | _ \<Rightarrow> True)"

lemma neutral_simps [simp]:
  "neutral (Stat p)" "neutral Getwd" "neutral (RemoveFile p)" "neutral (WriteFile p v)"
  "neutral (ReadFile p)" "neutral (OpenFile p)" "neutral (CreateFile p)" "neutral (OpenAppend p)" "neutral (CloseFile p)"
  "neutral (CopyBytes q p)" "neutral (WalkDir p)" "neutral (RunCommand argv)"
  "neutral (CancelContext n)" "neutral (ParseURL u)" "neutral (HttpPut s u j)"
  "neutral (DialUnix u)" "neutral (SetDeadline u d)" "neutral (SendText u v)"
  "neutral (SendJson u j)" "neutral (ReadLine u)" "neutral (ReadJson u)" "neutral (CloseConn u)"
  "neutral (Lstat p)" "neutral (Readlink p)" "neutral (Rename p v)" "neutral (Symlink p v)"
  "neutral (OpenTrunc p)" "neutral (Archive ac)"
  "neutral (Sleep d)" "neutral (SendLog p q i u)" "neutral (Metric u ls i)" "neutral (Net nc)"
  by (simp_all add: neutral_def)

lemma after_event_neutral [simp]: "neutral c \<Longrightarrow> after_event (c, a) H = H"
  by (cases c) (simp_all add: neutral_def after_event_def)

lemma held_note_call:
  "held (note_call c s) = after_event (c, os_env s (os_trace s) c) (held s)"
  by (simp add: held_def)

lemma held_neutral [simp]: "neutral c \<Longrightarrow> held (note_call c s) = held s"
  by (simp add: held_note_call after_event_neutral)

text \<open>
  An operation leaves the rest of the state alone: the environment, the platform, and what the
  process keeps besides the trace.
\<close>

definition frame :: "'s host_scheme \<Rightarrow> 's host_scheme \<Rightarrow> bool" where
  "frame s s' \<longleftrightarrow> os_env s' = os_env s \<and> os_GOOS s' = os_GOOS s \<and>
     os_json_error s' = os_json_error s \<and> host.more s' = host.more s"

lemma frame_refl [simp]: "frame s s"
  by (simp add: frame_def)

lemma frame_trans: "frame s s' \<Longrightarrow> frame s' s'' \<Longrightarrow> frame s s''"
  by (simp add: frame_def)

lemma frame_note_call [simp]:
  "frame s (note_call c s') \<longleftrightarrow> frame s s'" "frame (note_call c s) s' \<longleftrightarrow> frame s s'"
  by (simp_all add: frame_def)

text \<open>The rule for a call: it fails, or it succeeds.\<close>

lemma perform_wp:
  assumes "\<And>a e s'. frame s s' \<Longrightarrow> rp_err a = Some e \<Longrightarrow> held s' = after_event (c, a) (held s) \<Longrightarrow>
             Q (Inl e) s'"
    and "\<And>a s'. frame s s' \<Longrightarrow> rp_err a = None \<Longrightarrow> held s' = after_event (c, a) (held s) \<Longrightarrow>
             Q (Inr a) s'"
  shows "wp (perform c) Q s"
  using assms by (auto simp: wp_perform answer_def held_note_call split: option.splits)

text \<open>Quiet operations: framed, and holding what was held before.\<close>

definition quiet :: "('s, 'a) io \<Rightarrow> bool" where
  "quiet m \<longleftrightarrow> (\<forall>s. wp m (\<lambda>r s'. frame s s' \<and> held s' = held s) s)"

named_theorems quiet_rules

lemma quiet_ret [quiet_rules]: "quiet (ret x)"
  by (simp add: quiet_def)

lemma quiet_get [quiet_rules]: "quiet the_state"
  by (simp add: quiet_def)

lemma quiet_new_context [quiet_rules]: "quiet new_context"
  by (simp add: quiet_def new_context_def)

lemma quiet_now [quiet_rules]: "quiet now"
  by (simp add: quiet_def now_def)

lemma quiet_perform_raw [quiet_rules]: "neutral c \<Longrightarrow> quiet (perform_raw c)"
  by (simp add: quiet_def wp_perform_raw)

lemma quiet_perform [quiet_rules]: "neutral c \<Longrightarrow> quiet (perform c)"
  by (simp add: quiet_def wp_perform)

lemma quiet_step:
  assumes "wp m (\<lambda>r s''. frame s' s'' \<and> held s'' = held s') s'" "frame s s'" "held s' = held s"
  shows "wp m (\<lambda>r s''. frame s s'' \<and> held s'' = held s) s'"
  using assms(1) by (rule wp_mono) (use assms(2,3) in \<open>auto dest: frame_trans\<close>)

lemma quiet_bind [quiet_rules]:
  "quiet m \<Longrightarrow> (\<And>x. quiet (f x)) \<Longrightarrow> quiet (State_Monad.bind m f)"
  unfolding quiet_def wp_bind
  by (intro allI) (rule wp_mono, erule spec, erule conjE, rule quiet_step, blast+)

lemma quiet_attempt [quiet_rules]:
  "quiet m \<Longrightarrow> (\<And>e. quiet (h e)) \<Longrightarrow> (\<And>x. quiet (k x)) \<Longrightarrow> quiet (attempt m h k)"
  unfolding attempt_def by (intro quiet_bind) (auto split: sum.split)

lemma quiet_if [quiet_rules]: "quiet m \<Longrightarrow> quiet n \<Longrightarrow> quiet (if b then m else n)"
  by simp

lemma quiet_option [quiet_rules]:
  "quiet m \<Longrightarrow> (\<And>x. quiet (f x)) \<Longrightarrow> quiet (case y of None \<Rightarrow> m | Some x \<Rightarrow> f x)"
  by (cases y) simp_all

lemma quiet_sum [quiet_rules]:
  "(\<And>x. quiet (f x)) \<Longrightarrow> (\<And>x. quiet (g x)) \<Longrightarrow> quiet (case y of Inl x \<Rightarrow> f x | Inr x \<Rightarrow> g x)"
  by (cases y) simp_all

lemma quiet_wp:
  "quiet m \<Longrightarrow> (\<And>r s'. frame s s' \<Longrightarrow> held s' = held s \<Longrightarrow> Q r s') \<Longrightarrow> wp m Q s"
  unfolding quiet_def by (metis (mono_tags, lifting) wp_mono)

section \<open>The calls an operation makes\<close>

text \<open>Every call the operation makes, and its answer, satisfies \<open>P\<close>; the trace only grows.\<close>

definition calls_in :: "(event \<Rightarrow> bool) \<Rightarrow> ('s, 'a) io \<Rightarrow> bool" where
  "calls_in P m \<longleftrightarrow> (\<forall>s. wp m (\<lambda>r s'. \<exists>evs. os_trace s' = evs @ os_trace s \<and> list_all P evs) s)"

named_theorems calls_rules

lemma calls_ret [calls_rules]: "calls_in P (ret x)"
  by (simp add: calls_in_def)

lemma calls_perform_raw [calls_rules]: "(\<And>a. P (c, a)) \<Longrightarrow> calls_in P (perform_raw c)"
  by (simp add: calls_in_def wp_perform_raw)

lemma calls_bind [calls_rules]:
  fixes m :: "('s, 'a) io" and f :: "'a \<Rightarrow> ('s, 'b) io"
  assumes "calls_in P m" and "\<And>x. calls_in P (f x)"
  shows "calls_in P (State_Monad.bind m f)"
  unfolding calls_in_def wp_bind
proof (intro allI)
  fix s :: "'s host_scheme"
  have "wp m (\<lambda>r s'. \<exists>evs. os_trace s' = evs @ os_trace s \<and> list_all P evs) s"
    using assms(1) unfolding calls_in_def by blast
  then show "wp m (\<lambda>r. wp (f r) (\<lambda>r' s'. \<exists>evs. os_trace s' = evs @ os_trace s \<and> list_all P evs)) s"
  proof (rule wp_mono)
    fix r and s1 :: "'s host_scheme"
    assume "\<exists>evs. os_trace s1 = evs @ os_trace s \<and> list_all P evs"
    then obtain evs where evs: "os_trace s1 = evs @ os_trace s" "list_all P evs" by blast
    have "wp (f r) (\<lambda>r' s'. \<exists>evs. os_trace s' = evs @ os_trace s1 \<and> list_all P evs) s1"
      using assms(2) unfolding calls_in_def by blast
    then show "wp (f r) (\<lambda>r' s'. \<exists>evs. os_trace s' = evs @ os_trace s \<and> list_all P evs) s1"
      by (rule wp_mono) (use evs in \<open>auto intro: exI [of _ "_ @ evs"]\<close>)
  qed
qed

lemma calls_perform [calls_rules]: "(\<And>a. P (c, a)) \<Longrightarrow> calls_in P (perform c)"
  unfolding perform_def by (intro calls_bind calls_perform_raw calls_ret)

lemma calls_attempt [calls_rules]:
  "calls_in P m \<Longrightarrow> (\<And>e. calls_in P (h e)) \<Longrightarrow> (\<And>x. calls_in P (k x)) \<Longrightarrow> calls_in P (attempt m h k)"
  unfolding attempt_def by (intro calls_bind) (auto split: sum.split)

lemma calls_if [calls_rules]: "(b \<Longrightarrow> calls_in P m) \<Longrightarrow> (\<not> b \<Longrightarrow> calls_in P n) \<Longrightarrow> calls_in P (if b then m else n)"
  by simp

lemma calls_option [calls_rules]:
  "calls_in P m \<Longrightarrow> (\<And>x. calls_in P (f x)) \<Longrightarrow> calls_in P (case y of None \<Rightarrow> m | Some x \<Rightarrow> f x)"
  by (cases y) simp_all

lemma calls_mono: "calls_in P m \<Longrightarrow> (\<And>ev. P ev \<Longrightarrow> Q ev) \<Longrightarrow> calls_in Q m"
  unfolding calls_in_def by (blast intro: wp_mono list.pred_mono_strong)

end
