(* ===== verification/Sha256.thy ===== *)
theory Sha256
  imports Prelude
begin

text \<open>
  SHA-256 (FIPS 180-4), which the program takes from \<^verbatim>\<open>crypto/sha256\<close>: the overlay names the files a
  wiped directory still has by it, and the registry checks image digests with it. Bytes are
  characters; the digest is given as the lower-case hexadecimal text the verb \<^verbatim>\<open>%x\<close> prints.
\<close>

unbundle bit_operations_syntax

text \<open>
  The constants are the first 32 bits of the fractional parts of roots of the first primes: cube
  roots for the rounds, square roots for the start. An integer root is found bit by bit.
\<close>

definition sha_primes :: "int list" where
  "sha_primes =
     [2, 3, 5, 7, 11, 13, 17, 19, 23, 29, 31, 37, 41, 43, 47, 53, 59, 61, 67, 71, 73, 79, 83, 89, 97,
      101, 103, 107, 109, 113, 127, 131, 137, 139, 149, 151, 157, 163, 167, 173, 179, 181, 191, 193,
      197, 199, 211, 223, 227, 229, 233, 239, 241, 251, 257, 263, 269, 271, 277, 281, 283, 293, 307, 311]"

primrec root_bits :: "nat \<Rightarrow> int \<Rightarrow> nat \<Rightarrow> int \<Rightarrow> int" where
  "root_bits k n 0 r = r"
| "root_bits k n (Suc i) r =
     (if (r + 2 ^ i) ^ k \<le> n then root_bits k n i (r + 2 ^ i) else root_bits k n i r)"

definition root_fraction :: "nat \<Rightarrow> int \<Rightarrow> u32" where
  "root_fraction k p = word_of_int (root_bits k (p * 2 ^ (32 * k)) 40 0)"

definition sha_K :: "u32 list" where
  "sha_K = map (root_fraction 3) sha_primes"

definition sha_init :: "u32 list" where
  "sha_init = map (root_fraction 2) (take 8 sha_primes)"

text \<open>The padding: a one bit, zeros, and the length in bits as 64 big-endian bits.\<close>

definition be_bytes :: "nat \<Rightarrow> nat \<Rightarrow> nat list" where
  "be_bytes k n = map (\<lambda>i. n div 256 ^ (k - 1 - i) mod 256) [0..<k]"

definition sha_pad :: "nat list \<Rightarrow> nat list" where
  "sha_pad bs =
     bs @ [0x80] @ replicate ((119 - length bs mod 64) mod 64) 0 @ be_bytes 8 (8 * length bs mod 2 ^ 64)"

definition groups :: "nat \<Rightarrow> 'a list \<Rightarrow> 'a list list" where
  "groups k xs = map (\<lambda>i. take k (drop (k * i) xs)) [0..<length xs div k]"

definition be_word :: "nat list \<Rightarrow> u32" where
  "be_word bs = foldl (\<lambda>w b. 256 * w + of_nat b) 0 bs"

text \<open>The message schedule, extended to 64 words, and the compression of one block.\<close>

definition schedule_step :: "u32 list \<Rightarrow> u32 list" where
  "schedule_step ws =
     (let n = length ws; a = ws ! (n - 15); b = ws ! (n - 2);
          s0 = word_rotr 7 a XOR word_rotr 18 a XOR drop_bit 3 a;
          s1 = word_rotr 17 b XOR word_rotr 19 b XOR drop_bit 10 b
      in ws @ [ws ! (n - 16) + s0 + ws ! (n - 7) + s1])"

fun sha_round :: "u32 \<times> u32 \<Rightarrow> u32 list \<Rightarrow> u32 list" where
  "sha_round (k, w) [a, b, c, d, e, f, g, h] =
     (let S1 = word_rotr 6 e XOR word_rotr 11 e XOR word_rotr 25 e;
          ch = (e AND f) XOR (NOT e AND g);
          t1 = h + S1 + ch + k + w;
          S0 = word_rotr 2 a XOR word_rotr 13 a XOR word_rotr 22 a;
          maj = (a AND b) XOR (a AND c) XOR (b AND c)
      in [t1 + S0 + maj, a, b, c, d + t1, e, f, g])"
| "sha_round kw hs = hs"

definition sha_block :: "u32 list \<Rightarrow> nat list \<Rightarrow> u32 list" where
  "sha_block hs bs =
     (let ws = (schedule_step ^^ 48) (map be_word (groups 4 bs))
      in map2 (+) hs (fold sha_round (zip sha_K ws) hs))"

definition sha256 :: "string \<Rightarrow> u32 list" where
  "sha256 s = foldl sha_block sha_init (groups 64 (sha_pad (map of_char s)))"

definition hex_digit :: "nat \<Rightarrow> char" where
  "hex_digit d = char_of (if d < 10 then 48 + d else 87 + d)"

definition hex_word :: "u32 \<Rightarrow> string" where
  "hex_word w = map (\<lambda>i. hex_digit (unat (drop_bit (4 * (7 - i)) w AND 15))) [0..<8]"

definition hex_sha256 :: "string \<Rightarrow> string" where
  "hex_sha256 s = concat (map hex_word (sha256 s))"

lemma length_sha_round [simp]: "length (sha_round kw hs) = length hs"
  by (cases "(kw, hs)" rule: sha_round.cases) (simp_all add: Let_def)

lemma length_sha_block: "length hs = 8 \<Longrightarrow> length (sha_block hs bs) = 8"
proof -
  have "length (fold sha_round kws hs) = length hs" for kws
    by (induction kws arbitrary: hs) simp_all
  then show "length hs = 8 \<Longrightarrow> length (sha_block hs bs) = 8"
    by (simp add: sha_block_def Let_def)
qed

lemma length_sha256: "length (sha256 s) = 8"
proof -
  have "length hs = 8 \<Longrightarrow> length (foldl sha_block hs bss) = 8" for hs bss
    by (induction bss arbitrary: hs) (simp_all add: length_sha_block)
  then show ?thesis by (simp add: sha256_def sha_init_def sha_primes_def)
qed

lemma length_hex_sha256: "length (hex_sha256 s) = 64"
proof -
  have "length (concat (map hex_word ws)) = 8 * length ws" for ws
    by (induction ws) (simp_all add: hex_word_def)
  then show ?thesis by (simp add: hex_sha256_def length_sha256)
qed


end
