(* ===== verification/HostResources.thy ===== *)
theory HostResources
  imports HostWorld Sha256
begin

text \<open>
  The resources of one sandbox on its host: the overlay mount (\<^verbatim>\<open>internal/overlay\<close>), the shared lower
  directory it stands on (\<^verbatim>\<open>cmd/host-agent/rootfs_lower_linux.go\<close>) and the control group with its
  limits (\<^verbatim>\<open>internal/cgroup\<close>), on Linux. Each operation is followed by what it holds afterwards, on
  success and on every failure.
\<close>

section \<open>The overlay\<close>

record OverlayConfig =
  oc_SandboxID :: string
  oc_BaseDir :: string
  oc_LowerDir :: string

record OverlayPaths =
  op_Upper :: string
  op_Work :: string
  op_Merged :: string

fun mkdir_all :: "string list \<Rightarrow> ('s, string + unit) io" where
  "mkdir_all [] = ret (Inr ())"
| "mkdir_all (d # ds) =
     attempt (perform (MkdirAll d))
       (\<lambda>e. ret (Inl (''overlay: mkdir '' @ d @ '': '' @ e)))
       (\<lambda>_. mkdir_all ds)"

definition mountOverlay :: "OverlayPaths \<Rightarrow> string \<Rightarrow> ('s, string + unit) io" where
  "mountOverlay paths lowerDir =
     (let opts = ''lowerdir='' @ lowerDir @ '',upperdir='' @ op_Upper paths @
                 '',workdir='' @ op_Work paths
      in attempt (perform (SysMount ''overlay'' (op_Merged paths) ''overlay'' opts))
           (\<lambda>e. ret (Inl (''overlay: mount: '' @ e)))
           (\<lambda>_. ret (Inr ())))"

definition unmountOverlay :: "string \<Rightarrow> ('s, string + unit) io" where
  "unmountOverlay merged =
     attempt (perform (SysUnmount merged))
       (\<lambda>e. ret (Inl (''overlay: unmount '' @ merged @ '': '' @ e)))
       (\<lambda>_. ret (Inr ()))"

definition overlay_paths :: "OverlayConfig \<Rightarrow> OverlayPaths" where
  "overlay_paths cfg =
     (let base = path_Join [oc_BaseDir cfg, oc_SandboxID cfg]
      in \<lparr>op_Upper = path_Join [base, ''upper''], op_Work = path_Join [base, ''work''],
          op_Merged = path_Join [base, ''merged'']\<rparr>)"

definition overlay_Setup :: "OverlayConfig \<Rightarrow> ('s, string + OverlayPaths) io" where
  "overlay_Setup cfg =
     (let paths = overlay_paths cfg
      in attempt (mkdir_all [op_Upper paths, op_Work paths, op_Merged paths])
           (\<lambda>e. ret (Inl e))
           (\<lambda>_. attempt (mountOverlay paths (oc_LowerDir cfg))
                  (\<lambda>e. ret (Inl e))
                  (\<lambda>_. ret (Inr paths))))"

text \<open>
  The walk over the upper directory is one call, which is answered by the paths visited (the
  directory itself among them) or by the first error.
\<close>

definition verifyEmptyUpper :: "string \<Rightarrow> ('s, string + unit) io" where
  "verifyEmptyUpper upper =
     attempt (perform (WalkDir upper))
       (\<lambda>e. ret (Inl (''walkdir: '' @ e)))
       (\<lambda>a. let visited = filter (\<lambda>p. p \<noteq> upper) (rp_names a)
            in if length visited > 0
               then ret (Inl (''upper dir contains '' @ show_nat (length visited) @
                              '' entries after wipe (hash '' @ hex_sha256 (concat visited) @ '')''))
               else ret (Inr ()))"

definition overlay_Teardown :: "OverlayConfig \<Rightarrow> ('s, string + unit) io" where
  "overlay_Teardown cfg =
     (let merged = op_Merged (overlay_paths cfg); upper = op_Upper (overlay_paths cfg)
      in attempt (unmountOverlay merged)
           (\<lambda>e. ret (Inl e))
           (\<lambda>_. attempt (perform (RemoveAll upper))
             (\<lambda>e. ret (Inl (''overlay: remove upper '' @ upper @ '': '' @ e)))
             (\<lambda>_. attempt (perform (MkdirAll upper))
               (\<lambda>e. ret (Inl (''overlay: recreate upper '' @ upper @ '': '' @ e)))
               (\<lambda>_. attempt (verifyEmptyUpper upper)
                 (\<lambda>e. ret (Inl (''overlay: upper not empty after wipe for '' @ oc_SandboxID cfg @
                                '': '' @ e)))
                 (\<lambda>_. ret (Inr ()))))))"

text \<open>The directories a sandbox's overlay leaves on the disk.\<close>

definition overlay_dirs :: "OverlayConfig \<Rightarrow> resource set" where
  "overlay_dirs cfg =
     {Dir (op_Upper (overlay_paths cfg)), Dir (op_Work (overlay_paths cfg)),
      Dir (op_Merged (overlay_paths cfg))}"

definition overlay_mount :: "OverlayConfig \<Rightarrow> resource" where
  "overlay_mount cfg = Mounted (op_Merged (overlay_paths cfg))"

lemma mkdir_all_wp:
  assumes "\<And>r s'. frame s s' \<Longrightarrow> held s' \<subseteq> held s \<union> Dir ` set ds \<Longrightarrow>
             (r = Inr () \<Longrightarrow> held s' = held s \<union> Dir ` set ds) \<Longrightarrow> Q r s'"
  shows "wp (mkdir_all ds) Q s"
  using assms
proof (induction ds arbitrary: s)
  case Nil
  then show ?case by simp
next
  case (Cons d ds)
  show ?case
    unfolding mkdir_all.simps wp_attempt
  proof (rule perform_wp, goal_cases)
    case (1 a e s')
    then show ?case by (auto intro!: Cons.prems)
  next
    case (2 a s')
    then show ?case
      by (auto intro!: Cons.IH Cons.prems simp: frame_def)
  qed
qed

lemma overlay_Setup_wp:
  assumes "\<And>e s'. frame s s' \<Longrightarrow> held s' \<subseteq> held s \<union> overlay_dirs cfg \<Longrightarrow> Q (Inl e) s'"
    and "\<And>s'. frame s s' \<Longrightarrow>
           held s' = insert (overlay_mount cfg) (held s \<union> overlay_dirs cfg) \<Longrightarrow>
           Q (Inr (overlay_paths cfg)) s'"
  shows "wp (overlay_Setup cfg) Q s"
proof -
  let ?p = "overlay_paths cfg"
  have dirs: "Dir ` set [op_Upper ?p, op_Work ?p, op_Merged ?p] = overlay_dirs cfg"
    by (auto simp: overlay_dirs_def)
  show ?thesis
    unfolding overlay_Setup_def mountOverlay_def Let_def wp_attempt wp_ret
  proof (rule mkdir_all_wp, unfold dirs, goal_cases)
    case (1 r s')
    then show ?case
      by (cases r)
        (auto intro!: perform_wp assms simp: overlay_mount_def frame_def)
  qed
qed

lemma quiet_verifyEmptyUpper [quiet_rules]: "quiet (verifyEmptyUpper upper)"
  unfolding verifyEmptyUpper_def Let_def by (intro quiet_rules) simp_all

text \<open>
  A teardown always asks for the unmount first, and gives up when that fails; only a mount it got
  rid of is followed by the wipe. Whatever happens, it holds no more than the upper directory,
  which it creates again.
\<close>

lemma overlay_Teardown_wp:
  assumes "\<And>r s'. frame s s' \<Longrightarrow>
             held s' \<subseteq> (held s - {overlay_mount cfg}) \<union> overlay_dirs cfg \<Longrightarrow>
             held s - {overlay_mount cfg} - overlay_dirs cfg \<subseteq> held s' \<Longrightarrow> Q r s'"
  shows "wp (overlay_Teardown cfg) Q s"
  unfolding overlay_Teardown_def Let_def unmountOverlay_def wp_attempt wp_ret
  by (auto simp: overlay_mount_def overlay_dirs_def frame_def split: sum.split
      intro!: perform_wp assms quiet_wp [OF quiet_verifyEmptyUpper])

section \<open>The lower directory\<close>

definition path_Abs :: "string \<Rightarrow> ('s, string + string) io" where
  "path_Abs p =
     (if is_abs p then ret (Inr (path_Clean p))
      else attempt (perform Getwd) (\<lambda>e. ret (Inl e)) (\<lambda>a. ret (Inr (path_Join [rp_text a, p]))))"

definition mount_line_at :: "string \<Rightarrow> string \<Rightarrow> bool" where
  "mount_line_at dir line =
     (let flds = fields_of line in length flds \<ge> 2 \<and> flds ! 1 = dir)"

definition isMountedAt :: "string \<Rightarrow> ('s, bool) io" where
  "isMountedAt path =
     attempt (path_Abs path)
       (\<lambda>_. ret False)
       (\<lambda>dir. attempt (perform (ReadFile ''/proc/mounts''))
         (\<lambda>_. ret False)
         (\<lambda>a. ret (list_ex (mount_line_at dir) (split_on (CHR 0x0A) (rp_text a)))))"

definition mount_lower :: "string \<Rightarrow> string \<Rightarrow> ('s, string + string) io" where
  "mount_lower baseRootfs mountPoint = do {
     mounted \<leftarrow> isMountedAt mountPoint;
     if mounted then ret (Inr mountPoint) else do {
       out \<leftarrow> perform_raw (RunCommand [''mount'', ''-o'', ''ro,loop'', baseRootfs, mountPoint]);
       case rp_err out of
         Some e \<Rightarrow> ret (Inl (''mount '' @ baseRootfs @ '' at '' @ mountPoint @ '': '' @ e @
           '': '' @ rp_text out @
           '' (run host-agent with sudo, or pre-mount: sudo mount -o ro,loop '' @
           baseRootfs @ '' '' @ mountPoint @ '')''))
       | None \<Rightarrow> ret (Inr mountPoint) } }"

definition overlayLowerDir :: "string \<Rightarrow> ('s, string + string) io" where
  "overlayLowerDir baseRootfs =
     attempt (perform (Stat baseRootfs))
       (\<lambda>e. ret (Inl (''stat base rootfs '' @ baseRootfs @ '': '' @ e)))
       (\<lambda>info. if rp_num info \<noteq> 0 then ret (Inr baseRootfs) else
         (let mountPoint = path_Join [path_Dir baseRootfs, ''base-rootfs-lower'']
          in attempt (perform (MkdirAll mountPoint))
               (\<lambda>e. ret (Inl (''mkdir overlay lower mount '' @ mountPoint @ '' (need root?): '' @ e)))
               (\<lambda>_. mount_lower baseRootfs mountPoint)))"

text \<open>All it can hold afterwards is the mount point's directory, which the sandboxes share.\<close>

definition lower_dir :: "string \<Rightarrow> resource" where
  "lower_dir baseRootfs = Dir (path_Join [path_Dir baseRootfs, ''base-rootfs-lower''])"

lemma quiet_isMountedAt [quiet_rules]: "quiet (isMountedAt p)"
  unfolding isMountedAt_def path_Abs_def by (intro quiet_rules) simp_all

lemma quiet_mount_lower [quiet_rules]: "quiet (mount_lower baseRootfs mp)"
  unfolding mount_lower_def by (intro quiet_rules) simp_all

lemma overlayLowerDir_wp:
  assumes "\<And>r s'. frame s s' \<Longrightarrow> held s \<subseteq> held s' \<Longrightarrow>
             held s' \<subseteq> insert (lower_dir baseRootfs) (held s) \<Longrightarrow> Q r s'"
  shows "wp (overlayLowerDir baseRootfs) Q s"
  unfolding overlayLowerDir_def Let_def wp_attempt
proof (rule perform_wp, goal_cases)
  case (1 a e s')
  then show ?case by (auto intro!: assms)
next
  case (2 a s')
  then show ?case
    by (auto intro!: perform_wp quiet_wp [OF quiet_mount_lower] assms simp: lower_dir_def frame_def)
qed

section \<open>The control group\<close>

definition cgroupBase :: string where
  "cgroupBase = ''/sys/fs/cgroup/sandboxes''"

record Limits =
  li_CPUMillis :: u32
  li_MemoryMiB :: u32
  li_SwapMiB :: u32

definition cgroup_dir :: "string \<Rightarrow> string" where
  "cgroup_dir sandboxID = path_Join [cgroupBase, sandboxID]"

definition cgroup_writeFile :: "string \<Rightarrow> string \<Rightarrow> string \<Rightarrow> ('s, string + unit) io" where
  "cgroup_writeFile dir name value =
     (let path = path_Join [dir, name]
      in attempt (perform (WriteFile path value))
           (\<lambda>e. ret (Inl (''cgroup: write '' @ path @ '': '' @ e)))
           (\<lambda>_. ret (Inr ())))"

text \<open>The texts of the limits, computed at 64 bits.\<close>

definition cpu_max :: "Limits \<Rightarrow> string" where
  "cpu_max l = (let cpuQuota = ucast (li_CPUMillis l) * 1000 :: u64
                in show_nat (unat cpuQuota) @ '' 1000000'')"

definition memory_max :: "Limits \<Rightarrow> string" where
  "memory_max l = (let memBytes = ucast (li_MemoryMiB l) * 1024 * 1024 :: u64
                   in show_nat (unat memBytes))"

definition swap_max :: "Limits \<Rightarrow> string" where
  "swap_max l =
     (if li_SwapMiB l > 0 then show_nat (unat (ucast (li_SwapMiB l) * 1024 * 1024 :: u64)) else ''0'')"

definition cgroup_Setup :: "string \<Rightarrow> Limits \<Rightarrow> ('s, string + string) io" where
  "cgroup_Setup sandboxID l = do {
     s \<leftarrow> the_state;
     if os_GOOS s \<noteq> ''linux''
     then ret (Inl (''cgroup: requires Linux (current OS: '' @ os_GOOS s @ '')''))
     else (let dir = cgroup_dir sandboxID
           in attempt (perform (MkdirAll dir))
                (\<lambda>e. ret (Inl (''cgroup: mkdir '' @ dir @ '': '' @ e)))
                (\<lambda>_. attempt (cgroup_writeFile dir ''cpu.max'' (cpu_max l))
                  (\<lambda>e. ret (Inl e))
                  (\<lambda>_. attempt (cgroup_writeFile dir ''memory.max'' (memory_max l))
                    (\<lambda>e. ret (Inl e))
                    (\<lambda>_. attempt (cgroup_writeFile dir ''memory.swap.max'' (swap_max l))
                      (\<lambda>e. ret (Inl e))
                      (\<lambda>_. ret (Inr dir)))))) }"

definition cgroup_AddPID :: "string \<Rightarrow> nat \<Rightarrow> ('s, string + unit) io" where
  "cgroup_AddPID sandboxID pid = do {
     s \<leftarrow> the_state;
     if os_GOOS s \<noteq> ''linux'' then ret (Inl ''cgroup: requires Linux'')
     else cgroup_writeFile (cgroup_dir sandboxID) ''cgroup.procs'' (show_nat pid) }"

definition cgroup_Teardown :: "string \<Rightarrow> ('s, string + unit) io" where
  "cgroup_Teardown sandboxID = do {
     s \<leftarrow> the_state;
     if os_GOOS s \<noteq> ''linux'' then ret (Inr ())
     else (let dir = cgroup_dir sandboxID
           in attempt (perform (RemoveAll dir))
                (\<lambda>e. ret (Inl (''cgroup: teardown '' @ dir @ '': '' @ e)))
                (\<lambda>_. ret (Inr ()))) }"

text \<open>
  \<^verbatim>\<open>splitLines\<close> runs over the string with the start of the current line; a last line without a
  newline counts when it is not empty.
\<close>

fun split_lines_from :: "string \<Rightarrow> string \<Rightarrow> string list" where
  "split_lines_from l [] = (if l = [] then [] else [l])"
| "split_lines_from l (c # s) =
     (if c = CHR 0x0A then l # split_lines_from [] s else split_lines_from (l @ [c]) s)"

definition splitLines :: "string \<Rightarrow> string list" where
  "splitLines s = split_lines_from [] s"

text \<open>
  \<^verbatim>\<open>fmt.Sscanf(line, "%s %d", &key, &val)\<close>, when it reads both: a word, white space, the digits of a
  number of 64 bits; what follows is left unread.
\<close>

definition scan_key_value :: "string \<Rightarrow> (string \<times> u64) option" where
  "scan_key_value line =
     (let s = dropWhile is_space line; key = takeWhile (\<lambda>c. \<not> is_space c) s;
          rest = dropWhile is_space (drop (length key) s);
          num = takeWhile is_digit rest
      in if key = [] \<or> num = [] \<or> read_nat num \<ge> 2 ^ 64 then None
         else Some (key, of_nat (read_nat num)))"

fun oom_lines :: "string list \<Rightarrow> u64" where
  "oom_lines [] = 0"
| "oom_lines (l # ls) =
     (case scan_key_value l of
        Some (key, val) \<Rightarrow> if key = ''oom'' then val else oom_lines ls
      | None \<Rightarrow> oom_lines ls)"

definition cgroup_OOMCount :: "string \<Rightarrow> ('s, string + u64) io" where
  "cgroup_OOMCount sandboxID = do {
     s \<leftarrow> the_state;
     if os_GOOS s \<noteq> ''linux'' then ret (Inr 0)
     else (let dir = cgroup_dir sandboxID
           in attempt (perform (ReadFile (path_Join [dir, ''memory.events''])))
                (\<lambda>e. ret (Inl (''cgroup: read memory.events for '' @ sandboxID @ '': '' @ e)))
                (\<lambda>a. ret (Inr (oom_lines (splitLines (rp_text a)))))) }"

lemma quiet_writeFile [quiet_rules]: "quiet (cgroup_writeFile dir name value)"
  unfolding cgroup_writeFile_def Let_def by (intro quiet_rules) simp_all

lemma quiet_AddPID [quiet_rules]: "quiet (cgroup_AddPID sandboxID pid)"
  unfolding cgroup_AddPID_def by (intro quiet_rules)

lemma quiet_OOMCount [quiet_rules]: "quiet (cgroup_OOMCount sandboxID)"
  unfolding cgroup_OOMCount_def Let_def by (intro quiet_rules) simp_all

text \<open>
  A failed setup may leave the group's directory behind: nothing in it removes the directory when
  a limit cannot be written.
\<close>

lemma cgroup_Setup_wp:
  assumes "\<And>e s'. frame s s' \<Longrightarrow> held s' \<subseteq> insert (Dir (cgroup_dir sandboxID)) (held s) \<Longrightarrow>
             held s \<subseteq> held s' \<Longrightarrow> Q (Inl e) s'"
    and "\<And>s'. frame s s' \<Longrightarrow> os_GOOS s = ''linux'' \<Longrightarrow>
           held s' = insert (Dir (cgroup_dir sandboxID)) (held s) \<Longrightarrow>
           Q (Inr (cgroup_dir sandboxID)) s'"
  shows "wp (cgroup_Setup sandboxID l) Q s"
  unfolding cgroup_Setup_def Let_def wp_attempt wp_bind wp_get
  by (auto intro!: perform_wp quiet_wp [OF quiet_writeFile] assms simp: frame_def split: sum.split)

lemma cgroup_Teardown_wp:
  assumes "os_GOOS s = ''linux''"
    and "\<And>r s'. frame s s' \<Longrightarrow> held s' = held s - {Dir (cgroup_dir sandboxID)} \<Longrightarrow> Q r s'"
  shows "wp (cgroup_Teardown sandboxID) Q s"
  unfolding cgroup_Teardown_def Let_def using assms(1)
  by (auto intro!: perform_wp assms(2))

end
