(* ===== verification/Firecracker.thy ===== *)
theory Firecracker
  imports HostWorld
begin

text \<open>
  The Firecracker process as its host drives it: the client of its control socket
  (\<^verbatim>\<open>internal/firecracker/client.go\<close>), the snapshots (\<^verbatim>\<open>internal/snapshot/snapshot.go\<close>) and the
  connection to the agent inside the machine (\<^verbatim>\<open>internal/vsock\<close>). None of them holds a resource
  longer than its call.
\<close>

section \<open>The control socket\<close>

record FcClient =
  fc_socketPath :: string

definition fc_NewClient :: "string \<Rightarrow> FcClient" where
  "fc_NewClient socketPath = \<lparr>fc_socketPath = socketPath\<rparr>"

record MachineConfig =
  mc_VcpuCount :: int
  mc_MemSizeMib :: int
  mc_SMT :: bool

record BootSource =
  bs_KernelImagePath :: string
  bs_BootArgs :: string

record Drive =
  dr_DriveID :: string
  dr_PathOnHost :: string
  dr_IsRootDevice :: bool
  dr_IsReadOnly :: bool

record NetworkInterface =
  ni_IfaceID :: string
  ni_HostDevName :: string

record Vsock =
  vs_GuestCID :: u32
  vs_UDSPath :: string

definition enc_MachineConfig :: "MachineConfig \<Rightarrow> json" where
  "enc_MachineConfig c = JObj [(''vcpu_count'', j_int (mc_VcpuCount c)),
     (''mem_size_mib'', j_int (mc_MemSizeMib c)), (''smt'', JBool (mc_SMT c))]"

definition enc_BootSource :: "BootSource \<Rightarrow> json" where
  "enc_BootSource b = JObj [(''kernel_image_path'', j_str (bs_KernelImagePath b)),
     (''boot_args'', j_str (bs_BootArgs b))]"

definition enc_Drive :: "Drive \<Rightarrow> json" where
  "enc_Drive d = JObj [(''drive_id'', j_str (dr_DriveID d)),
     (''path_on_host'', j_str (dr_PathOnHost d)), (''is_root_device'', JBool (dr_IsRootDevice d)),
     (''is_read_only'', JBool (dr_IsReadOnly d))]"

definition enc_NetworkInterface :: "NetworkInterface \<Rightarrow> json" where
  "enc_NetworkInterface i = JObj [(''iface_id'', j_str (ni_IfaceID i)),
     (''host_dev_name'', j_str (ni_HostDevName i))]"

definition enc_Vsock :: "Vsock \<Rightarrow> json" where
  "enc_Vsock v = JObj [(''guest_cid'', j_u32 (vs_GuestCID v)),
     (''uds_path'', j_str (vs_UDSPath v))]"

text \<open>
  One request. The body always has a JSON form, so the marshalling never fails; the answer's number
  is the status, its text the body of a refusal.
\<close>

definition fc_put :: "FcClient \<Rightarrow> string \<Rightarrow> json \<Rightarrow> ('s, string + unit) io" where
  "fc_put c path body =
     attempt (perform (ParseURL (''http://localhost'' @ path)))
       (\<lambda>e. ret (Inl (''firecracker: new request '' @ path @ '': '' @ e)))
       (\<lambda>_. attempt (perform (HttpPut (fc_socketPath c) path body))
         (\<lambda>e. ret (Inl (''firecracker: PUT '' @ path @ '': '' @ e)))
         (\<lambda>resp. if rp_num resp \<ge> 300
                 then ret (Inl (''firecracker: PUT '' @ path @ '' returned '' @
                                show_nat (rp_num resp) @ '': '' @ rp_text resp))
                 else ret (Inr ())))"

definition PutMachineConfig :: "FcClient \<Rightarrow> MachineConfig \<Rightarrow> ('s, string + unit) io" where
  "PutMachineConfig c cfg = fc_put c ''/machine-config'' (enc_MachineConfig cfg)"

definition PutBootSource :: "FcClient \<Rightarrow> BootSource \<Rightarrow> ('s, string + unit) io" where
  "PutBootSource c src = fc_put c ''/boot-source'' (enc_BootSource src)"

definition PutDrive :: "FcClient \<Rightarrow> Drive \<Rightarrow> ('s, string + unit) io" where
  "PutDrive c d = fc_put c (''/drives/'' @ dr_DriveID d) (enc_Drive d)"

definition PutNetworkInterface :: "FcClient \<Rightarrow> NetworkInterface \<Rightarrow> ('s, string + unit) io" where
  "PutNetworkInterface c i =
     fc_put c (''/network-interfaces/'' @ ni_IfaceID i) (enc_NetworkInterface i)"

definition PutVsock :: "FcClient \<Rightarrow> Vsock \<Rightarrow> ('s, string + unit) io" where
  "PutVsock c v = fc_put c ''/vsock'' (enc_Vsock v)"

definition StartInstance :: "FcClient \<Rightarrow> ('s, string + unit) io" where
  "StartInstance c = fc_put c ''/actions'' (JObj [(''action_type'', j_str ''InstanceStart'')])"

text \<open>The members of a Go map are written in the order of their keys.\<close>

definition SnapshotCreate :: "FcClient \<Rightarrow> string \<Rightarrow> string \<Rightarrow> ('s, string + unit) io" where
  "SnapshotCreate c snapshotPath memPath =
     fc_put c ''/snapshot/create''
       (JObj [(''mem_file_path'', j_str memPath), (''snapshot_path'', j_str snapshotPath),
              (''snapshot_type'', j_str ''Full'')])"

definition SnapshotLoad :: "FcClient \<Rightarrow> string \<Rightarrow> string \<Rightarrow> ('s, string + unit) io" where
  "SnapshotLoad c snapshotPath memPath =
     fc_put c ''/snapshot/load''
       (JObj [(''enable_diff_snapshots'', JBool True),
              (''mem_backend'', JObj [(''backend_path'', j_str memPath),
                                      (''backend_type'', j_str ''File'')]),
              (''snapshot_path'', j_str snapshotPath)])"

lemma quiet_fc_put [quiet_rules]: "quiet (fc_put c path body)"
  unfolding fc_put_def by (intro quiet_rules) simp_all

lemmas fc_requests = PutMachineConfig_def PutBootSource_def PutDrive_def PutNetworkInterface_def
  PutVsock_def StartInstance_def SnapshotCreate_def SnapshotLoad_def

lemma quiet_fc_requests [quiet_rules]:
  "quiet (PutMachineConfig c cfg)" "quiet (PutBootSource c src)" "quiet (PutDrive c d)"
  "quiet (PutNetworkInterface c i)" "quiet (PutVsock c v)" "quiet (StartInstance c)"
  "quiet (SnapshotCreate c sp mp)" "quiet (SnapshotLoad c sp mp)"
  unfolding fc_requests by (intro quiet_rules)+

section \<open>Snapshots\<close>

record SnapshotManager =
  sm_snapshotDir :: string

definition NewSnapshotManager :: "string \<Rightarrow> SnapshotManager" where
  "NewSnapshotManager dir = \<lparr>sm_snapshotDir = dir\<rparr>"

definition snapPath :: "SnapshotManager \<Rightarrow> string \<Rightarrow> string" where
  "snapPath m key = path_Join [sm_snapshotDir m, key @ ''.snap'']"

definition memPath :: "SnapshotManager \<Rightarrow> string \<Rightarrow> string" where
  "memPath m key = path_Join [sm_snapshotDir m, key @ ''.mem'']"

definition snapshot_Create :: "SnapshotManager \<Rightarrow> string \<Rightarrow> FcClient \<Rightarrow> ('s, string + unit) io" where
  "snapshot_Create m key fc =
     attempt (SnapshotCreate fc (snapPath m key) (memPath m key))
       (\<lambda>e. ret (Inl (''snapshot create '' @ key @ '': '' @ e)))
       (\<lambda>_. ret (Inr ()))"

definition snapshot_Load :: "SnapshotManager \<Rightarrow> string \<Rightarrow> FcClient \<Rightarrow> ('s, string + unit) io" where
  "snapshot_Load m key fc =
     attempt (SnapshotLoad fc (snapPath m key) (memPath m key))
       (\<lambda>e. ret (Inl (''snapshot load '' @ key @ '': '' @ e)))
       (\<lambda>_. ret (Inr ()))"

fun all_exist :: "string list \<Rightarrow> ('s, bool) io" where
  "all_exist [] = ret True"
| "all_exist (p # ps) = attempt (perform (Stat p)) (\<lambda>_. ret False) (\<lambda>_. all_exist ps)"

definition snapshot_Exists :: "SnapshotManager \<Rightarrow> string \<Rightarrow> ('s, bool) io" where
  "snapshot_Exists m key = all_exist [snapPath m key, memPath m key]"

lemma quiet_all_exist [quiet_rules]: "quiet (all_exist ps)"
  by (induction ps) (auto intro!: quiet_rules)

lemma quiet_snapshots [quiet_rules]:
  "quiet (snapshot_Create m key fc)" "quiet (snapshot_Load m key fc)" "quiet (snapshot_Exists m key)"
  unfolding snapshot_Create_def snapshot_Load_def snapshot_Exists_def
  by (intro quiet_rules)+

text \<open>
  The key comes from the request as it is, and the join cleans the path: a key that climbs out of
  the snapshot directory names files anywhere on the host.
\<close>

lemma snapshot_key_escapes:
  "snapPath \<lparr>sm_snapshotDir = ''/var/sandock/snapshots''\<rparr> ''../../../etc/x'' = ''/etc/x.snap''"
  by code_simp

lemma snapPath_plain:
  "ws \<noteq> [] \<Longrightarrow> list_all plain ws \<Longrightarrow> plain (key @ ''.snap'') \<Longrightarrow>
   snapPath \<lparr>sm_snapshotDir = abs_path ws\<rparr> key = abs_path (ws @ [key @ ''.snap''])"
  by (simp add: snapPath_def path_Join_plain)

section \<open>The agent inside the machine\<close>

record VsockExecRequest =
  vx_Command :: string
  vx_Stdin :: string
  vx_TimeoutMs :: u32

record VsockExecResponse =
  vxr_Stdout :: string
  vxr_Stderr :: string
  vxr_ExitCode :: int
  vxr_DurationMs :: int

definition enc_VsockExecRequest :: "VsockExecRequest \<Rightarrow> json" where
  "enc_VsockExecRequest r = JObj ([(''command'', j_str (vx_Command r))] @
     omit_str ''stdin'' (vx_Stdin r) @ [(''timeout_ms'', j_u32 (vx_TimeoutMs r))])"

definition zero_VsockExecResponse :: VsockExecResponse where
  "zero_VsockExecResponse =
     \<lparr>vxr_Stdout = '''', vxr_Stderr = '''', vxr_ExitCode = 0, vxr_DurationMs = 0\<rparr>"

definition VsockExecResponse_fields :: "VsockExecResponse field list" where
  "VsockExecResponse_fields =
     [f_str ''stdout'' (\<lambda>x. vxr_Stdout_update (\<lambda>_. x)),
      f_str ''stderr'' (\<lambda>x. vxr_Stderr_update (\<lambda>_. x)),
      f_i64 ''exit_code'' (\<lambda>x. vxr_ExitCode_update (\<lambda>_. x)),
      f_i64 ''duration_ms'' (\<lambda>x. vxr_DurationMs_update (\<lambda>_. x))]"

definition ExecPort :: nat where
  "ExecPort = 8888"

text \<open>
  The handshake: a line with the port, and a line back that must start with \<^verbatim>\<open>OK \<close>. Reading a
  line fails when the connection ends before the newline.
\<close>

definition dialFirecracker :: "string \<Rightarrow> nat \<Rightarrow> ('s, string + string) io" where
  "dialFirecracker udsPath port =
     attempt (perform (DialUnix udsPath))
       (\<lambda>e. ret (Inl (''dial firecracker vsock uds '' @ udsPath @ '': '' @ e)))
       (\<lambda>_. attempt (perform (SendText udsPath (''CONNECT '' @ show_nat port @ [CHR 0x0A])))
         (\<lambda>e. do { _ \<leftarrow> perform_raw (CloseConn udsPath);
                   ret (Inl (''vsock CONNECT handshake write: '' @ e)) })
         (\<lambda>_. attempt (perform (ReadLine udsPath))
           (\<lambda>e. do { _ \<leftarrow> perform_raw (CloseConn udsPath);
                     ret (Inl (''vsock CONNECT handshake read: '' @ e @
                               '' (is vm-agent listening on port '' @ show_nat port @ ''?)'')) })
           (\<lambda>a. let line = trim_space (rp_text a)
                in if \<not> has_prefix line ''OK ''
                   then do { _ \<leftarrow> perform_raw (CloseConn udsPath);
                             ret (Inl (''vsock CONNECT rejected: '' @ quote line)) }
                   else ret (Inr udsPath))))"

text \<open>The deadline is the request's timeout and five seconds, as a 64-bit duration.\<close>

definition exec_deadline :: "VsockExecRequest \<Rightarrow> u64" where
  "exec_deadline req = duration_ms (vx_TimeoutMs req) + 5000000000"

definition vsock_Exec :: "string \<Rightarrow> VsockExecRequest \<Rightarrow> ('s, string + VsockExecResponse) io" where
  "vsock_Exec udsPath req =
     attempt (dialFirecracker udsPath ExecPort)
       (\<lambda>e. ret (Inl (''vsock: dial '' @ udsPath @ '' port '' @ show_nat ExecPort @ '': '' @ e)))
       (\<lambda>conn. do {
          _ \<leftarrow> perform_raw (SetDeadline conn (exec_deadline req));
          r \<leftarrow> attempt (perform (SendJson conn (enc_VsockExecRequest req)))
            (\<lambda>e. ret (Inl (''vsock: encode request: '' @ e)))
            (\<lambda>_. do {
               s \<leftarrow> the_state;
               attempt (perform (ReadJson conn))
                 (\<lambda>e. ret (Inl (''vsock: decode response: '' @ e)))
                 (\<lambda>a. case json_decode VsockExecResponse_fields zero_VsockExecResponse (rp_body a) of
                        Inl e \<Rightarrow> ret (Inl (''vsock: decode response: '' @ os_json_error s e))
                      | Inr resp \<Rightarrow> ret (Inr resp)) });
          _ \<leftarrow> perform_raw (CloseConn conn);
          ret r })"

lemma quiet_dialFirecracker [quiet_rules]: "quiet (dialFirecracker udsPath port)"
  unfolding dialFirecracker_def Let_def by (intro quiet_rules) simp_all

lemma quiet_vsock_Exec [quiet_rules]: "quiet (vsock_Exec udsPath req)"
  unfolding vsock_Exec_def by (intro quiet_rules) simp_all

text \<open>
  Every connection that is opened is closed. A connection is named by its socket, and the count of
  open ones is what the dials and closes of the trace leave.
\<close>

fun conn_delta :: "event \<Rightarrow> int" where
  "conn_delta (DialUnix p, a) = (if rp_err a = None then 1 else 0)"
| "conn_delta (CloseConn p, a) = - 1"
| "conn_delta _ = 0"

definition open_conns :: "'s host_scheme \<Rightarrow> int" where
  "open_conns s = sum_list (map conn_delta (os_trace s))"

lemma open_conns_note_call:
  "open_conns (note_call c s) = conn_delta (c, os_env s (os_trace s) c) + open_conns s"
  by (simp add: open_conns_def)

lemma dialFirecracker_conns:
  "wp (dialFirecracker udsPath port)
     (\<lambda>r s'. open_conns s' = open_conns s + (if is_ok r then 1 else 0) \<and> (\<forall>c. r = Inr c \<longrightarrow> c = udsPath)) s"
  unfolding dialFirecracker_def Let_def
  by (auto simp: wp_perform wp_perform_raw open_conns_note_call answer_def
      split: sum.splits option.splits)

lemma exec_deadline_exact:
  "sint (exec_deadline req) = uint (vx_TimeoutMs req) * 1000000 + 5000000000"
proof -
  have b: "uint (vx_TimeoutMs req) < 2 ^ 32" using unsigned_less [of "vx_TimeoutMs req"] by simp
  have n: "0 \<le> uint (vx_TimeoutMs req)" by simp
  have u: "uint (exec_deadline req) = uint (vx_TimeoutMs req) * 1000000 + 5000000000"
    using b n by (simp add: exec_deadline_def uint_duration_ms uint_word_ariths)
  have "signed_take_bit 63 (uint (vx_TimeoutMs req) * 1000000 + 5000000000)
    = uint (vx_TimeoutMs req) * 1000000 + 5000000000"
    using b n by (intro signed_take_bit_int_eq_self) auto
  then show ?thesis
    by (simp add: sint_uint u)
qed

end
