(* ===== verification/GoNet.thy ===== *)
theory GoNet
  imports Prelude
begin

text \<open>
  What the program uses of Go's package \<^verbatim>\<open>net\<close> on addresses: parsing an address in either family
  and a CIDR block, as \<^verbatim>\<open>net/netip\<close> does it, and the four-byte form of an address. Bytes are words of
  8 bits; an address is 4 or 16 of them.
\<close>

unbundle bit_operations_syntax

section \<open>IPv4\<close>

text \<open>A field: digits, no leading zero, at most 255. An address: four fields between dots.\<close>

definition parse_octet :: "string \<Rightarrow> u8 option" where
  "parse_octet w =
     (if w = [] \<or> \<not> list_all is_digit w \<or> (length w > 1 \<and> hd w = CHR ''0'') \<or> read_nat w > 255
      then None else Some (of_nat (read_nat w)))"

fun parse_octets :: "string list \<Rightarrow> u8 list option" where
  "parse_octets [] = Some []"
| "parse_octets (w # ws) =
     (case parse_octet w of None \<Rightarrow> None | Some b \<Rightarrow> map_option (Cons b) (parse_octets ws))"

definition parse_ipv4 :: "string \<Rightarrow> u8 list option" where
  "parse_ipv4 s =
     (let ws = split_on (CHR ''.'') s in if length ws \<noteq> 4 then None else parse_octets ws)"

definition show_ipv4 :: "u8 list \<Rightarrow> string" where
  "show_ipv4 bs = join_with ''.'' (map (\<lambda>b. show_nat (unat b)) bs)"

section \<open>IPv6\<close>

definition hex_val :: "char \<Rightarrow> nat option" where
  "hex_val c =
     (let n = of_char c :: nat
      in if 48 \<le> n \<and> n \<le> 57 then Some (n - 48)
         else if 97 \<le> n \<and> n \<le> 102 then Some (n - 87)
         else if 65 \<le> n \<and> n \<le> 70 then Some (n - 55)
         else None)"

definition hex_group :: "string \<Rightarrow> u8 list" where
  "hex_group hs =
     (let acc = foldl (\<lambda>a c. 16 * a + the (hex_val c)) 0 hs in [of_nat (acc div 256), of_nat acc])"

text \<open>
  The loop over the groups, with the bytes so far and the place of the ellipsis; the last group may
  be an IPv4 address.
\<close>

function parse_groups :: "string \<Rightarrow> u8 list \<Rightarrow> nat option \<Rightarrow> (u8 list \<times> nat option) option" where
  "parse_groups s ip ell =
     (if length ip \<ge> 16 then (if s = [] then Some (ip, ell) else None)
      else let hs = takeWhile (\<lambda>c. hex_val c \<noteq> None) s; ip' = ip @ hex_group hs
        in if hs = [] \<or> length hs > 4 then None
           else case drop (length hs) s of
               [] \<Rightarrow> Some (ip', ell)
             | c # r \<Rightarrow>
                 if c = CHR ''.'' then
                   (if (ell = None \<and> length ip \<noteq> 12) \<or> length ip + 4 > 16 then None
                    else map_option (\<lambda>b. (ip @ b, ell)) (parse_ipv4 s))
                 else if c \<noteq> CHR '':'' \<or> r = [] then None
                 else if hd r \<noteq> CHR '':'' then parse_groups r ip' ell
                 else if ell \<noteq> None then None
                 else if tl r = [] then Some (ip', Some (length ip'))
                 else parse_groups (tl r) ip' (Some (length ip')))"
  by pat_completeness auto
termination
proof (relation "measure (\<lambda>(s, ip, ell). length s)", goal_cases)
  case 1
  then show ?case by simp
next
  case (2 s ip ell hs ip' c r)
  then have "length (drop (length hs) s) = Suc (length r)" by simp
  then show ?case by simp
next
  case (3 s ip ell hs ip' c r)
  then have "length (drop (length hs) s) = Suc (length r)" by simp
  then show ?case by simp
qed

declare parse_groups.simps [simp del]

definition expand_ellipsis :: "u8 list \<times> nat option \<Rightarrow> u8 list option" where
  "expand_ellipsis p =
     (case p of (ip, ell) \<Rightarrow>
        if length ip < 16
        then map_option (\<lambda>e. take e ip @ replicate (16 - length ip) 0 @ drop e ip) ell
        else if ell \<noteq> None then None else Some ip)"

definition parse_ipv6 :: "string \<Rightarrow> u8 list option" where
  "parse_ipv6 s =
     (if has_prefix s ''::''
      then (if drop 2 s = [] then Some (replicate 16 0)
            else Option.bind (parse_groups (drop 2 s) [] (Some 0)) expand_ellipsis)
      else Option.bind (parse_groups s [] None) expand_ellipsis)"

text \<open>The family is decided by the first dot or colon; an address with a zone is not accepted.\<close>

definition parse_addr :: "string \<Rightarrow> u8 list option" where
  "parse_addr s =
     (if CHR ''%'' \<in> set s then None
      else case dropWhile (\<lambda>c. c \<noteq> CHR ''.'' \<and> c \<noteq> CHR '':'') s of
          [] \<Rightarrow> None
        | c # r \<Rightarrow> if c = CHR ''.'' then parse_ipv4 s else parse_ipv6 s)"

section \<open>CIDR blocks\<close>

record IPNet =
  in_IP :: "u8 list"
  in_ones :: nat

text \<open>The mask of \<open>n\<close> one bits over \<open>k\<close> bytes, and its application.\<close>

definition mask_byte :: "nat \<Rightarrow> u8" where
  "mask_byte n = (if n \<ge> 8 then 255 else NOT (drop_bit n 255))"

definition apply_mask :: "nat \<Rightarrow> u8 list \<Rightarrow> u8 list" where
  "apply_mask n bs = map2 (\<lambda>i b. b AND mask_byte (n - 8 * i)) [0..<length bs] bs"

definition ParseCIDR :: "string \<Rightarrow> string + IPNet" where
  "ParseCIDR s =
     (let addr = takeWhile (\<lambda>c. c \<noteq> CHR ''/'') s; m = drop (Suc (length addr)) s;
          err = Inl (''invalid CIDR address: '' @ s)
      in if CHR ''/'' \<notin> set s then err
         else case parse_addr addr of
             None \<Rightarrow> err
           | Some ip \<Rightarrow>
               if m = [] \<or> \<not> list_all is_digit m \<or> read_nat m > 8 * length ip then err
               else Inr \<lparr>in_IP = apply_mask (read_nat m) ip, in_ones = read_nat m\<rparr>)"

definition To4 :: "u8 list \<Rightarrow> u8 list option" where
  "To4 ip =
     (if length ip = 4 then Some ip
      else if length ip = 16 \<and> take 12 ip = replicate 10 0 @ [255, 255] then Some (drop 12 ip)
      else None)"

definition be32 :: "u8 list \<Rightarrow> u32" where
  "be32 bs = foldl (\<lambda>w b. 256 * w + ucast b) 0 bs"

section \<open>Facts\<close>

lemma show_nat_leading: "n \<noteq> 0 \<Longrightarrow> hd (show_nat n) \<noteq> CHR ''0''"
proof (induction n rule: show_nat.induct)
  case (1 n)
  show ?case
  proof (cases "n < 10")
    case True
    with 1 have "n \<in> {1, 2, 3, 4, 5, 6, 7, 8, 9}" by auto
    then show ?thesis
      by (subst show_nat.simps) (auto simp: digit_char_def char_of_eq_iff)
  next
    case False
    with 1 have "hd (show_nat (n div 10)) \<noteq> CHR ''0''" by simp
    with False show ?thesis
      by (subst show_nat.simps) simp
  qed
qed

lemma show_nat_0: "show_nat 0 = ''0''"
  by (subst show_nat.simps) (simp add: digit_char_def char_of_eq_iff)

lemma parse_octet_show: "parse_octet (show_nat (unat b)) = Some b"
proof -
  have "unat b < 256" using unsigned_less [of b, where ?'a = nat] by simp
  moreover have "list_all is_digit (show_nat (unat b))"
    using show_nat_digits by (simp add: list_all_iff)
  moreover have "length (show_nat (unat b)) > 1 \<Longrightarrow> hd (show_nat (unat b)) \<noteq> CHR ''0''"
    using show_nat_leading [of "unat b"] by (cases "unat b = 0") (simp_all add: show_nat_0)
  ultimately show ?thesis
    by (auto simp: parse_octet_def read_show_nat)
qed

lemma parse_octets_show: "parse_octets (map (\<lambda>b. show_nat (unat b)) bs) = Some bs"
  by (induction bs) (simp_all add: parse_octet_show)

lemma dot_not_digit: "CHR ''.'' \<notin> set (show_nat n)"
  using show_nat_digits [of n] by (auto simp: is_digit_def)

lemma parse_show_ipv4: "length bs = 4 \<Longrightarrow> parse_ipv4 (show_ipv4 bs) = Some bs"
proof -
  assume l: "length bs = 4"
  have "split_on (CHR ''.'') (show_ipv4 bs) = map (\<lambda>b. show_nat (unat b)) bs"
    unfolding show_ipv4_def by (rule split_join) (use l dot_not_digit in \<open>auto simp: Suc_le_eq\<close>)
  with l show ?thesis
    by (simp add: parse_ipv4_def parse_octets_show)
qed

lemma length_parse_octets: "parse_octets ws = Some bs \<Longrightarrow> length bs = length ws"
  by (induction ws arbitrary: bs) (auto split: option.splits)

lemma length_parse_ipv4: "parse_ipv4 s = Some bs \<Longrightarrow> length bs = 4"
  by (auto simp: parse_ipv4_def Let_def length_parse_octets split: if_splits)

lemma length_apply_mask [simp]: "length (apply_mask n bs) = length bs"
  by (simp add: apply_mask_def)

lemma length_hex_group [simp]: "length (hex_group hs) = 2"
  by (simp add: hex_group_def Let_def)

lemma length_parse_groups:
  "parse_groups s ip ell = Some (bs, e) \<Longrightarrow> length ip \<le> 17 \<Longrightarrow> length bs \<le> 17"
proof (induction s ip ell rule: parse_groups.induct)
  case (1 s ip ell)
  let ?hs = "takeWhile (\<lambda>c. hex_val c \<noteq> None) s"
  show ?case
  proof (cases "length ip \<ge> 16")
    case True
    with 1 show ?thesis
      by (subst (asm) parse_groups.simps) (auto split: if_splits)
  next
    case False
    then have ip': "length (ip @ hex_group ?hs) \<le> 17" by simp
    show ?thesis
    proof (cases "drop (length ?hs) s")
      case Nil
      with 1(3) False ip' show ?thesis
        by (subst (asm) parse_groups.simps) (auto simp: Let_def split: if_splits)
    next
      case (Cons c r)
      have IH1: "length bs \<le> 17" if "parse_groups r (ip @ hex_group ?hs) ell = Some (bs, e)"
        "?hs \<noteq> []" "\<not> length ?hs > 4" "c \<noteq> CHR ''.''" "\<not> (c \<noteq> CHR '':'' \<or> r = [])" "hd r \<noteq> CHR '':''"
        using 1(1) [OF False refl refl _ Cons] that ip' by (simp del: not_None_eq)
      have IH2: "length bs \<le> 17" if "parse_groups (tl r) (ip @ hex_group ?hs) (Some (Suc (Suc (length ip)))) = Some (bs, e)"
        "?hs \<noteq> []" "\<not> length ?hs > 4" "c \<noteq> CHR ''.''" "\<not> (c \<noteq> CHR '':'' \<or> r = [])" "hd r = CHR '':''" "ell = None" "tl r \<noteq> []"
        using 1(2) [OF False refl refl _ Cons] that ip' by (simp del: not_None_eq)
      from 1(3) False Cons ip' show ?thesis
        by (subst (asm) parse_groups.simps)
          (auto simp: Let_def length_parse_ipv4 simp del: not_None_eq split: if_splits dest: IH1 IH2)
    qed
  qed
qed

lemma length_parse_addr: "parse_addr s = Some ip \<Longrightarrow> length ip \<le> 17"
  by (auto simp: parse_addr_def parse_ipv6_def expand_ellipsis_def length_parse_ipv4 bind_eq_Some_conv
      split: if_splits list.splits dest!: length_parse_groups)

lemma ParseCIDR_ones: "ParseCIDR s = Inr ipnet \<Longrightarrow> in_ones ipnet \<le> 136"
  by (auto simp: ParseCIDR_def Let_def split: if_splits option.splits dest!: length_parse_addr)


end
