(* ===== verification/EgressFilter.thy ===== *)
theory EgressFilter
  imports HostWorld GoNet
begin

text \<open>
  \<^verbatim>\<open>ebpf/loader/loader_linux.go\<close>: loading the egress program of a sandbox, attaching it to the host end
  of its network link, and filling the table of allowed destinations the kernel program
  (\<^verbatim>\<open>ebpf/programs/egress_filter.c\<close>) looks packets up in. The BPF and netlink libraries are calls on
  the world.
\<close>

section \<open>The filter\<close>

record lpmKey =
  lk_Prefixlen :: u32
  lk_Addr :: u32

datatype tcDetacher = TcxDetacher nat | NetlinkDetacher nat

record EgressFilter =
  ef_SandboxID :: string
  ef_HostVeth :: string
  ef_objs :: "nat option"
  ef_prog :: "nat option"
  ef_trie :: "nat option"
  ef_tc :: "tcDetacher option"
  ef_ifIndex :: nat

definition NewEgressFilter :: "string \<Rightarrow> string \<Rightarrow> EgressFilter" where
  "NewEgressFilter sandboxID hostVeth =
     \<lparr>ef_SandboxID = sandboxID, ef_HostVeth = hostVeth, ef_objs = None, ef_prog = None,
      ef_trie = None, ef_tc = None, ef_ifIndex = 0\<rparr>"

definition tc_close :: "tcDetacher \<Rightarrow> ('s, string + unit) io" where
  "tc_close d =
     attempt (perform (case d of TcxDetacher l \<Rightarrow> Net (CloseLink l) | NetlinkDetacher i \<Rightarrow> Net (FilterDel i)))
       (\<lambda>e. ret (Inl e)) (\<lambda>_. ret (Inr ()))"

text \<open>The names of a list of queueing disciplines are their types.\<close>

definition ensureClsactQdisc :: "nat \<Rightarrow> ('s, string + unit) io" where
  "ensureClsactQdisc ifIndex =
     attempt (perform (Net (LinkByIndex ifIndex)))
       (\<lambda>e. ret (Inl e))
       (\<lambda>lnk. attempt (perform (Net (QdiscList (rp_num lnk))))
         (\<lambda>e. ret (Inl e))
         (\<lambda>qdiscs.
            if ''clsact'' \<in> set (rp_names qdiscs) then ret (Inr ())
            else attempt (perform (Net (QdiscAdd ifIndex ''clsact'')))
                   (\<lambda>e. ret (Inl e)) (\<lambda>_. ret (Inr ()))))"

definition removeClsactQdisc :: "nat \<Rightarrow> ('s, string + unit) io" where
  "removeClsactQdisc ifIndex =
     attempt (perform (Net (QdiscDel ifIndex ''clsact''))) (\<lambda>e. ret (Inl e)) (\<lambda>_. ret (Inr ()))"

text \<open>TCX first; when that fails, a classic filter on the link found again by its index.\<close>

definition attachTCEgress :: "nat \<Rightarrow> nat \<Rightarrow> ('s, string + tcDetacher) io" where
  "attachTCEgress ifIndex prog =
     attempt (perform (Net (AttachTCX ifIndex prog)))
       (\<lambda>err. attempt (perform (Net (LinkByIndex ifIndex)))
          (\<lambda>err2. ret (Inl (''netlink link by index: '' @ err2)))
          (\<lambda>iface. attempt (perform (Net (FilterAdd (rp_num iface) prog)))
            (\<lambda>err3. ret (Inl (''netlink FilterAdd (TCX: '' @ err @ ''): '' @ err3)))
            (\<lambda>_. ret (Inr (NetlinkDetacher (rp_num iface))))))
       (\<lambda>lnk. ret (Inr (TcxDetacher (rp_num lnk))))"

definition close_and_fail :: "nat \<Rightarrow> string \<Rightarrow> ('s, string + 'a) io" where
  "close_and_fail objs e = do { _ \<leftarrow> perform_raw (Net (CloseCollection objs)); ret (Inl e) }"

definition ef_Load :: "EgressFilter \<Rightarrow> string \<Rightarrow> ('s, string + EgressFilter) io" where
  "ef_Load f objectPath =
     attempt (perform (Stat objectPath))
       (\<lambda>e. ret (Inl (''ebpf loader: object file '' @ objectPath @ '' not found: '' @ e)))
       (\<lambda>_. attempt (perform (Net (LoadCollectionSpec objectPath)))
         (\<lambda>e. ret (Inl (''ebpf loader: LoadCollectionSpec: '' @ e)))
         (\<lambda>_. attempt (perform (Net (NewCollection objectPath)))
           (\<lambda>e. ret (Inl (''ebpf loader: NewCollection: '' @ e)))
           (\<lambda>c. let objs = rp_num c in
              attempt (perform (Net (CollectionProgram objs ''sandbox_egress'')))
                (\<lambda>_. close_and_fail objs
                       (''ebpf loader: program 'sandbox_egress' not found in '' @ objectPath))
                (\<lambda>p. attempt (perform (Net (CollectionMap objs ''allowed_dsts'')))
                  (\<lambda>_. close_and_fail objs
                         (''ebpf loader: map 'allowed_dsts' not found in '' @ objectPath))
                  (\<lambda>m. attempt (perform (Net (InterfaceByName (ef_HostVeth f))))
                    (\<lambda>e. close_and_fail objs
                           (''ebpf loader: interface '' @ ef_HostVeth f @ '' not found: '' @ e))
                    (\<lambda>iface. attempt (ensureClsactQdisc (rp_num iface))
                      (\<lambda>e. close_and_fail objs
                             (''ebpf loader: clsact qdisc on '' @ ef_HostVeth f @ '': '' @ e))
                      (\<lambda>_. attempt (attachTCEgress (rp_num iface) (rp_num p))
                        (\<lambda>e. close_and_fail objs
                               (''ebpf loader: attach TC egress on '' @ ef_HostVeth f @ '': '' @ e))
                        (\<lambda>tc. ret (Inr (f\<lparr>ef_objs := Some objs, ef_prog := Some (rp_num p),
                                          ef_trie := Some (rp_num m), ef_tc := Some tc,
                                          ef_ifIndex := rp_num iface\<rparr>))))))))))"

text \<open>
  One allowed block: the key is the length of the prefix and the address as a big-endian number,
  the value one byte. A filter that was not loaded has no table to put it in.
\<close>

definition cidr_key :: "string \<Rightarrow> string + lpmKey" where
  "cidr_key cidr =
     (case ParseCIDR cidr of
        Inl e \<Rightarrow> Inl (''ebpf loader: parse CIDR '' @ cidr @ '': '' @ e)
      | Inr ipNet \<Rightarrow>
          (case To4 (in_IP ipNet) of
             None \<Rightarrow> Inl (''ebpf loader: only IPv4 CIDRs are supported (got '' @ cidr @ '')'')
           | Some ip4 \<Rightarrow> Inr \<lparr>lk_Prefixlen = of_nat (in_ones ipNet), lk_Addr = be32 ip4\<rparr>))"

definition ef_AddCIDR :: "EgressFilter \<Rightarrow> string \<Rightarrow> ('s, go_panic + (string + unit)) io" where
  "ef_AddCIDR f cidr =
     (case cidr_key cidr of
        Inl e \<Rightarrow> ret (Inr (Inl e))
      | Inr key \<Rightarrow>
          (case ef_trie f of
             None \<Rightarrow> ret (Inl NilPointer)
           | Some trie \<Rightarrow>
               attempt (perform (Net (MapPut trie (lk_Prefixlen key) (lk_Addr key) 1)))
                 (\<lambda>e. ret (Inr (Inl (''ebpf loader: map update for '' @ cidr @ '': '' @ e))))
                 (\<lambda>_. ret (Inr (Inr ())))))"

definition ef_Detach :: "EgressFilter \<Rightarrow> ('s, (string + unit) \<times> EgressFilter) io" where
  "ef_Detach f = do {
     r \<leftarrow> (case ef_tc f of None \<Rightarrow> ret (Inr ()) | Some tc \<Rightarrow> tc_close tc);
     case r of
       Inl e \<Rightarrow> ret (Inl (''ebpf loader: TC detach: '' @ e), f)
     | Inr _ \<Rightarrow> do {
         _ \<leftarrow> (case ef_objs f of None \<Rightarrow> ret plain_reply
               | Some k \<Rightarrow> perform_raw (Net (CloseCollection k)));
         _ \<leftarrow> (if ef_ifIndex f > 0 then removeClsactQdisc (ef_ifIndex f) else ret (Inr ()));
         ret (Inr (), f\<lparr>ef_tc := None, ef_objs := None\<rparr>) } }"

section \<open>What it holds in the kernel\<close>

datatype net_resource = Loaded nat | TcxLink nat | TcFilter nat

definition after_net :: "event \<Rightarrow> net_resource set \<Rightarrow> net_resource set" where
  "after_net ev H =
     (let ok = rp_err (snd ev) = None; n = rp_num (snd ev)
      in case fst ev of
           Net c \<Rightarrow>
             (case c of
                NewCollection p \<Rightarrow> if ok then insert (Loaded n) H else H
              | CloseCollection k \<Rightarrow> H - {Loaded k}
              | AttachTCX i p \<Rightarrow> if ok then insert (TcxLink n) H else H
              | CloseLink l \<Rightarrow> H - {TcxLink l}
              | FilterAdd i p \<Rightarrow> if ok then insert (TcFilter i) H else H
              | FilterDel i \<Rightarrow> H - {TcFilter i}
              | _ \<Rightarrow> H)
         | _ \<Rightarrow> H)"

definition net_held :: "'s host_scheme \<Rightarrow> net_resource set" where
  "net_held s = foldr after_net (os_trace s) {}"

lemma net_held_note_call:
  "net_held (note_call c s) = after_net (c, os_env s (os_trace s) c) (net_held s)"
  by (simp add: net_held_def)

text \<open>A call fails or succeeds; what it holds follows.\<close>

lemma perform_net:
  assumes "\<And>a e s'. rp_err a = Some e \<Longrightarrow> net_held s' = after_net (c, a) (net_held s) \<Longrightarrow> Q (Inl e) s'"
    and "\<And>a s'. rp_err a = None \<Longrightarrow> net_held s' = after_net (c, a) (net_held s) \<Longrightarrow> Q (Inr a) s'"
  shows "wp (perform c) Q s"
  using assms by (auto simp: wp_perform answer_def net_held_note_call split: option.splits)

lemma perform_raw_net:
  assumes "\<And>a s'. net_held s' = after_net (c, a) (net_held s) \<Longrightarrow> Q a s'"
  shows "wp (perform_raw c) Q s"
  using assms by (auto simp: wp_perform_raw net_held_note_call)

fun tc_resource :: "tcDetacher \<Rightarrow> net_resource" where
  "tc_resource (TcxDetacher l) = TcxLink l"
| "tc_resource (NetlinkDetacher i) = TcFilter i"

lemma ensureClsactQdisc_wp:
  assumes "\<And>e s'. net_held s' = net_held s \<Longrightarrow> Q (Inl e) s'"
    and "\<And>s'. net_held s' = net_held s \<Longrightarrow> Q (Inr ()) s'"
  shows "wp (ensureClsactQdisc i) Q s"
  unfolding ensureClsactQdisc_def wp_attempt
  by (auto intro!: perform_net assms simp: after_net_def)

lemma attachTCEgress_wp:
  assumes "\<And>e s'. net_held s' = net_held s \<Longrightarrow> Q (Inl e) s'"
    and "\<And>tc s'. net_held s' = insert (tc_resource tc) (net_held s) \<Longrightarrow> Q (Inr tc) s'"
  shows "wp (attachTCEgress i p) Q s"
  unfolding attachTCEgress_def wp_attempt
  by (auto intro!: perform_net assms simp: after_net_def)

lemma close_and_fail_wp:
  assumes "\<And>s'. net_held s' = net_held s - {Loaded objs} \<Longrightarrow> Q (Inl e) s'"
  shows "wp (close_and_fail objs e) Q s"
  unfolding close_and_fail_def wp_bind
  by (auto intro!: perform_raw_net assms simp: after_net_def)

lemma ef_Load_wp:
  assumes "\<And>e s'. net_held s' \<subseteq> net_held s \<Longrightarrow> Q (Inl e) s'"
    and "\<And>objs prog trie tc i s'.
           net_held s' = insert (tc_resource tc) (insert (Loaded objs) (net_held s)) \<Longrightarrow>
           Q (Inr (f\<lparr>ef_objs := Some objs, ef_prog := Some prog, ef_trie := Some trie,
                     ef_tc := Some tc, ef_ifIndex := i\<rparr>)) s'"
  shows "wp (ef_Load f path) Q s"
  unfolding ef_Load_def Let_def wp_attempt
  by (auto intro!: perform_net close_and_fail_wp ensureClsactQdisc_wp attachTCEgress_wp assms
      simp: after_net_def)

lemma ef_Detach_wp:
  assumes "\<And>e s'. net_held s' \<subseteq> net_held s \<Longrightarrow> Q (Inl e, f) s'"
    and "\<And>s'. net_held s' = net_held s - tc_resource ` set_option (ef_tc f) -
                Loaded ` set_option (ef_objs f) \<Longrightarrow>
           Q (Inr (), f\<lparr>ef_tc := None, ef_objs := None\<rparr>) s'"
  shows "wp (ef_Detach f) Q s"
  unfolding ef_Detach_def tc_close_def removeClsactQdisc_def wp_bind
  by (cases "ef_tc f"; cases "ef_objs f")
    (auto intro!: perform_net perform_raw_net assms simp: after_net_def split: tcDetacher.split)

lemma quiet_ef_Load [quiet_rules]: "quiet (ef_Load f path)"
  unfolding ef_Load_def ensureClsactQdisc_def attachTCEgress_def close_and_fail_def Let_def
  by (intro quiet_rules) simp_all

lemma quiet_ef_AddCIDR [quiet_rules]: "quiet (ef_AddCIDR f cidr)"
  unfolding ef_AddCIDR_def by (intro quiet_rules) simp_all

section \<open>What the kernel program lets through\<close>

text \<open>
  The table is a longest-prefix-match trie. Its keys are the bytes of \<^verbatim>\<open>struct lpm_key\<close> as they lie
  in memory, on a little-endian machine; a key matches when its address bytes and those looked up
  agree on the first bits, as many as the prefix has.
\<close>

definition addr_bytes :: "u32 \<Rightarrow> u8 list" where
  "addr_bytes w = map (\<lambda>i. ucast (drop_bit (8 * i) w)) [0..<4]"

definition lpm_match :: "lpmKey \<Rightarrow> u8 list \<Rightarrow> bool" where
  "lpm_match k daddr \<longleftrightarrow>
     apply_mask (unat (lk_Prefixlen k)) (addr_bytes (lk_Addr k)) =
     apply_mask (unat (lk_Prefixlen k)) daddr"

text \<open>
  The program: a frame too short for its Ethernet header is dropped, one that is not IPv4 passes,
  one too short for its IP header is dropped, and of the others those pass whose destination, as it
  stands in the packet, is found.
\<close>

definition sandbox_egress :: "lpmKey list \<Rightarrow> u8 list \<Rightarrow> bool" where
  "sandbox_egress table pkt =
     (if length pkt < 14 then False
      else if take 2 (drop 12 pkt) \<noteq> [8, 0] then True
      else if length pkt < 34 then False
      else list_ex (\<lambda>k. lpm_match k (take 4 (drop 30 pkt))) table)"

lemma four_bytes: "length ip4 = 4 \<Longrightarrow> \<exists>a b c d. ip4 = [a, b, c, d]"
  by (auto simp: numeral_eq_Suc length_Suc_conv)

lemma byte_bound: "uint (x :: u8) < 256"
  using unsigned_less [of x, where ?'a = int] by simp

lemma uint_ucast_byte: "uint (ucast (b :: u8) :: u32) = uint b"
  using byte_bound [of b] by (simp add: unsigned_ucast_eq take_bit_int_eq_self)

lemma uint_shift_in:
  assumes "uint w < 2 ^ 24"
  shows "uint (256 * w + ucast b :: u32) = 256 * uint w + uint (b :: u8)"
  using assms byte_bound [of b] by (simp add: uint_word_ariths uint_ucast_byte)

lemma uint_be32:
  "uint (be32 [a, b, c, d]) = ((uint a * 256 + uint b) * 256 + uint c) * 256 + uint d"
proof -
  have a: "uint (256 * 0 + ucast a :: u32) = uint a"
    by (simp add: uint_ucast_byte)
  have b: "uint (256 * (256 * 0 + ucast a) + ucast b :: u32) = 256 * uint a + uint b"
    using byte_bound [of a] by (subst uint_shift_in) (simp_all only: a, simp)
  have c: "uint (256 * (256 * (256 * 0 + ucast a) + ucast b) + ucast c :: u32)
      = 256 * (256 * uint a + uint b) + uint c"
    using byte_bound [of a] byte_bound [of b] by (subst uint_shift_in) (simp_all only: b, simp)
  show ?thesis
    unfolding be32_def foldl.simps
    using byte_bound [of a] byte_bound [of b] byte_bound [of c]
    by (subst uint_shift_in) (simp_all only: c, simp_all)
qed

lemma addr_byte:
  "uint (ucast (drop_bit k (w :: u32)) :: u8) = uint w div 2 ^ k mod 256"
proof -
  have "uint (ucast (drop_bit k w) :: u8) = take_bit 8 (uint (drop_bit k w))"
    by (simp add: unsigned_ucast_eq)
  also have "uint (drop_bit k w) = drop_bit k (uint w)"
    using unsigned_less [of w, where ?'a = int]
    by (simp add: unsigned_drop_bit_eq take_bit_int_eq_self)
  finally show ?thesis
    by (simp add: drop_bit_eq_div take_bit_eq_mod)
qed

lemma two_powers:
  "(2::int) ^ 0 = 1" "(2::int) ^ 8 = 256" "(2::int) ^ 16 = 65536" "(2::int) ^ 24 = 16777216"
  by simp_all

lemma base256:
  fixes x d :: int
  assumes "0 \<le> d" "d < 256"
  shows "(x * 256 + d) mod 256 = d" "(x * 256 + d) div 256 = x"
    "(x * 256 + d) div 65536 = x div 256" "(x * 256 + d) div 16777216 = x div 256 div 256"
proof -
  show *: "(x * 256 + d) div 256 = x" and "(x * 256 + d) mod 256 = d"
    using assms by simp_all
  have "(x * 256 + d) div 65536 = (x * 256 + d) div 256 div 256"
    by (simp flip: zdiv_zmult2_eq)
  with * show "(x * 256 + d) div 65536 = x div 256" by simp
  have "(x * 256 + d) div 16777216 = (x * 256 + d) div 256 div 256 div 256"
    by (simp flip: zdiv_zmult2_eq)
  with * show "(x * 256 + d) div 16777216 = x div 256 div 256" by simp
qed

lemma addr_bytes_be32:
  assumes "length ip4 = 4"
  shows "addr_bytes (be32 ip4) = rev ip4"
proof -
  obtain a b c d where ip: "ip4 = [a, b, c, d]"
    using four_bytes [OF assms] by blast
  let ?w = "be32 [a, b, c, d]"
  have byte: "ucast (drop_bit k ?w) = x" if "uint ?w div 2 ^ k mod 256 = uint x" for k and x :: u8
    using that by (simp only: word_uint_eq_iff addr_byte)
  have "ucast (drop_bit 0 ?w) = d" "ucast (drop_bit 8 ?w) = c"
    "ucast (drop_bit 16 ?w) = b" "ucast (drop_bit 24 ?w) = a"
    by (rule_tac [!] byte, unfold uint_be32)
      (simp_all only: two_powers div_by_1 base256 byte_bound unsigned_greater_eq mod_pos_pos_trivial)
  then show ?thesis
    by (simp add: addr_bytes_def ip upt_rec)
qed

text \<open>
  The number the loader puts in the key is big-endian, so on a little-endian machine its bytes lie
  in the reverse of the order in which they stand in a packet.
\<close>

lemma cidr_key_match:
  assumes "cidr_key cidr = Inr k"
  obtains ipnet ip4 where "ParseCIDR cidr = Inr ipnet" "To4 (in_IP ipnet) = Some ip4"
    "length ip4 = 4" "k = \<lparr>lk_Prefixlen = of_nat (in_ones ipnet), lk_Addr = be32 ip4\<rparr>"
    "addr_bytes (lk_Addr k) = rev ip4"
proof -
  obtain ipnet ip4 where k: "ParseCIDR cidr = Inr ipnet" "To4 (in_IP ipnet) = Some ip4"
    "k = \<lparr>lk_Prefixlen = of_nat (in_ones ipnet), lk_Addr = be32 ip4\<rparr>"
    using assms by (auto simp: cidr_key_def split: sum.splits option.splits)
  moreover from k(2) have "length ip4 = 4"
    by (auto simp: To4_def split: if_splits)
  ultimately show thesis
    by (auto intro!: that addr_bytes_be32)
qed

text \<open>The table of a sandbox after its allowlist: the keys of the blocks that have one.\<close>

definition allow_table :: "string list \<Rightarrow> lpmKey list" where
  "allow_table cidrs =
     concat (map (\<lambda>c. case cidr_key c of Inl _ \<Rightarrow> [] | Inr k \<Rightarrow> if lk_Prefixlen k \<le> 32 then [k] else []) cidrs)"

definition ipv4_packet :: "u8 list \<Rightarrow> bool" where
  "ipv4_packet pkt \<longleftrightarrow> length pkt \<ge> 34 \<and> take 2 (drop 12 pkt) = [8, 0]"

lemma lpm_match_reversed:
  assumes "cidr_key cidr = Inr k" "ParseCIDR cidr = Inr ipnet" "To4 (in_IP ipnet) = Some ip4"
    "in_ones ipnet \<le> 32"
  shows "lpm_match k daddr \<longleftrightarrow>
    apply_mask (in_ones ipnet) (rev ip4) = apply_mask (in_ones ipnet) daddr"
proof -
  have "k = \<lparr>lk_Prefixlen = of_nat (in_ones ipnet), lk_Addr = be32 ip4\<rparr> \<and>
      addr_bytes (lk_Addr k) = rev ip4"
    by (rule cidr_key_match [OF assms(1)]) (use assms(2,3) in auto)
  then have "unat (lk_Prefixlen k) = in_ones ipnet" "addr_bytes (lk_Addr k) = rev ip4"
    using assms(4) by (auto simp: unat_of_nat)
  then show ?thesis
    by (simp add: lpm_match_def)
qed

lemma egress_allow_10:
  "\<not> sandbox_egress (allow_table [''10.0.0.0/8''])
       (replicate 12 0 @ [8, 0] @ replicate 16 0 @ [10, 1, 2, 3]) \<and>
   sandbox_egress (allow_table [''10.0.0.0/8''])
       (replicate 12 0 @ [8, 0] @ replicate 16 0 @ [0, 1, 2, 10])"
  by code_simp

section \<open>The theorem\<close>

text \<open>The destination a block of the allowlist admits, given its bytes in the order of a packet.\<close>

definition block_admits :: "u8 list \<Rightarrow> string \<Rightarrow> bool" where
  "block_admits daddr cidr =
     (case ParseCIDR cidr of
        Inl _ \<Rightarrow> False
      | Inr ipnet \<Rightarrow>
          (case To4 (in_IP ipnet) of
             None \<Rightarrow> False
           | Some ip4 \<Rightarrow> in_ones ipnet \<le> 32 \<and>
               apply_mask (in_ones ipnet) (rev ip4) = apply_mask (in_ones ipnet) daddr))"

lemma allow_table_Cons:
  "list_ex (\<lambda>k. lpm_match k d) (allow_table (c # cs)) \<longleftrightarrow>
   block_admits d c \<or> list_ex (\<lambda>k. lpm_match k d) (allow_table cs)"
proof (cases "cidr_key c")
  case (Inl e)
  then show ?thesis
    by (auto simp: allow_table_def block_admits_def cidr_key_def split: sum.splits option.splits)
next
  case (Inr k)
  then obtain ipnet ip4 where k: "ParseCIDR c = Inr ipnet" "To4 (in_IP ipnet) = Some ip4"
    "k = \<lparr>lk_Prefixlen = of_nat (in_ones ipnet), lk_Addr = be32 ip4\<rparr>"
    by (rule cidr_key_match)
  have "unat (of_nat (in_ones ipnet) :: u32) = in_ones ipnet"
    using ParseCIDR_ones [OF k(1)] by (simp add: unat_of_nat)
  then have le: "lk_Prefixlen k \<le> 32 \<longleftrightarrow> in_ones ipnet \<le> 32"
    by (simp add: k(3) word_le_nat_alt)
  show ?thesis
    using lpm_match_reversed [OF Inr k(1,2)] le k(1,2)
    by (auto simp: allow_table_def Inr block_admits_def)
qed

lemma allow_table_admits:
  "list_ex (\<lambda>k. lpm_match k d) (allow_table cidrs) \<longleftrightarrow> list_ex (block_admits d) cidrs"
  by (induction cidrs) (simp add: allow_table_def, simp add: allow_table_Cons)


end
