(* ===== verification/Config.thy ===== *)
theory Config
  imports Prelude
begin

text \<open>
  \<^verbatim>\<open>internal/config/config.go\<close>: the configuration all services read, and the defaults filled in after
  decoding. The YAML decoder (\<^verbatim>\<open>gopkg.in/yaml.v3\<close>) is an argument of the loading.
\<close>

record TracingConfig =
  tc_Endpoint :: string

record APIConfig =
  ac_ListenAddr :: string
  ac_JWTSecret :: string

record OrchestratorConfig =
  occ_GRPCAddr :: string
  occ_StateBackend :: string

record HostAgentEntry =
  hae_ID :: string
  hae_HTTPAddr :: string

record HostAgentConfig =
  hc_GRPCAddr :: string
  hc_GRPCStubAddr :: string
  hc_AgentSecret :: string
  hc_FirecrackerBin :: string
  hc_JailerBin :: string
  hc_KernelImage :: string
  hc_BaseRootfs :: string
  hc_SandboxDir :: string
  hc_SnapshotDir :: string
  hc_MetricsAddr :: string
  hc_WarmPoolSize :: int

record RedisConfig =
  rc_Addr :: string
  rc_Password :: string
  rc_DB :: int

record LogConfig =
  lc_Level :: string
  lc_Format :: string

record Config =
  cf_API :: APIConfig
  cf_Orchestrator :: OrchestratorConfig
  cf_HostAgent :: HostAgentConfig
  cf_HostAgents :: "HostAgentEntry list"
  cf_Redis :: RedisConfig
  cf_Tracing :: TracingConfig
  cf_Log :: LogConfig

section \<open>Defaults\<close>

definition or_default :: "string \<Rightarrow> string \<Rightarrow> string" where
  "or_default d v = (if v = '''' then d else v)"

definition api_defaults :: "APIConfig \<Rightarrow> APIConfig" where
  "api_defaults = ac_ListenAddr_update (or_default ''0.0.0.0:8080'')"

definition orchestrator_defaults :: "OrchestratorConfig \<Rightarrow> OrchestratorConfig" where
  "orchestrator_defaults c =
     c\<lparr>occ_GRPCAddr := or_default ''0.0.0.0:9090'' (occ_GRPCAddr c),
       occ_StateBackend := or_default ''memory'' (occ_StateBackend c)\<rparr>"

definition host_agent_defaults :: "HostAgentConfig \<Rightarrow> HostAgentConfig" where
  "host_agent_defaults c =
     c\<lparr>hc_GRPCAddr := or_default ''0.0.0.0:9091'' (hc_GRPCAddr c),
       hc_FirecrackerBin := or_default ''/usr/local/bin/firecracker'' (hc_FirecrackerBin c),
       hc_JailerBin := or_default ''/usr/local/bin/jailer'' (hc_JailerBin c),
       hc_SandboxDir := or_default ''/var/lib/sandock/sandboxes'' (hc_SandboxDir c),
       hc_SnapshotDir := or_default ''/var/lib/sandock/snapshots'' (hc_SnapshotDir c),
       hc_MetricsAddr := or_default ''0.0.0.0:9100'' (hc_MetricsAddr c)\<rparr>"

definition log_defaults :: "LogConfig \<Rightarrow> LogConfig" where
  "log_defaults c =
     c\<lparr>lc_Level := or_default ''info'' (lc_Level c), lc_Format := or_default ''json'' (lc_Format c)\<rparr>"

definition applyDefaults :: "Config \<Rightarrow> Config" where
  "applyDefaults cfg =
     cfg\<lparr>cf_API := api_defaults (cf_API cfg),
         cf_Orchestrator := orchestrator_defaults (cf_Orchestrator cfg),
         cf_HostAgent := host_agent_defaults (cf_HostAgent cfg),
         cf_Redis := rc_Addr_update (or_default ''localhost:6379'') (cf_Redis cfg),
         cf_Log := log_defaults (cf_Log cfg)\<rparr>"

text \<open>Loading: the file is opened and decoded, then the defaults are filled in.\<close>

definition config_Load ::
  "(string \<Rightarrow> string + string) \<Rightarrow> (string \<Rightarrow> string + Config) \<Rightarrow> string \<Rightarrow> string + Config" where
  "config_Load open_file yaml_decode path =
     (case open_file path of
        Inl e \<Rightarrow> Inl (''config: open '' @ path @ '': '' @ e)
      | Inr text \<Rightarrow>
          (case yaml_decode text of
             Inl e \<Rightarrow> Inl (''config: decode '' @ path @ '': '' @ e)
           | Inr cfg \<Rightarrow> Inr (applyDefaults cfg)))"

section \<open>Facts\<close>

lemma or_default_simps [simp]:
  "v \<noteq> '''' \<Longrightarrow> or_default d v = v" "or_default d (or_default d v) = or_default d v"
  by (simp_all add: or_default_def)

lemma or_default_nonempty [simp]: "d \<noteq> '''' \<Longrightarrow> or_default d v \<noteq> ''''"
  by (simp add: or_default_def)

lemmas defaults_defs = applyDefaults_def api_defaults_def orchestrator_defaults_def
  host_agent_defaults_def log_defaults_def

lemma applyDefaults_idem: "applyDefaults (applyDefaults cfg) = applyDefaults cfg"
  by (simp add: defaults_defs)

text \<open>What the services read without a check of their own.\<close>

definition config_complete :: "Config \<Rightarrow> bool" where
  "config_complete cfg \<longleftrightarrow>
     ac_ListenAddr (cf_API cfg) \<noteq> '''' \<and> occ_GRPCAddr (cf_Orchestrator cfg) \<noteq> '''' \<and>
     occ_StateBackend (cf_Orchestrator cfg) \<noteq> '''' \<and> hc_GRPCAddr (cf_HostAgent cfg) \<noteq> '''' \<and>
     hc_FirecrackerBin (cf_HostAgent cfg) \<noteq> '''' \<and> hc_JailerBin (cf_HostAgent cfg) \<noteq> '''' \<and>
     hc_SandboxDir (cf_HostAgent cfg) \<noteq> '''' \<and> hc_SnapshotDir (cf_HostAgent cfg) \<noteq> '''' \<and>
     hc_MetricsAddr (cf_HostAgent cfg) \<noteq> '''' \<and> rc_Addr (cf_Redis cfg) \<noteq> '''' \<and>
     lc_Level (cf_Log cfg) \<noteq> '''' \<and> lc_Format (cf_Log cfg) \<noteq> ''''"

lemma applyDefaults_complete: "config_complete (applyDefaults cfg)"
  by (simp add: config_complete_def defaults_defs)

text \<open>A complete configuration is the decoder's own: nothing that is set is changed.\<close>

lemma applyDefaults_keeps: "config_complete cfg \<Longrightarrow> applyDefaults cfg = cfg"
  by (simp add: config_complete_def defaults_defs)

lemma config_Load_ok:
  "config_Load op yd path = Inr cfg \<longleftrightarrow>
   (\<exists>text raw. op path = Inr text \<and> yd text = Inr raw \<and> cfg = applyDefaults raw)"
  by (auto simp: config_Load_def split: sum.splits)

end
