(* ===== verification/HostAgent.thy ===== *)
theory HostAgent
  imports HostResources Firecracker EgressFilter Config "HOL-Library.AList"
begin

text \<open>
  \<^verbatim>\<open>cmd/host-agent/server.go\<close>: the server that owns the sandboxes of one host, with its own message
  types (\<^verbatim>\<open>cmd/host-agent/proto_types.go\<close>). An operation is a state monad over the world and the
  server's table of sandboxes; the goroutines it leaves behind wait in a list, and each is run by
  \<open>watchVM\<close>. A panic of an operation is a result of its own.
\<close>

section \<open>Messages and errors\<close>

record LocalPlaceRequest =
  hp_SandboxId :: string
  hp_TenantId :: string
  hp_ImageRef :: string
  hp_CpuMillis :: u32
  hp_MemMib :: u32
  hp_TimeoutMs :: u32
  hp_EgressAllowlist :: "string list"
  hp_SnapshotKey :: string

record LocalPlaceResponse =
  hpr_SandboxId :: string
  hpr_VsockCid :: u32

record LocalTerminateRequest =
  ht_SandboxId :: string
  ht_Reason :: string

record LocalTerminateResponse =
  htr_SandboxId :: string

record LocalExecRequest =
  hx_SandboxId :: string
  hx_Command :: string
  hx_Stdin :: string
  hx_TimeoutMs :: u32

record LocalExecResponse =
  hxr_Stdout :: string
  hxr_Stderr :: string
  hxr_ExitCode :: int
  hxr_DurationMs :: int

record LogRequest =
  hl_SandboxId :: string

record LogChunk =
  lg_SandboxId :: string
  lg_Line :: string
  lg_Timestamp :: int
  lg_Stream :: string

record LocalHeartbeatRequest =
  hh_HostId :: string

record LocalHeartbeatResponse =
  hhr_HostId :: string
  hhr_ActiveVms :: u32
  hhr_IdlePoolSize :: u32
  hhr_CpuUsagePct :: f64
  hhr_MemUsedMib :: u64
  hhr_MemTotalMib :: u64

text \<open>\<^verbatim>\<open>status.Errorf(code, ...)\<close>, and the text of such an error.\<close>

datatype status_code = Internal | NotFound | DeadlineExceeded

record status_error =
  st_code :: status_code
  st_msg :: string

fun code_text :: "status_code \<Rightarrow> string" where
  "code_text Internal = ''Internal''"
| "code_text NotFound = ''NotFound''"
| "code_text DeadlineExceeded = ''DeadlineExceeded''"

definition status_text :: "status_error \<Rightarrow> string" where
  "status_text e = ''rpc error: code = '' @ code_text (st_code e) @ '' desc = '' @ st_msg e"

definition internal_error :: "string \<Rightarrow> string \<Rightarrow> status_error" where
  "internal_error pre e = \<lparr>st_code = Internal, st_msg = pre @ '': '' @ e\<rparr>"

section \<open>The server\<close>

record sandboxEntry =
  se_sandboxID :: string
  se_tenantID :: string
  se_pid :: nat
  se_vsockCID :: u32
  se_vsockUDS :: string
  se_vmAgentSocket :: string
  se_cgroupDir :: string
  se_cancel :: nat

record hostAgentServer =
  ha_cfg :: HostAgentConfig
  ha_hostID :: string
  ha_snapManager :: SnapshotManager

text \<open>A goroutine that waits for a process: the arguments it was started with.\<close>

record watcher =
  wa_sandboxID :: string
  wa_pid :: nat
  wa_overlay :: OverlayConfig
  wa_tenantID :: string

record agent = host +
  ag_sandboxes :: "(string \<times> sandboxEntry) list"
  ag_watching :: "watcher list"

type_synonym 'a agent_io = "(agent, 'a) state"

definition newHostAgentServer :: "HostAgentConfig \<Rightarrow> string \<Rightarrow> hostAgentServer" where
  "newHostAgentServer cfg hostID =
     \<lparr>ha_cfg = cfg, ha_hostID = hostID, ha_snapManager = NewSnapshotManager (hc_SnapshotDir cfg)\<rparr>"

definition active_metric :: "hostAgentServer \<Rightarrow> unit agent_io" where
  "active_metric srv = do {
     s \<leftarrow> the_state;
     _ \<leftarrow> perform_raw (Metric ''vm_pool_active_count'' [ha_hostID srv] (int (length (ag_sandboxes s))));
     ret () }"

section \<open>Helpers\<close>

text \<open>
  \<^verbatim>\<open>guestCID\<close>: the FNV-1a hash of the identifier at 32 bits, brought into the range of guest context
  identifiers.
\<close>

definition fnv_step :: "u32 \<Rightarrow> char \<Rightarrow> u32" where
  "fnv_step h c = (xor h (of_char c)) * 16777619"

definition fnv32a :: "string \<Rightarrow> u32" where
  "fnv32a s = foldl fnv_step 2166136261 s"

definition guestCID :: "string \<Rightarrow> u32" where
  "guestCID sandboxID = (let c = fnv32a sandboxID mod 65532 + 3 in if c < 3 then 3 else c)"

text \<open>
  \<^verbatim>\<open>copyFile\<close>: the files it opens are closed on every path, the one opened last first; a failing
  close is not seen.
\<close>

definition copyFile :: "string \<Rightarrow> string \<Rightarrow> ('s, string + unit) io" where
  "copyFile src dst =
     attempt (perform (OpenFile src))
       (\<lambda>e. ret (Inl (''open src '' @ src @ '': '' @ e)))
       (\<lambda>_. do {
          r \<leftarrow> attempt (perform (MkdirAll (path_Dir dst)))
            (\<lambda>e. ret (Inl e))
            (\<lambda>_. attempt (perform (CreateFile dst))
              (\<lambda>e. ret (Inl (''create dst '' @ dst @ '': '' @ e)))
              (\<lambda>_. do {
                 c \<leftarrow> attempt (perform (CopyBytes dst src)) (\<lambda>e. ret (Inl e)) (\<lambda>_. ret (Inr ()));
                 _ \<leftarrow> perform_raw (CloseFile dst);
                 ret c }));
          _ \<leftarrow> perform_raw (CloseFile src);
          ret r })"

text \<open>
  \<^verbatim>\<open>waitForSocket\<close> polls every 50 milliseconds until the deadline. The clock moves on by the pause at
  least, so the loop ends.
\<close>

function await_socket :: "string \<Rightarrow> time \<Rightarrow> 's host_scheme \<Rightarrow> bool \<times> 's host_scheme" where
  "await_socket path deadline s =
     (if os_clock s < deadline
      then (case answer (os_env s (os_trace s) (Stat path)) of
              Inr _ \<Rightarrow> (True, note_call (Stat path) s)
            | Inl _ \<Rightarrow> await_socket path deadline
                         (note_call (Sleep 50000000) (note_call (Stat path) s)))
      else (False, s))"
  by pat_completeness auto
termination
  by (relation "measure (\<lambda>(path, deadline, s). nat (deadline - os_clock s))") simp_all

declare await_socket.simps [simp del]

definition last_bytes :: "nat \<Rightarrow> string \<Rightarrow> string" where
  "last_bytes n s = (if length s > n then drop (length s - n) s else s)"

text \<open>The timeout is a whole number of seconds below a minute, as its only caller has it.\<close>

definition waitForSocket :: "string \<Rightarrow> string \<Rightarrow> nat \<Rightarrow> ('s, string + unit) io" where
  "waitForSocket path fcLogPath seconds = do {
     start \<leftarrow> now;
     there \<leftarrow> State (await_socket path (start + int seconds * 1000000000));
     if there then ret (Inr ())
     else (let err = ''socket '' @ path @ '' did not appear within '' @ show_nat seconds @ ''s''
           in if fcLogPath = '''' then ret (Inl err)
              else attempt (perform (ReadFile fcLogPath))
                     (\<lambda>_. ret (Inl err))
                     (\<lambda>a. if length (rp_text a) > 0
                          then ret (Inl (err @ ''; firecracker log tail: '' @ last_bytes 2048 (rp_text a)))
                          else ret (Inl err))) }"

section \<open>Placing a sandbox\<close>

text \<open>
  What the request's overlay, directories and paths are. The configuration of the overlay holds
  the lower directory, which the first step finds.
\<close>

definition sandbox_dir :: "hostAgentServer \<Rightarrow> string \<Rightarrow> string" where
  "sandbox_dir srv sandboxID = path_Join [hc_SandboxDir (ha_cfg srv), sandboxID]"

definition overlay_cfg :: "hostAgentServer \<Rightarrow> string \<Rightarrow> string \<Rightarrow> OverlayConfig" where
  "overlay_cfg srv sandboxID lowerDir =
     \<lparr>oc_SandboxID = sandboxID, oc_BaseDir = hc_SandboxDir (ha_cfg srv), oc_LowerDir = lowerDir\<rparr>"

text \<open>The four ways a failing placement undoes its work, as far as it has come.\<close>

definition undo_overlay :: "OverlayConfig \<Rightarrow> status_error \<Rightarrow> ('s, status_error + 'a) io" where
  "undo_overlay oc err = do { _ \<leftarrow> overlay_Teardown oc; ret (Inl err) }"

definition undo_files :: "OverlayConfig \<Rightarrow> string \<Rightarrow> status_error \<Rightarrow> ('s, status_error + 'a) io" where
  "undo_files oc sandboxID err = do {
     _ \<leftarrow> overlay_Teardown oc;
     _ \<leftarrow> cgroup_Teardown sandboxID;
     ret (Inl err) }"

definition undo_start ::
  "OverlayConfig \<Rightarrow> string \<Rightarrow> nat \<Rightarrow> status_error \<Rightarrow> ('s, status_error + 'a) io" where
  "undo_start oc sandboxID vmCtx err = do {
     _ \<leftarrow> perform_raw (CancelContext vmCtx);
     undo_files oc sandboxID err }"

definition undo_vm ::
  "OverlayConfig \<Rightarrow> string \<Rightarrow> nat \<Rightarrow> nat \<Rightarrow> status_error \<Rightarrow> ('s, status_error + 'a) io" where
  "undo_vm oc sandboxID vmCtx pid err = do {
     _ \<leftarrow> perform_raw (CancelContext vmCtx);
     _ \<leftarrow> perform_raw (KillProcess pid);
     undo_files oc sandboxID err }"

text \<open>Steps 1 and 2: the overlay and the control group. 128 MiB are added to the memory limit at 32 bits.\<close>

definition place_resources ::
  "hostAgentServer \<Rightarrow> LocalPlaceRequest \<Rightarrow> ('s, status_error + (OverlayConfig \<times> string)) io" where
  "place_resources srv req =
     attempt (overlayLowerDir (hc_BaseRootfs (ha_cfg srv)))
       (\<lambda>e. ret (Inl (internal_error ''overlay lowerdir'' e)))
       (\<lambda>lowerDir. let oc = overlay_cfg srv (hp_SandboxId req) lowerDir in
          attempt (overlay_Setup oc)
            (\<lambda>e. ret (Inl (internal_error ''overlay setup'' e)))
            (\<lambda>_. attempt (cgroup_Setup (hp_SandboxId req)
                            \<lparr>li_CPUMillis = hp_CpuMillis req, li_MemoryMiB = hp_MemMib req + 128,
                             li_SwapMiB = 0\<rparr>)
              (\<lambda>e. undo_overlay oc (internal_error ''cgroup setup'' e))
              (\<lambda>cgroupDir. ret (Inr (oc, cgroupDir)))))"

text \<open>Step 3: the sandbox's directory, its disk and the log file.\<close>

definition place_files ::
  "hostAgentServer \<Rightarrow> LocalPlaceRequest \<Rightarrow> OverlayConfig \<Rightarrow> ('s, status_error + unit) io" where
  "place_files srv req oc =
     (let sandboxDir = sandbox_dir srv (hp_SandboxId req); sid = hp_SandboxId req;
          rootfsDisk = path_Join [sandboxDir, ''rootfs.ext4''];
          fcLogPath = path_Join [sandboxDir, ''fc.log'']
      in attempt (perform (MkdirAll sandboxDir))
           (\<lambda>e. undo_files oc sid (internal_error ''mkdir sandbox dir'' e))
           (\<lambda>_. attempt (copyFile (hc_BaseRootfs (ha_cfg srv)) rootfsDisk)
             (\<lambda>e. undo_files oc sid (internal_error ''rootfs copy'' e))
             (\<lambda>_. attempt (perform (OpenAppend fcLogPath))
               (\<lambda>e. undo_files oc sid (internal_error (''create firecracker log '' @ fcLogPath) e))
               (\<lambda>_. do { _ \<leftarrow> perform_raw (CloseFile fcLogPath); ret (Inr ()) }))))"

text \<open>Step 4: the process, under a context with the request's timeout. The result is context and process.\<close>

definition place_start ::
  "hostAgentServer \<Rightarrow> LocalPlaceRequest \<Rightarrow> OverlayConfig \<Rightarrow> ('s, status_error + (nat \<times> nat)) io" where
  "place_start srv req oc =
     (let sandboxDir = sandbox_dir srv (hp_SandboxId req);
          socketPath = path_Join [sandboxDir, ''firecracker.sock''];
          fcLogPath = path_Join [sandboxDir, ''fc.log'']
      in do {
        vmCtx \<leftarrow> new_context;
        attempt (perform (StartProcess vmCtx (duration_ms (hp_TimeoutMs req))
                   [hc_FirecrackerBin (ha_cfg srv), ''--api-sock'', socketPath, ''--log-path'', fcLogPath]))
          (\<lambda>e. undo_start oc (hp_SandboxId req) vmCtx (internal_error ''firecracker start'' e))
          (\<lambda>p. ret (Inr (vmCtx, rp_num p))) })"

text \<open>Steps 5 and 6: one request after the other, each of which ends the placement when it fails.\<close>

definition vm_step ::
  "OverlayConfig \<Rightarrow> string \<Rightarrow> nat \<Rightarrow> nat \<Rightarrow> string \<Rightarrow> ('s, string + unit) io \<Rightarrow>
   ('s, status_error + 'a) io \<Rightarrow> ('s, status_error + 'a) io" where
  "vm_step oc sid vmCtx pid what m k =
     attempt m (\<lambda>e. undo_vm oc sid vmCtx pid (internal_error what e)) (\<lambda>_. k)"

definition boot_args :: string where
  "boot_args = ''console=ttyS0 reboot=k panic=1 pci=off ip=169.254.0.2::169.254.0.1:255.255.255.0::eth0:off root=/dev/vda rw''"

definition place_configure ::
  "hostAgentServer \<Rightarrow> LocalPlaceRequest \<Rightarrow> OverlayConfig \<Rightarrow> nat \<Rightarrow> nat \<Rightarrow>
   ('s, status_error + FcClient) io" where
  "place_configure srv req oc vmCtx pid =
     (let sid = hp_SandboxId req; sandboxDir = sandbox_dir srv sid;
          socketPath = path_Join [sandboxDir, ''firecracker.sock''];
          fcLogPath = path_Join [sandboxDir, ''fc.log''];
          rootfsDisk = path_Join [sandboxDir, ''rootfs.ext4''];
          vsockUDS = path_Join [sandboxDir, ''vsock.sock''];
          fc = fc_NewClient socketPath
      in attempt (waitForSocket socketPath fcLogPath 15)
           (\<lambda>e. undo_vm oc sid vmCtx pid
                  \<lparr>st_code = DeadlineExceeded, st_msg = ''firecracker socket timeout: '' @ e\<rparr>)
           (\<lambda>_.
        vm_step oc sid vmCtx pid ''firecracker machine-config''
          (PutMachineConfig fc \<lparr>mc_VcpuCount = 1, mc_MemSizeMib = uint (hp_MemMib req), mc_SMT = False\<rparr>) (
        vm_step oc sid vmCtx pid ''firecracker boot-source''
          (PutBootSource fc \<lparr>bs_KernelImagePath = hc_KernelImage (ha_cfg srv), bs_BootArgs = boot_args\<rparr>) (
        vm_step oc sid vmCtx pid ''firecracker drive''
          (PutDrive fc \<lparr>dr_DriveID = ''rootfs'', dr_PathOnHost = rootfsDisk, dr_IsRootDevice = True,
                        dr_IsReadOnly = False\<rparr>) (do {
        _ \<leftarrow> perform_raw (RemoveFile vsockUDS);
        vm_step oc sid vmCtx pid ''firecracker vsock''
          (PutVsock fc \<lparr>vs_GuestCID = guestCID sid, vs_UDSPath = vsockUDS\<rparr>) (
        vm_step oc sid vmCtx pid ''cgroup addpid'' (cgroup_AddPID sid pid) (
        ret (Inr fc))) })))))"

text \<open>The boot: from the snapshot the request names when both its files are there, else from the kernel.\<close>

definition place_boot ::
  "hostAgentServer \<Rightarrow> LocalPlaceRequest \<Rightarrow> OverlayConfig \<Rightarrow> nat \<Rightarrow> nat \<Rightarrow> FcClient \<Rightarrow> time \<Rightarrow>
   ('s, status_error + unit) io" where
  "place_boot srv req oc vmCtx pid fc startTime = do {
     warm \<leftarrow> (if hp_SnapshotKey req \<noteq> '''' then snapshot_Exists (ha_snapManager srv) (hp_SnapshotKey req)
             else ret False);
     if warm then do {
       warmStart \<leftarrow> now;
       vm_step oc (hp_SandboxId req) vmCtx pid ''snapshot load''
         (snapshot_Load (ha_snapManager srv) (hp_SnapshotKey req) fc) (do {
       t \<leftarrow> now;
       _ \<leftarrow> perform_raw (Metric ''sandbox_warm_start_duration_seconds''
              [hp_TenantId req, hp_ImageRef req, ''local''] (t - warmStart));
       ret (Inr ()) }) }
     else
       vm_step oc (hp_SandboxId req) vmCtx pid ''firecracker start instance'' (StartInstance fc) (do {
       t \<leftarrow> now;
       _ \<leftarrow> perform_raw (Metric ''sandbox_cold_start_duration_seconds''
              [hp_TenantId req, hp_ImageRef req, ''local''] (t - startTime));
       ret (Inr ()) }) }"

text \<open>Step 8: the egress filter. Its failures are logged only.\<close>

fun add_cidrs :: "EgressFilter \<Rightarrow> string list \<Rightarrow> ('s, go_panic + unit) io" where
  "add_cidrs f [] = ret (Inr ())"
| "add_cidrs f (c # cs) = attempt (ef_AddCIDR f c) (\<lambda>p. ret (Inl p)) (\<lambda>_. add_cidrs f cs)"

definition place_egress :: "LocalPlaceRequest \<Rightarrow> ('s, go_panic + unit) io" where
  "place_egress req =
     (case slice_to (hp_SandboxId req) 8 of
        Inl p \<Rightarrow> ret (Inl p)
      | Inr pre \<Rightarrow>
          attempt (ef_Load (NewEgressFilter (hp_SandboxId req) (''veth-'' @ pre))
                     ''/var/sandock/ebpf/egress_filter.o'')
            (\<lambda>_. ret (Inr ()))
            (\<lambda>f. add_cidrs f (hp_EgressAllowlist req)))"

text \<open>Steps 1 to 6: everything that can fail; the result is what the server's entry is made of.\<close>

definition place_vm ::
  "hostAgentServer \<Rightarrow> LocalPlaceRequest \<Rightarrow>
   ('s, status_error + (OverlayConfig \<times> string \<times> nat \<times> nat)) io" where
  "place_vm srv req = do {
     startTime \<leftarrow> now;
     attempt (place_resources srv req)
       (\<lambda>e. ret (Inl e))
       (\<lambda>(oc, cgroupDir). attempt (place_files srv req oc)
         (\<lambda>e. ret (Inl e))
         (\<lambda>_. attempt (place_start srv req oc)
           (\<lambda>e. ret (Inl e))
           (\<lambda>(vmCtx, pid). attempt (place_configure srv req oc vmCtx pid)
             (\<lambda>e. ret (Inl e))
             (\<lambda>fc. attempt (place_boot srv req oc vmCtx pid fc startTime)
               (\<lambda>e. ret (Inl e))
               (\<lambda>_. ret (Inr (oc, cgroupDir, vmCtx, pid))))))) }"

text \<open>Step 7: the entry of a running sandbox.\<close>

definition new_entry ::
  "hostAgentServer \<Rightarrow> LocalPlaceRequest \<Rightarrow> string \<Rightarrow> nat \<Rightarrow> nat \<Rightarrow> sandboxEntry" where
  "new_entry srv req cgroupDir vmCtx pid =
     (let sid = hp_SandboxId req
      in \<lparr>se_sandboxID = sid, se_tenantID = hp_TenantId req, se_pid = pid,
          se_vsockCID = guestCID sid, se_vsockUDS = path_Join [sandbox_dir srv sid, ''vsock.sock''],
          se_vmAgentSocket = '''', se_cgroupDir = cgroupDir, se_cancel = vmCtx\<rparr>)"

definition PlaceSandbox ::
  "hostAgentServer \<Rightarrow> LocalPlaceRequest \<Rightarrow> (go_panic + (status_error + LocalPlaceResponse)) agent_io" where
  "PlaceSandbox srv req =
     attempt (place_vm srv req)
       (\<lambda>e. ret (Inr (Inl e)))
       (\<lambda>(oc, cgroupDir, vmCtx, pid). do {
          _ \<leftarrow> change (ag_sandboxes_update (AList.update (hp_SandboxId req)
                  (new_entry srv req cgroupDir vmCtx pid)));
          _ \<leftarrow> active_metric srv;
          attempt (place_egress req)
            (\<lambda>p. ret (Inl p))
            (\<lambda>_. do {
               _ \<leftarrow> change (ag_watching_update (\<lambda>ws. ws @
                      [\<lparr>wa_sandboxID = hp_SandboxId req, wa_pid = pid, wa_overlay = oc,
                        wa_tenantID = hp_TenantId req\<rparr>]));
               ret (Inr (Inr \<lparr>hpr_SandboxId = hp_SandboxId req,
                              hpr_VsockCid = guestCID (hp_SandboxId req)\<rparr>)) }) })"

section \<open>The other operations\<close>

definition TerminateSandbox ::
  "LocalTerminateRequest \<Rightarrow> (status_error + LocalTerminateResponse) agent_io" where
  "TerminateSandbox req = do {
     s \<leftarrow> the_state;
     case map_of (ag_sandboxes s) (ht_SandboxId req) of
       None \<Rightarrow> ret (Inl \<lparr>st_code = NotFound,
                        st_msg = ''sandbox '' @ ht_SandboxId req @ '' not found on this host''\<rparr>)
     | Some entry \<Rightarrow> do {
         _ \<leftarrow> change (ag_sandboxes_update (AList.delete (ht_SandboxId req)));
         _ \<leftarrow> perform_raw (CancelContext (se_cancel entry));
         ret (Inr \<lparr>htr_SandboxId = ht_SandboxId req\<rparr>) } }"

text \<open>\<^verbatim>\<open>int32(resp.ExitCode)\<close> keeps the low 32 bits.\<close>

definition ExecInSandbox :: "LocalExecRequest \<Rightarrow> (status_error + LocalExecResponse) agent_io" where
  "ExecInSandbox req = do {
     s \<leftarrow> the_state;
     case map_of (ag_sandboxes s) (hx_SandboxId req) of
       None \<Rightarrow> ret (Inl \<lparr>st_code = NotFound,
                        st_msg = ''sandbox '' @ hx_SandboxId req @ '' not running on this host''\<rparr>)
     | Some entry \<Rightarrow> do {
         execStart \<leftarrow> now;
         attempt (vsock_Exec (se_vsockUDS entry)
                    \<lparr>vx_Command = hx_Command req, vx_Stdin = hx_Stdin req,
                     vx_TimeoutMs = (if hx_TimeoutMs req = 0 then 30000 else hx_TimeoutMs req)\<rparr>)
           (\<lambda>e. ret (Inl (internal_error ''vsock exec'' e)))
           (\<lambda>resp. do {
              t \<leftarrow> now;
              _ \<leftarrow> perform_raw (Metric ''sandbox_exec_duration_seconds'' [se_tenantID entry, ''base''] (t - execStart));
              ret (Inr \<lparr>hxr_Stdout = vxr_Stdout resp, hxr_Stderr = vxr_Stderr resp,
                        hxr_ExitCode = signed_take_bit 31 (vxr_ExitCode resp),
                        hxr_DurationMs = vxr_DurationMs resp\<rparr>) }) } }"

definition StreamLogs :: "hostAgentServer \<Rightarrow> LogRequest \<Rightarrow> (string + unit) agent_io" where
  "StreamLogs srv req =
     (let logPath = path_Join [hc_SandboxDir (ha_cfg srv), hl_SandboxId req, ''fc.log'']
      in attempt (perform (ReadFile logPath))
           (\<lambda>e. ret (Inl (status_text \<lparr>st_code = NotFound,
                          st_msg = ''log file for '' @ hl_SandboxId req @ '': '' @ e\<rparr>)))
           (\<lambda>a. do {
              t \<leftarrow> now;
              let chunk = \<lparr>lg_SandboxId = hl_SandboxId req, lg_Line = rp_text a, lg_Timestamp = t,
                           lg_Stream = ''stdout''\<rparr>;
              attempt (perform (SendLog (lg_SandboxId chunk) (lg_Line chunk) (lg_Timestamp chunk) (lg_Stream chunk)))
                (\<lambda>e. ret (Inl e))
                (\<lambda>_. ret (Inr ())) }))"

definition Heartbeat ::
  "hostAgentServer \<Rightarrow> LocalHeartbeatRequest \<Rightarrow> (status_error + LocalHeartbeatResponse) agent_io" where
  "Heartbeat srv req = do {
     s \<leftarrow> the_state;
     ret (Inr \<lparr>hhr_HostId = ha_hostID srv, hhr_ActiveVms = of_nat (length (ag_sandboxes s)),
               hhr_IdlePoolSize = 0, hhr_CpuUsagePct = Fin 0, hhr_MemUsedMib = 0,
               hhr_MemTotalMib = 0\<rparr>) }"

definition reconcilePool :: "hostAgentServer \<Rightarrow> unit agent_io" where
  "reconcilePool srv = do {
     s \<leftarrow> the_state;
     let active = int (length (ag_sandboxes s));
     let target = hc_WarmPoolSize (ha_cfg srv);
     if target \<le> 0 then ret () else do {
       _ \<leftarrow> perform_raw (Metric ''vm_pool_active_count'' [ha_hostID srv] active);
       _ \<leftarrow> perform_raw (Metric ''vm_pool_idle_count'' [ha_hostID srv] (target - active));
       ret () } }"

text \<open>
  The loop of the reconciler, for the ticks that come before its context is done; a tick every five
  seconds.
\<close>

fun runPoolReconciler :: "hostAgentServer \<Rightarrow> nat \<Rightarrow> unit agent_io" where
  "runPoolReconciler srv 0 = ret ()"
| "runPoolReconciler srv (Suc n) = do { _ \<leftarrow> reconcilePool srv; runPoolReconciler srv n }"

text \<open>The count of OOM kills, recorded when it can be read and is not zero.\<close>

definition record_oom :: "watcher \<Rightarrow> reply agent_io" where
  "record_oom w = do {
     oom \<leftarrow> cgroup_OOMCount (wa_sandboxID w);
     case oom of
       Inl _ \<Rightarrow> ret plain_reply
     | Inr n \<Rightarrow>
         if n > 0
         then perform_raw (Metric ''sandbox_oom_kills_total'' [wa_tenantID w, ''base''] (uint n))
         else ret plain_reply }"

text \<open>
  The goroutine of a sandbox, from the exit of its process on. What it removes from the table is the
  entry of that name, whichever placement made it.
\<close>

definition watchVM :: "hostAgentServer \<Rightarrow> watcher \<Rightarrow> unit agent_io" where
  "watchVM srv w = do {
     _ \<leftarrow> perform_raw (WaitProcess (wa_pid w));
     _ \<leftarrow> record_oom w;
     _ \<leftarrow> change (ag_sandboxes_update (AList.delete (wa_sandboxID w)));
     _ \<leftarrow> active_metric srv;
     _ \<leftarrow> cgroup_Teardown (wa_sandboxID w);
     _ \<leftarrow> overlay_Teardown (wa_overlay w);
     ret () }"

section \<open>What a placement holds\<close>

lemma frame_agent:
  "frame s s' \<Longrightarrow> ag_sandboxes s' = ag_sandboxes s \<and> ag_watching s' = ag_watching (s :: agent)"
  by (cases s; cases s') (simp add: frame_def agent.defs)

text \<open>
  The directories a placement makes and nothing removes again; and what it holds besides: the
  overlay's mount and the control group.
\<close>

definition left_dirs :: "hostAgentServer \<Rightarrow> string \<Rightarrow> resource set" where
  "left_dirs srv sid =
     (let dir = sandbox_dir srv sid
      in {lower_dir (hc_BaseRootfs (ha_cfg srv)), Dir dir, Dir (path_Dir (path_Join [dir, ''rootfs.ext4''])),
          Dir (path_Join [dir, ''upper'']), Dir (path_Join [dir, ''work'']),
          Dir (path_Join [dir, ''merged''])})"

definition vm_mount :: "hostAgentServer \<Rightarrow> string \<Rightarrow> resource" where
  "vm_mount srv sid = Mounted (path_Join [sandbox_dir srv sid, ''merged''])"

definition vm_cgroup :: "string \<Rightarrow> resource" where
  "vm_cgroup sid = Dir (cgroup_dir sid)"

lemma overlay_cfg_held:
  "overlay_mount (overlay_cfg srv sid l) = vm_mount srv sid"
  "overlay_dirs (overlay_cfg srv sid l) \<subseteq> left_dirs srv sid"
  by (auto simp: overlay_mount_def overlay_dirs_def overlay_paths_def overlay_cfg_def sandbox_dir_def
      vm_mount_def left_dirs_def Let_def)

lemma left_dirs_no_mount [simp]:
  "Mounted m \<notin> left_dirs srv sid" "Running p \<notin> left_dirs srv sid" "Unreaped p \<notin> left_dirs srv sid"
  by (simp_all add: left_dirs_def lower_dir_def Let_def)

lemma left_dirs_mem [simp]:
  "lower_dir (hc_BaseRootfs (ha_cfg srv)) \<in> left_dirs srv sid" "Dir (sandbox_dir srv sid) \<in> left_dirs srv sid"
  "Dir (path_Dir (path_Join [sandbox_dir srv sid, ''rootfs.ext4''])) \<in> left_dirs srv sid"
  by (simp_all add: left_dirs_def Let_def)

lemma undo_files_wp:
  assumes "os_GOOS s = ''linux''"
    and "\<And>s'. frame s s' \<Longrightarrow>
      held s' \<subseteq> (held s - {vm_mount srv sid, vm_cgroup sid}) \<union> left_dirs srv sid \<Longrightarrow> Q (Inl err) s'"
  shows "wp (undo_files (overlay_cfg srv sid l) sid err) Q s"
  unfolding undo_files_def wp_bind wp_ret
proof (rule overlay_Teardown_wp, rule cgroup_Teardown_wp, goal_cases)
  case (1 r s')
  then show ?case using assms(1) by (simp add: frame_def)
next
  case (2 r s' r' s'')
  then show ?case
    using overlay_cfg_held(2) [of srv sid l]
    unfolding overlay_cfg_held(1) vm_cgroup_def [symmetric]
    by (intro assms(2)) (auto simp: frame_def)
qed

lemma undo_vm_wp:
  assumes "os_GOOS s = ''linux''"
    and "\<And>s'. frame s s' \<Longrightarrow>
      held s' \<subseteq> (held s - {vm_mount srv sid, vm_cgroup sid, Running pid}) \<union> left_dirs srv sid \<Longrightarrow>
      Q (Inl err) s'"
  shows "wp (undo_vm (overlay_cfg srv sid l) sid ctx pid err) Q s"
  unfolding undo_vm_def wp_bind wp_perform_raw
  by (rule undo_files_wp [where srv = srv]) (use assms in \<open>auto simp: held_note_call\<close>)

lemma quiet_await: "quiet (State (await_socket path d) :: ('s, bool) io)"
proof -
  have "frame s (snd (await_socket path d s)) \<and> held (snd (await_socket path d s)) = held s"
    for s :: "'s host_scheme"
  proof (induction path d s rule: await_socket.induct)
    case (1 path d s)
    then show ?case
      by (subst (1 2) await_socket.simps) (auto split: sum.split)
  qed
  then show ?thesis
    by (simp add: quiet_def wp_def split_beta)
qed

lemma quiet_waitForSocket [quiet_rules]: "quiet (waitForSocket path lp n)"
  unfolding waitForSocket_def Let_def by (intro quiet_rules quiet_await) simp_all

lemma quiet_exists_if [quiet_rules]: "quiet (if b then snapshot_Exists m k else ret False)"
  by (simp add: quiet_rules)

text \<open>Each stage, over a set of resources \<open>H\<close> held before the placement.\<close>

lemma copyFile_wp:
  assumes "\<And>r s'. frame s s' \<Longrightarrow> held s \<subseteq> held s' \<Longrightarrow>
     held s' \<subseteq> insert (Dir (path_Dir dst)) (held s) \<Longrightarrow> Q r s'"
  shows "wp (copyFile src dst) Q s"
  unfolding copyFile_def wp_attempt wp_bind wp_ret
  by (auto intro!: perform_wp assms simp: wp_perform_raw frame_def)

lemma overlay_Setup_cfg_wp:
  assumes "\<And>e s'. frame s s' \<Longrightarrow> held s' \<subseteq> held s \<union> left_dirs srv sid \<Longrightarrow> Q (Inl e) s'"
    and "\<And>p s'. frame s s' \<Longrightarrow> vm_mount srv sid \<in> held s' \<Longrightarrow> held s \<subseteq> held s' \<Longrightarrow>
      held s' \<subseteq> insert (vm_mount srv sid) (held s \<union> left_dirs srv sid) \<Longrightarrow> Q (Inr p) s'"
  shows "wp (overlay_Setup (overlay_cfg srv sid l)) Q s"
proof (rule overlay_Setup_wp, goal_cases)
  case (1 e s')
  then show ?case
    using overlay_cfg_held(2) [of srv sid l] by (intro assms(1)) auto
next
  case (2 s')
  then show ?case
    using overlay_cfg_held(2) [of srv sid l]
    unfolding overlay_cfg_held(1) by (intro assms(2)) auto
qed

text \<open>What a failed placement may leave: directories, and the group when its own setup failed.\<close>

definition leftover :: "hostAgentServer \<Rightarrow> string \<Rightarrow> status_error \<Rightarrow> resource set" where
  "leftover srv sid e =
     left_dirs srv sid \<union> range Unreaped \<union>
     (if has_prefix (st_msg e) ''cgroup setup'' then {vm_cgroup sid} else {})"

lemma leftover_mem: "left_dirs srv sid \<subseteq> leftover srv sid e"
  by (auto simp: leftover_def)

lemma place_resources_wp:
  assumes "os_GOOS s = ''linux''" and sid: "sid = hp_SandboxId req"
    and "\<And>e s'. frame s s' \<Longrightarrow> held s' \<subseteq> held s \<union> leftover srv sid e \<Longrightarrow> Q (Inl e) s'"
    and "\<And>l s'. frame s s' \<Longrightarrow> {vm_mount srv sid, vm_cgroup sid} \<subseteq> held s' \<Longrightarrow>
      held s' \<subseteq> held s \<union> left_dirs srv sid \<union> {vm_mount srv sid, vm_cgroup sid} \<Longrightarrow>
      Q (Inr (overlay_cfg srv sid l, cgroup_dir sid)) s'"
  shows "wp (place_resources srv req) Q s"
  unfolding place_resources_def undo_overlay_def Let_def wp_attempt sid [symmetric]
proof (rule overlayLowerDir_wp, goal_cases)
  case (1 r s1)
  then have s1: "held s1 \<subseteq> held s \<union> left_dirs srv sid"
    using left_dirs_mem(1) [of srv sid] by blast
  show ?case
  proof (cases r)
    case (Inl e)
    with 1 s1 show ?thesis
      by (auto intro!: assms(3) simp: leftover_def)
  next
    case (Inr l)
    have "wp (overlay_Setup (overlay_cfg srv sid l))
      (\<lambda>r. case r of Inl e \<Rightarrow> wp (ret (Inl (internal_error ''overlay setup'' e))) Q
         | Inr p \<Rightarrow> wp (cgroup_Setup sid L)
            (\<lambda>r. case r of Inl e \<Rightarrow> wp (do { _ \<leftarrow> overlay_Teardown (overlay_cfg srv sid l);
                                           ret (Inl (internal_error ''cgroup setup'' e)) }) Q
             | Inr d \<Rightarrow> wp (ret (Inr (overlay_cfg srv sid l, d))) Q)) s1" for L
    proof (rule overlay_Setup_cfg_wp, goal_cases)
      case (1 e s2)
      with \<open>frame s s1\<close> s1 show ?case
        using leftover_mem [of srv sid "internal_error ''overlay setup'' e"]
        by (auto simp: frame_def intro!: assms(3))
    next
      case (2 p s2)
      show ?case
        unfolding sum.case
      proof (rule cgroup_Setup_wp, goal_cases)
        case (1 e s3)
        show ?case
          unfolding sum.case wp_bind wp_ret
        proof (rule overlay_Teardown_wp, goal_cases)
          case (1 r s4)
          have "held s4 \<subseteq> held s \<union> left_dirs srv sid \<union> {vm_cgroup sid}"
            using 1(2) 2(4) \<open>held s3 \<subseteq> _\<close> s1 overlay_cfg_held(2) [of srv sid l]
            unfolding vm_cgroup_def overlay_cfg_held(1) by blast
          then have "held s4 \<subseteq> held s \<union> leftover srv sid (internal_error ''cgroup setup'' e)"
            by (auto simp: leftover_def internal_error_def has_prefix_def)
          with 1 2 \<open>frame s2 s3\<close> \<open>frame s s1\<close> show ?case
            by (intro assms(3)) (simp_all add: frame_def)
        qed
      next
        case (2 s3)
        then show ?case
          using \<open>frame s1 s2\<close> \<open>frame s s1\<close> \<open>vm_mount srv sid \<in> held s2\<close> \<open>held s2 \<subseteq> _\<close> s1
          by (simp, intro assms(4)) (auto simp: frame_def vm_cgroup_def)
      qed
    qed
    with Inr show ?thesis by simp
  qed
qed

lemma place_files_wp:
  assumes "os_GOOS s = ''linux''" and sid: "sid = hp_SandboxId req"
    and "\<And>e s'. frame s s' \<Longrightarrow>
      held s' \<subseteq> (held s - {vm_mount srv sid, vm_cgroup sid}) \<union> left_dirs srv sid \<Longrightarrow> Q (Inl e) s'"
    and "\<And>s'. frame s s' \<Longrightarrow> held s \<subseteq> held s' \<Longrightarrow> held s' \<subseteq> held s \<union> left_dirs srv sid \<Longrightarrow>
      Q (Inr ()) s'"
  shows "wp (place_files srv req (overlay_cfg srv sid l)) Q s"
proof -
  have undo: "wp (undo_files (overlay_cfg srv sid l) sid err) Q s'"
    if "frame s s'" "held s' \<subseteq> held s \<union> left_dirs srv sid" for err s'
    using that assms(1)
    by (intro undo_files_wp [where srv = srv] assms(3)) (simp_all add: frame_def, blast)
  show ?thesis
    unfolding place_files_def Let_def wp_attempt sid [symmetric]
  proof (rule perform_wp, goal_cases)
    case (1 a e s1)
    then show ?case by (simp add: undo)
  next
    case (2 a s1)
    then have s1: "held s \<subseteq> held s1" "held s1 \<subseteq> held s \<union> left_dirs srv sid"
      by auto
    show ?case
      unfolding sum.case
    proof (rule copyFile_wp, goal_cases)
      case (1 r s2)
      then have s2: "frame s s2" "held s \<subseteq> held s2" "held s2 \<subseteq> held s \<union> left_dirs srv sid"
        using s1 2(1) left_dirs_mem(3) [of srv sid] by (blast intro: frame_trans)+
      show ?case
      proof (cases r)
        case (Inl e)
        with s2 show ?thesis by (simp add: undo)
      next
        case (Inr u)
        with s2 show ?thesis
          by (auto intro!: perform_wp undo assms(4) simp: wp_perform_raw frame_def
              del: subsetI)
      qed
    qed
  qed
qed

lemma place_start_wp:
  assumes "os_GOOS s = ''linux''" and sid: "sid = hp_SandboxId req"
    and "\<And>e s'. frame s s' \<Longrightarrow>
      held s' \<subseteq> (held s - {vm_mount srv sid, vm_cgroup sid}) \<union> left_dirs srv sid \<Longrightarrow> Q (Inl e) s'"
    and "\<And>ctx pid s'. frame s s' \<Longrightarrow>
      held s' = insert (Running pid) (insert (Unreaped pid) (held s)) \<Longrightarrow> Q (Inr (ctx, pid)) s'"
  shows "wp (place_start srv req (overlay_cfg srv sid l)) Q s"
  unfolding place_start_def new_context_def undo_start_def Let_def wp_bind wp_get wp_ret wp_attempt
    sid [symmetric]
proof (rule perform_wp, goal_cases)
  case (1 a e s1)
  then show ?case
    using assms(1) by (auto simp: wp_perform_raw frame_def intro!: undo_files_wp [where srv = srv] assms(3))
next
  case (2 a s1)
  then show ?case by (auto intro!: assms(4))
qed

text \<open>A request to the process: when it fails the machine is undone, otherwise nothing is held more.\<close>

lemma vm_step_wp:
  assumes "os_GOOS s = ''linux''" "quiet m"
    and "\<And>e s'. frame s s' \<Longrightarrow>
      held s' \<subseteq> (held s - {vm_mount srv sid, vm_cgroup sid, Running pid}) \<union> left_dirs srv sid \<Longrightarrow>
      Q (Inl e) s'"
    and "\<And>s'. frame s s' \<Longrightarrow> held s' = held s \<Longrightarrow> wp k Q s'"
  shows "wp (vm_step (overlay_cfg srv sid l) sid ctx pid what m k) Q s"
  unfolding vm_step_def wp_attempt
proof (rule quiet_wp [OF assms(2)], goal_cases)
  case (1 r s')
  with assms(1) show ?case
    by (cases r) (auto simp: frame_def intro!: undo_vm_wp [where srv = srv] assms(3,4))
qed

lemma place_configure_wp:
  assumes "os_GOOS s = ''linux''" and sid: "sid = hp_SandboxId req"
    and "\<And>e s'. frame s s' \<Longrightarrow>
      held s' \<subseteq> (held s - {vm_mount srv sid, vm_cgroup sid, Running pid}) \<union> left_dirs srv sid \<Longrightarrow>
      Q (Inl e) s'"
    and "\<And>fc s'. frame s s' \<Longrightarrow> held s' = held s \<Longrightarrow> Q (Inr fc) s'"
  shows "wp (place_configure srv req (overlay_cfg srv sid l) ctx pid) Q s"
  unfolding place_configure_def Let_def wp_attempt sid [symmetric]
proof (rule quiet_wp [OF quiet_waitForSocket], goal_cases)
  case (1 r s1)
  show ?case
  proof (cases r)
    case (Inl e)
    with 1 assms(1) show ?thesis
      by (auto simp: frame_def intro!: undo_vm_wp [where srv = srv] assms(3))
  next
    case (Inr u)
    with 1 assms(1) show ?thesis
      by (auto simp: frame_def wp_perform_raw quiet_fc_requests quiet_AddPID
          intro!: vm_step_wp assms(3,4) del: subsetI)
  qed
qed

lemma place_boot_wp:
  assumes "os_GOOS s = ''linux''" and sid: "sid = hp_SandboxId req"
    and "\<And>e s'. frame s s' \<Longrightarrow>
      held s' \<subseteq> (held s - {vm_mount srv sid, vm_cgroup sid, Running pid}) \<union> left_dirs srv sid \<Longrightarrow>
      Q (Inl e) s'"
    and "\<And>s'. frame s s' \<Longrightarrow> held s' = held s \<Longrightarrow> Q (Inr ()) s'"
  shows "wp (place_boot srv req (overlay_cfg srv sid l) ctx pid fc t) Q s"
  unfolding place_boot_def wp_bind sid [symmetric]
proof (rule quiet_wp [OF quiet_exists_if], goal_cases)
  case (1 warm s1)
  with assms(1) show ?case
    by (cases warm)
      (auto simp: frame_def wp_perform_raw now_def quiet_fc_requests quiet_snapshots
        intro!: vm_step_wp assms(3,4) del: subsetI)
qed

text \<open>The whole placement, up to the entry in the server's table.\<close>

lemma place_vm_wp:
  assumes "os_GOOS s = ''linux''" and sid: "sid = hp_SandboxId req"
    and "\<And>e s'. frame s s' \<Longrightarrow> held s' \<subseteq> held s \<union> leftover srv sid e \<Longrightarrow> Q (Inl e) s'"
    and "\<And>l ctx pid s'. frame s s' \<Longrightarrow>
      {vm_mount srv sid, vm_cgroup sid, Running pid, Unreaped pid} \<subseteq> held s' \<Longrightarrow>
      held s' \<subseteq> held s \<union> left_dirs srv sid \<union>
        {vm_mount srv sid, vm_cgroup sid, Running pid, Unreaped pid} \<Longrightarrow>
      Q (Inr (overlay_cfg srv sid l, cgroup_dir sid, ctx, pid)) s'"
  shows "wp (place_vm srv req) Q s"
  unfolding place_vm_def now_def wp_bind wp_get wp_ret wp_attempt
proof (rule place_resources_wp [OF assms(1) sid], goal_cases)
  case (1 e s1)
  then show ?case by (simp add: assms(3))
next
  case (2 l s1)
  have lin: "os_GOOS s' = ''linux''" if "frame s s'" for s'
    using that assms(1) by (simp add: frame_def)
  have fail: "Q (Inl e) s'"
    if "frame s s'" "held s' \<subseteq> held s \<union> left_dirs srv sid \<union> range Unreaped" for e s'
    using that by (intro assms(3)) (auto simp: leftover_def)
  show ?case
    unfolding sum.case prod.case wp_attempt
  proof (rule place_files_wp [OF lin sid], goal_cases)
    case 1
    then show ?case by (rule 2)
  next
    case (2 e s2)
    then show ?case
      using \<open>frame s s1\<close> \<open>held s1 \<subseteq> _\<close> by (simp, intro fail) (simp add: frame_def, blast)
  next
    case (3 s2)
    then have s2: "frame s s2" "{vm_mount srv sid, vm_cgroup sid} \<subseteq> held s2"
      "held s2 \<subseteq> held s \<union> left_dirs srv sid \<union> {vm_mount srv sid, vm_cgroup sid}"
      using 2 by (blast intro: frame_trans)+
    show ?case
      unfolding sum.case
    proof (rule place_start_wp [OF lin sid], goal_cases)
      case 1
      then show ?case by (rule s2)
    next
      case (2 e s3)
      then show ?case
        using s2 by (simp, intro fail) (simp add: frame_def, blast)
    next
      case (3 ctx pid s3)
      then have s3: "frame s s3" "{vm_mount srv sid, vm_cgroup sid, Running pid, Unreaped pid} \<subseteq> held s3"
        "held s3 \<subseteq> held s \<union> left_dirs srv sid \<union>
           {vm_mount srv sid, vm_cgroup sid, Running pid, Unreaped pid}"
        using s2 by (blast intro: frame_trans)+
      then have undone: "Q (Inl e) s'"
        if "frame s3 s'"
          "held s' \<subseteq> (held s3 - {vm_mount srv sid, vm_cgroup sid, Running pid}) \<union> left_dirs srv sid"
        for e s'
        using that by (intro fail) (simp add: frame_def, blast)
      show ?case
        unfolding sum.case prod.case wp_attempt
      proof (rule place_configure_wp [OF lin sid], goal_cases)
        case 1
        then show ?case by (rule s3)
      next
        case (2 e s4)
        then show ?case by (simp add: undone)
      next
        case (3 fc s4)
        then have f4: "frame s s4" "frame s3 s4" "held s4 = held s3"
          using s3(1) by (simp_all add: frame_def)
        show ?case
          unfolding sum.case
          by (rule place_boot_wp [OF lin sid])
            (use f4 s3 in \<open>simp_all add: frame_def undone assms(4)\<close>)
      qed
    qed
  qed
qed

lemma quiet_add_cidrs [quiet_rules]: "quiet (add_cidrs f cs)"
  by (induction cs) (auto intro!: quiet_rules)

lemma quiet_place_egress [quiet_rules]: "quiet (place_egress req)"
  unfolding place_egress_def by (intro quiet_rules)

text \<open>
  Beyond the short identifier, the egress filter cannot panic: a filter that was loaded has its
  table.
\<close>

lemma wp_True: "(\<And>r s'. Q r s') \<Longrightarrow> wp m Q s"
  by (simp add: wp_def)

lemma add_cidrs_no_panic: "ef_trie f = Some m \<Longrightarrow> wp (add_cidrs f cs) (\<lambda>r s'. r = Inr ()) s"
proof (induction cs arbitrary: s)
  case (Cons c cs)
  then show ?case
    by (auto simp: ef_AddCIDR_def split: sum.split intro!: perform_wp)
qed simp

lemma place_egress_panics:
  "wp (place_egress req) (\<lambda>r s'. r = (if length (hp_SandboxId req) < 8 then Inl SliceOutOfRange else Inr ())) s"
  by (auto simp: place_egress_def slice_to_def intro!: ef_Load_wp add_cidrs_no_panic)

lemma wp_conj: "wp m P s \<Longrightarrow> wp m Q s \<Longrightarrow> wp m (\<lambda>r s'. P r s' \<and> Q r s') s"
  by (simp add: wp_def)

lemma place_egress_wp:
  assumes "\<And>s'. frame s s' \<Longrightarrow> held s' = held s \<Longrightarrow> length (hp_SandboxId req) < 8 \<Longrightarrow> Q (Inl SliceOutOfRange) s'"
    and "\<And>s'. frame s s' \<Longrightarrow> held s' = held s \<Longrightarrow> length (hp_SandboxId req) \<ge> 8 \<Longrightarrow> Q (Inr ()) s'"
  shows "wp (place_egress req) Q s"
  by (rule wp_mono, rule wp_conj [OF place_egress_panics])
    (use quiet_place_egress [unfolded quiet_def] in blast, auto split: if_splits intro: assms)

lemma held_agent_updates [simp]:
  "held (ag_sandboxes_update f s) = held s" "held (ag_watching_update g s) = held s"
  by (simp_all add: held_def)

text \<open>The machine around the server's own state stays the same.\<close>

definition same_host :: "agent \<Rightarrow> agent \<Rightarrow> bool" where
  "same_host s s' \<longleftrightarrow> os_env s' = os_env s \<and> os_GOOS s' = os_GOOS s \<and> os_json_error s' = os_json_error s"

lemma frame_same_host: "frame s s' \<Longrightarrow> same_host s s'"
  by (simp add: frame_def same_host_def)

lemma active_metric_wp:
  assumes "\<And>s'. frame s s' \<Longrightarrow> held s' = held s \<Longrightarrow> Q () s'"
  shows "wp (active_metric srv) Q s"
  by (simp add: active_metric_def wp_perform_raw assms)

text \<open>The resources of a running sandbox.\<close>

definition vm_resources :: "hostAgentServer \<Rightarrow> string \<Rightarrow> nat \<Rightarrow> resource set" where
  "vm_resources srv sid pid = {vm_mount srv sid, vm_cgroup sid, Running pid, Unreaped pid}"

lemma PlaceSandbox_wp:
  assumes lin: "os_GOOS s = ''linux''" and sid: "sid = hp_SandboxId req"
    and fail: "\<And>e s'. frame s s' \<Longrightarrow> held s' \<subseteq> held s \<union> leftover srv sid e \<Longrightarrow> Q (Inr (Inl e)) s'"
    and panic: "\<And>ctx pid s'. same_host s s' \<Longrightarrow> length sid < 8 \<Longrightarrow>
      vm_resources srv sid pid \<subseteq> held s' \<Longrightarrow>
      held s' \<subseteq> held s \<union> left_dirs srv sid \<union> vm_resources srv sid pid \<Longrightarrow>
      ag_sandboxes s' = AList.update sid (new_entry srv req (cgroup_dir sid) ctx pid) (ag_sandboxes s) \<Longrightarrow>
      ag_watching s' = ag_watching s \<Longrightarrow> Q (Inl SliceOutOfRange) s'"
    and ok: "\<And>l ctx pid s'. same_host s s' \<Longrightarrow> length sid \<ge> 8 \<Longrightarrow>
      vm_resources srv sid pid \<subseteq> held s' \<Longrightarrow>
      held s' \<subseteq> held s \<union> left_dirs srv sid \<union> vm_resources srv sid pid \<Longrightarrow>
      ag_sandboxes s' = AList.update sid (new_entry srv req (cgroup_dir sid) ctx pid) (ag_sandboxes s) \<Longrightarrow>
      ag_watching s' = ag_watching s @ [\<lparr>wa_sandboxID = sid, wa_pid = pid, wa_overlay = overlay_cfg srv sid l,
                                         wa_tenantID = hp_TenantId req\<rparr>] \<Longrightarrow>
      Q (Inr (Inr \<lparr>hpr_SandboxId = sid, hpr_VsockCid = guestCID sid\<rparr>)) s'"
  shows "wp (PlaceSandbox srv req) Q s"
  unfolding PlaceSandbox_def wp_attempt sid [symmetric]
proof (rule place_vm_wp [OF lin sid], goal_cases)
  case (1 e s')
  then show ?case by (simp add: fail)
next
  case (2 l ctx pid s1)
  let ?upd = "ag_sandboxes_update (AList.update sid (new_entry srv req (cgroup_dir sid) ctx pid))"
  have s1: "ag_sandboxes s1 = ag_sandboxes s" "ag_watching s1 = ag_watching s" "same_host s s1"
    using frame_agent [OF 2(1)] 2(1) by (simp_all add: frame_same_host)
  have s2: "ag_sandboxes s2 = ag_sandboxes (?upd s)" "ag_watching s2 = ag_watching s" "same_host s s2"
    "held s2 = held s1"
    if "frame (?upd s1) s2" "held s2 = held (?upd s1)" for s2
    using frame_agent [OF that(1)] that s1 by (auto simp: same_host_def frame_def)
  have wp: "wp (place_egress req) R s2"
    if "\<And>s3. frame s2 s3 \<Longrightarrow> held s3 = held s2 \<Longrightarrow> length sid < 8 \<Longrightarrow> R (Inl SliceOutOfRange) s3"
       "\<And>s3. frame s2 s3 \<Longrightarrow> held s3 = held s2 \<Longrightarrow> length sid \<ge> 8 \<Longrightarrow> R (Inr ()) s3" for R and s2 :: agent
    using that sid by (intro place_egress_wp) auto
  have held: "vm_resources srv sid pid \<subseteq> held s1"
    "held s1 \<subseteq> held s \<union> left_dirs srv sid \<union> vm_resources srv sid pid"
    using 2(2,3) by (simp_all add: vm_resources_def)
  show ?case
    unfolding sum.case prod.case wp_bind wp_update
  proof (rule active_metric_wp, unfold wp_attempt, rule wp, goal_cases)
    case (1 s2 s3)
    have f: "frame (?upd s1) s3" "held s3 = held (?upd s1)"
      using 1 by (auto intro: frame_trans)
    show ?case
      using s2 [OF f] held 1(5) by (simp, intro panic) simp_all
  next
    case (2 s2 s3)
    have f: "frame (?upd s1) s3" "held s3 = held (?upd s1)"
      using 2 by (auto intro: frame_trans)
    show ?case
      using s2 [OF f] held 2(5) by (simp, intro ok) (simp_all add: same_host_def)
  qed
qed

text \<open>
  The goroutine of a sandbox: whatever fails on the way, the process is reaped, the control group
  and the mount are given up, and the entry of that name is gone.
\<close>

lemma quiet_record_oom [quiet_rules]: "quiet (record_oom w)"
  unfolding record_oom_def by (intro quiet_rules) simp_all

lemma watchVM_wp:
  assumes "os_GOOS s = ''linux''" and w: "wa_overlay w = overlay_cfg srv (wa_sandboxID w) l"
    and "\<And>s'. same_host s s' \<Longrightarrow>
      held s' \<subseteq> (held s - vm_resources srv (wa_sandboxID w) (wa_pid w)) \<union> left_dirs srv (wa_sandboxID w) \<Longrightarrow>
      ag_sandboxes s' = AList.delete (wa_sandboxID w) (ag_sandboxes s) \<Longrightarrow>
      ag_watching s' = ag_watching s \<Longrightarrow> Q () s'"
  shows "wp (watchVM srv w) Q s"
proof -
  let ?sid = "wa_sandboxID w" and ?gone = "{Running (wa_pid w), Unreaped (wa_pid w)}"
  have oom: "wp (record_oom w) R s'" if "\<And>r s''. frame s' s'' \<Longrightarrow> held s'' = held s' \<Longrightarrow> R r s''" for R s'
    using quiet_record_oom that by (rule quiet_wp)
  have tail: "wp (do { _ \<leftarrow> active_metric srv; _ \<leftarrow> cgroup_Teardown ?sid;
      _ \<leftarrow> overlay_Teardown (wa_overlay w); ret () }) Q (ag_sandboxes_update (AList.delete ?sid) s2)"
    if s2: "frame s1 s2" "held s2 = held s1" and s1: "frame s s1" "held s1 = held s - ?gone" for s1 s2
    unfolding wp_bind wp_ret w
  proof (rule active_metric_wp, rule cgroup_Teardown_wp, goal_cases)
    case (1 s3)
    then show ?case using s1 s2 assms(1) by (simp add: frame_def)
  next
    case (2 s3 r s4)
    let ?u = "ag_sandboxes_update (AList.delete ?sid) s2"
    show ?case
    proof (rule overlay_Teardown_wp, goal_cases)
      case (1 r' s5)
      have f: "frame ?u s5"
        using 2 1(1) by (blast intro: frame_trans)
      then have "ag_sandboxes s5 = AList.delete ?sid (ag_sandboxes s)" "ag_watching s5 = ag_watching s"
        using frame_agent [OF f] frame_agent [OF s2(1)] frame_agent [OF s1(1)] by simp_all
      moreover have "same_host s s5"
        using f s2(1) s1(1) by (simp add: same_host_def frame_def)
      moreover have "held s5 \<subseteq> (held s - vm_resources srv ?sid (wa_pid w)) \<union> left_dirs srv ?sid"
      proof -
        have "held s4 = held s - ?gone - {vm_cgroup ?sid}"
          using 2(2,4) s2(2) s1(2) by (simp add: vm_cgroup_def)
        moreover have "held s5 \<subseteq> (held s4 - {vm_mount srv ?sid}) \<union> left_dirs srv ?sid"
          using 1(2) overlay_cfg_held(2) [of srv ?sid l] unfolding overlay_cfg_held(1) by blast
        ultimately show ?thesis
          by (simp add: vm_resources_def) blast
      qed
      ultimately show ?case by (intro assms(3))
    qed
  qed
  show ?thesis
    unfolding watchVM_def wp_bind wp_perform_raw wp_update
    by (rule oom, rule tail [unfolded wp_bind, where ?s1.0 = "note_call (WaitProcess (wa_pid w)) s"])
      (simp_all add: held_note_call)
qed

section \<open>Bounds\<close>

lemma await_socket_calls:
  "\<exists>k. length (os_trace (snd (await_socket path d s))) = length (os_trace s) + k \<and>
       k \<le> 2 * nat ((d - os_clock s + 49999999) div 50000000)"
proof (induction path d s rule: await_socket.induct)
  case (1 path d s)
  show ?case
  proof (cases "os_clock s < d")
    case False
    then show ?thesis by (subst await_socket.simps) simp
  next
    case True
    have one: "1 \<le> (d - os_clock s + 49999999) div 50000000"
      using True by simp
    show ?thesis
    proof (cases "answer (os_env s (os_trace s) (Stat path))")
      case (Inr a)
      with True one show ?thesis
        by (subst await_socket.simps) (auto intro!: exI [of _ 1])
    next
      case (Inl e)
      let ?s2 = "note_call (Sleep 50000000) (note_call (Stat path) s)"
      obtain k where k: "length (os_trace (snd (await_socket path d ?s2))) = length (os_trace ?s2) + k"
        "k \<le> 2 * nat ((d - os_clock ?s2 + 49999999) div 50000000)"
        using 1 [OF True Inl] by blast
      have "(d - os_clock ?s2 + 49999999) div 50000000 \<le> (d - os_clock s + 49999999 - 50000000) div 50000000"
        by (intro zdiv_mono1) simp_all
      also have "\<dots> = (d - os_clock s + 49999999) div 50000000 - 1"
        by simp
      finally have "k + 2 \<le> 2 * nat ((d - os_clock s + 49999999) div 50000000)"
        using k(2) one by linarith
      with True Inl k(1) show ?thesis
        by (subst await_socket.simps) (auto intro!: exI [of _ "k + 2"])
    qed
  qed
qed

lemma waitForSocket_calls:
  "wp (waitForSocket path lp n)
     (\<lambda>r s'. length (os_trace s') \<le> length (os_trace s) + 40 * n + 1) s"
proof -
  obtain k where k: "length (os_trace (snd (await_socket path (os_clock s + int n * 1000000000) s))) = length (os_trace s) + k"
    "k \<le> 2 * nat ((os_clock s + int n * 1000000000 - os_clock s + 49999999) div 50000000)"
    using await_socket_calls by blast
  have "(int n * 1000000000 + 49999999) div 50000000 = 20 * int n"
    by simp
  with k(2) have "k \<le> 40 * n"
    by (simp add: nat_mult_distrib)
  with k(1) have le: "length (os_trace (snd (await_socket path (os_clock s + int n * 1000000000) s)))
      \<le> length (os_trace s) + 40 * n"
    by simp
  show ?thesis
    unfolding waitForSocket_def Let_def now_def wp_bind wp_get wp_ret
    using le by (simp add: wp_def perform_def attempt_def split_beta split: sum.split)
qed

lemma guestCID_range: "3 \<le> uint (guestCID sid) \<and> uint (guestCID sid) \<le> 65534"
proof -
  have "uint (fnv32a sid mod 65532) = uint (fnv32a sid) mod 65532"
    by (simp add: uint_mod)
  then have "uint (fnv32a sid mod 65532 + 3) = uint (fnv32a sid) mod 65532 + 3"
    by (simp add: uint_word_ariths)
  moreover have "uint (fnv32a sid) mod 65532 \<le> 65531" "0 \<le> uint (fnv32a sid) mod 65532"
    by simp_all
  ultimately show ?thesis
    by (auto simp: guestCID_def Let_def word_less_def)
qed

section \<open>The other operations hold nothing\<close>

lemma quiet_TerminateSandbox_held:
  "wp (TerminateSandbox req) (\<lambda>r s'. same_host s s' \<and> held s' = held s \<and> ag_watching s' = ag_watching s \<and>
     ag_sandboxes s' = AList.delete (ht_SandboxId req) (ag_sandboxes s) \<and>
     (is_ok r \<longleftrightarrow> map_of (ag_sandboxes s) (ht_SandboxId req) \<noteq> None)) s"
proof (cases "map_of (ag_sandboxes s) (ht_SandboxId req)")
  case None
  then have "AList.delete (ht_SandboxId req) (ag_sandboxes s) = ag_sandboxes s"
    by (simp add: map_of_eq_None_iff delete_id)
  with None show ?thesis
    by (simp add: TerminateSandbox_def same_host_def)
next
  case (Some e)
  have "frame (ag_sandboxes_update (AList.delete (ht_SandboxId req)) s)
          (note_call (CancelContext (se_cancel e)) (ag_sandboxes_update (AList.delete (ht_SandboxId req)) s))"
    by simp
  from frame_agent [OF this] Some show ?thesis
    by (simp add: TerminateSandbox_def same_host_def wp_perform_raw)
qed

lemma quiet_ExecInSandbox: "quiet (ExecInSandbox req)"
  unfolding ExecInSandbox_def by (intro quiet_rules) simp_all

lemma quiet_StreamLogs: "quiet (StreamLogs srv req)"
  unfolding StreamLogs_def Let_def by (intro quiet_rules) simp_all

lemma quiet_Heartbeat: "quiet (Heartbeat srv req)"
  unfolding Heartbeat_def by (intro quiet_rules)

lemma quiet_reconcilePool [quiet_rules]: "quiet (reconcilePool srv)"
  unfolding reconcilePool_def Let_def by (intro quiet_rules) simp_all

lemma quiet_runPoolReconciler: "quiet (runPoolReconciler srv n)"
  by (induction n) (auto intro!: quiet_rules)

section \<open>The server over time\<close>

text \<open>
  The operations the server runs and the ends of its goroutines, in any order; \<open>admits\<close> says which
  placements are asked for. Operations run one after the other: the server's own state changes only
  under its lock, and what other goroutines do to the machine is part of the environment.
\<close>

inductive agent_step ::
  "hostAgentServer \<Rightarrow> (LocalPlaceRequest \<Rightarrow> bool) \<Rightarrow> agent \<Rightarrow> agent \<Rightarrow> bool"
  for srv :: hostAgentServer and admits :: "LocalPlaceRequest \<Rightarrow> bool" where
  place: "admits req \<Longrightarrow> run_state (PlaceSandbox srv req) s = (pr, s') \<Longrightarrow> agent_step srv admits s s'"
| kill: "run_state (TerminateSandbox treq) s = (tr, s') \<Longrightarrow> agent_step srv admits s s'"
| exec: "run_state (ExecInSandbox xreq) s = (xr, s') \<Longrightarrow> agent_step srv admits s s'"
| logs: "run_state (StreamLogs srv lreq) s = (lr, s') \<Longrightarrow> agent_step srv admits s s'"
| beat: "run_state (Heartbeat srv breq) s = (br, s') \<Longrightarrow> agent_step srv admits s s'"
| tick: "run_state (reconcilePool srv) s = (u, s') \<Longrightarrow> agent_step srv admits s s'"
| exit: "ag_watching s = ws @ w # vs \<Longrightarrow>
    run_state (watchVM srv w) (s\<lparr>ag_watching := ws @ vs\<rparr>) = (u, s') \<Longrightarrow> agent_step srv admits s s'"

definition fresh_agent :: "agent \<Rightarrow> bool" where
  "fresh_agent s \<longleftrightarrow>
     os_GOOS s = ''linux'' \<and> os_trace s = [] \<and> ag_sandboxes s = [] \<and> ag_watching s = []"

definition agent_reachable :: "hostAgentServer \<Rightarrow> (LocalPlaceRequest \<Rightarrow> bool) \<Rightarrow> agent \<Rightarrow> bool" where
  "agent_reachable srv admits s \<longleftrightarrow> (\<exists>s0. fresh_agent s0 \<and> (agent_step srv admits)\<^sup>*\<^sup>* s0 s)"

text \<open>
  The invariant: the table is a map whose entries are those of their keys; every watcher undoes the
  overlay of its own sandbox; a sandbox in the table is watched; and whatever process runs and
  whatever overlay is mounted, a watcher waits that will give it up.
\<close>

definition entry_ok :: "hostAgentServer \<Rightarrow> string \<times> sandboxEntry \<Rightarrow> bool" where
  "entry_ok srv ke \<longleftrightarrow>
     se_sandboxID (snd ke) = fst ke \<and> se_vsockCID (snd ke) = guestCID (fst ke) \<and>
     se_cgroupDir (snd ke) = cgroup_dir (fst ke) \<and>
     se_vsockUDS (snd ke) = path_Join [sandbox_dir srv (fst ke), ''vsock.sock''] \<and>
     se_vmAgentSocket (snd ke) = ''''"

definition watcher_ok :: "hostAgentServer \<Rightarrow> watcher \<Rightarrow> bool" where
  "watcher_ok srv w \<longleftrightarrow> (\<exists>l. wa_overlay w = overlay_cfg srv (wa_sandboxID w) l)"

definition agent_inv :: "hostAgentServer \<Rightarrow> agent \<Rightarrow> bool" where
  "agent_inv srv s \<longleftrightarrow>
     os_GOOS s = ''linux'' \<and> distinct (map fst (ag_sandboxes s)) \<and>
     list_all (entry_ok srv) (ag_sandboxes s) \<and> list_all (watcher_ok srv) (ag_watching s) \<and>
     fst ` set (ag_sandboxes s) \<subseteq> wa_sandboxID ` set (ag_watching s) \<and>
     (\<forall>p. Running p \<in> held s \<longrightarrow> p \<in> wa_pid ` set (ag_watching s)) \<and>
     (\<forall>m. Mounted m \<in> held s \<longrightarrow> Mounted m \<in> (\<lambda>w. vm_mount srv (wa_sandboxID w)) ` set (ag_watching s))"

lemma set_AList_update:
  "set (AList.update k v al) \<subseteq> insert (k, v) (set al)"
  "fst ` set (AList.update k v al) = insert k (fst ` set al)"
  by (induction al) auto

lemma set_AList_delete: "set (AList.delete k al) \<subseteq> set al" "fst ` set (AList.delete k al) = fst ` set al - {k}"
  by (auto simp: AList.delete_eq)

lemma new_entry_ok: "sid = hp_SandboxId req \<Longrightarrow> entry_ok srv (sid, new_entry srv req (cgroup_dir sid) ctx pid)"
  by (simp add: entry_ok_def new_entry_def Let_def)

lemma agent_inv_quiet:
  "quiet m \<Longrightarrow> agent_inv srv s \<Longrightarrow> run_state m s = (r, s') \<Longrightarrow> agent_inv srv s'"
proof -
  assume a: "quiet m" "agent_inv srv s" "run_state m s = (r, s')"
  from a(1) have "wp m (\<lambda>r s'. frame s s' \<and> held s' = held s) s"
    by (simp add: quiet_def)
  from wp_run [OF this a(3)] have "frame s s'" "held s' = held s" by simp_all
  with frame_agent [OF this(1)] a(2) show ?thesis
    by (simp add: agent_inv_def frame_def)
qed

lemma vm_resources_cases:
  "Running p \<in> vm_resources srv sid pid \<longleftrightarrow> p = pid"
  "Mounted m \<in> vm_resources srv sid pid \<longleftrightarrow> Mounted m = vm_mount srv sid"
  by (auto simp: vm_resources_def vm_mount_def vm_cgroup_def)

lemma leftover_cases: "Running p \<notin> leftover srv sid e" "Mounted m \<notin> leftover srv sid e"
  by (auto simp: leftover_def vm_cgroup_def)

lemma agent_inv_place:
  assumes inv: "agent_inv srv s" and long: "length (hp_SandboxId req) \<ge> 8"
  shows "wp (PlaceSandbox srv req) (\<lambda>_ s'. agent_inv srv s') s"
proof (rule PlaceSandbox_wp [OF _ refl], goal_cases)
  case 1
  then show ?case using inv by (simp add: agent_inv_def)
next
  case (2 e s')
  with frame_agent [OF 2(1)] inv show ?case
    using leftover_cases by (auto simp: agent_inv_def frame_def)
next
  case (3 ctx pid s')
  with long show ?case by simp
next
  case (4 l ctx pid s')
  let ?sid = "hp_SandboxId req"
  have "list_all (entry_ok srv) (ag_sandboxes s')"
    using inv 4(5) set_AList_update(1) new_entry_ok [of ?sid req srv ctx pid]
    by (fastforce simp: agent_inv_def list_all_iff)
  moreover have "fst ` set (ag_sandboxes s') \<subseteq> wa_sandboxID ` set (ag_watching s')"
    unfolding 4(5,6) set_AList_update(2) using inv by (auto simp: agent_inv_def)
  moreover have "p \<in> wa_pid ` set (ag_watching s')" if "Running p \<in> held s'" for p
    using that 4(4,6) inv vm_resources_cases(1) by (fastforce simp: agent_inv_def)
  moreover have "Mounted m \<in> (\<lambda>w. vm_mount srv (wa_sandboxID w)) ` set (ag_watching s')"
    if "Mounted m \<in> held s'" for m
    using that 4(4,6) inv vm_resources_cases(2) by (fastforce simp: agent_inv_def)
  ultimately show ?case
    using inv 4(1,5,6)
    by (simp add: agent_inv_def same_host_def distinct_update watcher_ok_def) blast
qed

lemma agent_inv_exit:
  assumes inv: "agent_inv srv s" and ws: "ag_watching s = ws @ w # vs"
  shows "wp (watchVM srv w) (\<lambda>_ s'. agent_inv srv s') (s\<lparr>ag_watching := ws @ vs\<rparr>)"
proof -
  let ?s = "s\<lparr>ag_watching := ws @ vs\<rparr>"
  obtain l where l: "wa_overlay w = overlay_cfg srv (wa_sandboxID w) l"
    using inv ws by (auto simp: agent_inv_def watcher_ok_def)
  show ?thesis
  proof (rule watchVM_wp [OF _ l], goal_cases)
    case 1
    then show ?case using inv by (simp add: agent_inv_def)
  next
    case (2 s')
    have h: "held s' \<subseteq> (held s - vm_resources srv (wa_sandboxID w) (wa_pid w)) \<union> left_dirs srv (wa_sandboxID w)"
      using 2(2) by simp
    have sb: "ag_sandboxes s' = AList.delete (wa_sandboxID w) (ag_sandboxes s)" "ag_watching s' = ws @ vs"
      using 2(3,4) by simp_all
    have "list_all (entry_ok srv) (ag_sandboxes s')"
      using inv sb(1) set_AList_delete(1) by (fastforce simp: agent_inv_def list_all_iff)
    moreover have "fst ` set (ag_sandboxes s') \<subseteq> wa_sandboxID ` set (ag_watching s')"
      unfolding sb set_AList_delete(2) using inv ws by (auto simp: agent_inv_def)
    moreover have "p \<in> wa_pid ` set (ag_watching s')" if "Running p \<in> held s'" for p
    proof -
      have "Running p \<in> held s" "p \<noteq> wa_pid w"
        using that h by (auto simp: vm_resources_def)
      with inv ws sb(2) show ?thesis by (auto simp: agent_inv_def)
    qed
    moreover have "Mounted m \<in> (\<lambda>w. vm_mount srv (wa_sandboxID w)) ` set (ag_watching s')"
      if "Mounted m \<in> held s'" for m
    proof -
      have "Mounted m \<in> held s" "Mounted m \<noteq> vm_mount srv (wa_sandboxID w)"
        using that h by (auto simp: vm_resources_def vm_mount_def)
      with inv ws sb(2) show ?thesis by (auto simp: agent_inv_def)
    qed
    ultimately show ?case
      using inv sb ws 2(1) by (simp add: agent_inv_def same_host_def distinct_delete)
  qed
qed

lemma agent_inv_step:
  assumes "agent_step srv admits s s'" "agent_inv srv s"
    "\<And>req. admits req \<Longrightarrow> length (hp_SandboxId req) \<ge> 8"
  shows "agent_inv srv s'"
  using assms(1)
proof cases
  case (place req pr)
  then show ?thesis
    using wp_run [OF agent_inv_place [OF assms(2)]] assms(3) by blast
next
  case (kill treq tr)
  from wp_run [OF quiet_TerminateSandbox_held kill] assms(2) show ?thesis
    using set_AList_delete [of "ht_SandboxId treq" "ag_sandboxes s"]
    by (auto simp: agent_inv_def same_host_def distinct_delete list_all_iff)
next
  case (exit ws w vs u)
  then show ?thesis
    using wp_run [OF agent_inv_exit [OF assms(2)]] by blast
qed (auto intro: agent_inv_quiet [OF _ assms(2)] quiet_ExecInSandbox quiet_StreamLogs quiet_Heartbeat
    quiet_reconcilePool)

lemma agent_inv_reachable:
  assumes "agent_reachable srv admits s" "\<And>req. admits req \<Longrightarrow> length (hp_SandboxId req) \<ge> 8"
  shows "agent_inv srv s"
proof -
  obtain s0 where s0: "fresh_agent s0" and steps: "(agent_step srv admits)\<^sup>*\<^sup>* s0 s"
    using assms(1) by (auto simp: agent_reachable_def)
  have "agent_inv srv s0"
    using s0 by (simp add: fresh_agent_def agent_inv_def held_def)
  with steps show ?thesis
    by (induction rule: rtranclp_induct) (auto intro: agent_inv_step assms(2))
qed

section \<open>Samples\<close>

text \<open>A machine on which every call succeeds, and a server on it.\<close>

definition calm_reply :: reply where
  "calm_reply = plain_reply\<lparr>rp_num := 1\<rparr>"

definition calm_agent :: agent where
  "calm_agent = \<lparr>os_env = (\<lambda>_ _. calm_reply), os_trace = [], os_clock = 0, os_GOOS = ''linux'',
     os_json_error = (\<lambda>_. ''''), ag_sandboxes = [], ag_watching = []\<rparr>"

definition sample_config :: HostAgentConfig where
  "sample_config = \<lparr>hc_GRPCAddr = ''0.0.0.0:9091'', hc_GRPCStubAddr = '''', hc_AgentSecret = '''',
     hc_FirecrackerBin = ''/usr/local/bin/firecracker'', hc_JailerBin = '''',
     hc_KernelImage = ''/var/sandock/vmlinux'', hc_BaseRootfs = ''/var/sandock/rootfs'',
     hc_SandboxDir = ''/var/lib/sandock/sandboxes'', hc_SnapshotDir = ''/var/lib/sandock/snapshots'',
     hc_MetricsAddr = '''', hc_WarmPoolSize = 0\<rparr>"

definition sample_server :: hostAgentServer where
  "sample_server = newHostAgentServer sample_config ''host-1''"

definition sample_place :: LocalPlaceRequest where
  "sample_place = \<lparr>hp_SandboxId = ''sb-0123456789ab'', hp_TenantId = ''ten-1'', hp_ImageRef = ''base'',
     hp_CpuMillis = 500, hp_MemMib = 256, hp_TimeoutMs = 30000, hp_EgressAllowlist = [],
     hp_SnapshotKey = ''''\<rparr>"

lemma calm_simps [simp]: "rp_err calm_reply = None" "rp_num calm_reply = 1" "rp_text calm_reply = ''''"
  "answer calm_reply = Inr calm_reply" "rp_time calm_reply = 0" "rp_names calm_reply = []"
  by (simp_all add: calm_reply_def plain_reply_def answer_def)

definition calm :: "'s host_scheme \<Rightarrow> bool" where
  "calm s \<longleftrightarrow> os_env s = (\<lambda>_ _. calm_reply) \<and> os_GOOS s = ''linux''"

lemma calm_perform [simp]: "calm s \<Longrightarrow> wp (perform c) Q s = Q (Inr calm_reply) (note_call c s)"
  by (simp add: wp_perform calm_def)

lemma calm_perform_raw [simp]: "calm s \<Longrightarrow> wp (perform_raw c) Q s = Q calm_reply (note_call c s)"
  by (simp add: wp_perform_raw calm_def)

lemma calm_note_call [simp]: "calm (note_call c s) = calm s"
  by (simp add: calm_def)

lemma calm_GOOS: "calm s \<Longrightarrow> os_GOOS s = ''linux''"
  by (simp add: calm_def)

text \<open>On a calm machine a stage succeeds and leaves the machine calm.\<close>

lemma calm_fc_put: "calm s \<Longrightarrow> (\<And>s'. calm s' \<Longrightarrow> Q (Inr ()) s') \<Longrightarrow> wp (fc_put c path body) Q s"
  by (simp add: fc_put_def)

lemma calm_wait: "calm s \<Longrightarrow> (\<And>s'. calm s' \<Longrightarrow> Q (Inr ()) s') \<Longrightarrow> wp (waitForSocket p lp 15) Q s"
  by (simp add: waitForSocket_def Let_def now_def wp_def await_socket.simps [of _ _ s] calm_def)

lemma calm_overlay:
  "calm s \<Longrightarrow> (\<And>s'. calm s' \<Longrightarrow> Q (Inr (overlay_paths cfg)) s') \<Longrightarrow> wp (overlay_Setup cfg) Q s"
  by (simp add: overlay_Setup_def mountOverlay_def Let_def)

lemma calm_writeFile: "calm s \<Longrightarrow> (\<And>s'. calm s' \<Longrightarrow> Q (Inr ()) s') \<Longrightarrow> wp (cgroup_writeFile d n v) Q s"
  by (simp add: cgroup_writeFile_def Let_def)

lemma calm_cgroup:
  "calm s \<Longrightarrow> (\<And>s'. calm s' \<Longrightarrow> Q (Inr (cgroup_dir sid)) s') \<Longrightarrow> wp (cgroup_Setup sid l) Q s"
  unfolding cgroup_Setup_def Let_def wp_bind wp_get wp_attempt
  by (simp add: calm_GOOS calm_writeFile)

lemma calm_AddPID: "calm s \<Longrightarrow> (\<And>s'. calm s' \<Longrightarrow> Q (Inr ()) s') \<Longrightarrow> wp (cgroup_AddPID sid pid) Q s"
  by (simp add: cgroup_AddPID_def calm_GOOS calm_writeFile)

lemma calm_copyFile: "calm s \<Longrightarrow> (\<And>s'. calm s' \<Longrightarrow> Q (Inr ()) s') \<Longrightarrow> wp (copyFile src dst) Q s"
  by (simp add: copyFile_def)

lemma calm_place_resources:
  "calm s \<Longrightarrow> (\<And>l s'. calm s' \<Longrightarrow> Q (Inr (overlay_cfg srv (hp_SandboxId req) l, cgroup_dir (hp_SandboxId req))) s') \<Longrightarrow>
   wp (place_resources srv req) Q s"
  unfolding place_resources_def overlayLowerDir_def Let_def wp_attempt
  by (simp add: calm_overlay calm_cgroup)

lemma calm_place_files: "calm s \<Longrightarrow> (\<And>s'. calm s' \<Longrightarrow> Q (Inr ()) s') \<Longrightarrow> wp (place_files srv req oc) Q s"
  unfolding place_files_def Let_def wp_attempt by (simp add: calm_copyFile)

lemma calm_place_start:
  "calm s \<Longrightarrow> (\<And>ctx s'. calm s' \<Longrightarrow> Q (Inr (ctx, 1)) s') \<Longrightarrow> wp (place_start srv req oc) Q s"
  unfolding place_start_def new_context_def Let_def wp_attempt wp_bind by simp

lemma calm_vm_step:
  assumes "calm s" "\<And>R s1. calm s1 \<Longrightarrow> (\<And>s'. calm s' \<Longrightarrow> R (Inr ()) s') \<Longrightarrow> wp m R s1"
    "\<And>s'. calm s' \<Longrightarrow> wp k Q s'"
  shows "wp (vm_step oc sid ctx pid what m k) Q s"
  unfolding vm_step_def wp_attempt by (rule assms(2) [OF assms(1)]) (simp add: assms(3))

lemma calm_place_configure:
  assumes "calm s" "\<And>fc s'. calm s' \<Longrightarrow> Q (Inr fc) s'"
  shows "wp (place_configure srv req oc ctx pid) Q s"
  unfolding place_configure_def Let_def fc_requests wp_attempt
  by (rule calm_wait [OF assms(1)]) (simp add: calm_vm_step calm_fc_put calm_AddPID assms(2))

lemma calm_place_boot:
  assumes "calm s" "hp_SnapshotKey req = ''''" "\<And>s'. calm s' \<Longrightarrow> Q (Inr ()) s'"
  shows "wp (place_boot srv req oc ctx pid fc t) Q s"
  using assms(1,3) unfolding place_boot_def fc_requests
  by (simp add: assms(2) now_def calm_vm_step calm_fc_put)

lemma calm_place_vm:
  assumes "calm s" "hp_SnapshotKey req = ''''"
    "\<And>oc dir ctx pid s'. calm s' \<Longrightarrow> Q (Inr (oc, dir, ctx, pid)) s'"
  shows "wp (place_vm srv req) Q s"
  unfolding place_vm_def now_def wp_bind wp_get wp_ret wp_attempt
  by (rule calm_place_resources [OF assms(1)])
    (simp add: calm_place_files calm_place_start calm_place_configure calm_place_boot assms)

text \<open>So the sample is placed.\<close>

lemma calm_agent_calm: "calm calm_agent"
  by (simp add: calm_def calm_agent_def)

lemma sample_placed:
  "\<exists>s'. run_state (PlaceSandbox sample_server sample_place) calm_agent =
     (Inr (Inr \<lparr>hpr_SandboxId = ''sb-0123456789ab'', hpr_VsockCid = guestCID ''sb-0123456789ab''\<rparr>), s')"
proof -
  have "wp (PlaceSandbox sample_server sample_place) (\<lambda>r s'. \<forall>e. r \<noteq> Inr (Inl e)) calm_agent"
    unfolding PlaceSandbox_def wp_attempt
    by (rule calm_place_vm [OF calm_agent_calm])
      (simp_all add: active_metric_def calm_def wp_perform_raw, simp add: sample_place_def,
        rule wp_True, simp split: sum.split)
  moreover have "wp (PlaceSandbox sample_server sample_place)
     (\<lambda>r s'. (\<forall>e. r \<noteq> Inr (Inl e)) \<longrightarrow> r = Inr (Inr \<lparr>hpr_SandboxId = ''sb-0123456789ab'',
        hpr_VsockCid = guestCID ''sb-0123456789ab''\<rparr>)) calm_agent"
    by (rule PlaceSandbox_wp [OF _ refl])
      (simp_all add: calm_agent_def sample_place_def)
  ultimately show ?thesis
    by (cases "run_state (PlaceSandbox sample_server sample_place) calm_agent") (simp add: wp_def)
qed

text \<open>A machine on which every call fails.\<close>

definition broken_agent :: agent where
  "broken_agent = calm_agent\<lparr>os_env := (\<lambda>_ _. plain_reply\<lparr>rp_err := Some ''no such file or directory''\<rparr>)\<rparr>"

lemma broken_fails:
  "\<exists>e s'. run_state (PlaceSandbox sample_server sample_place) broken_agent = (Inr (Inl e), s')"
proof -
  have "wp (PlaceSandbox sample_server sample_place) (\<lambda>r s'. \<exists>e. r = Inr (Inl e)) broken_agent"
    by (simp add: PlaceSandbox_def place_vm_def place_resources_def overlayLowerDir_def now_def Let_def
        wp_perform answer_def broken_agent_def plain_reply_def)
  then show ?thesis
    by (cases "run_state (PlaceSandbox sample_server sample_place) broken_agent") (simp add: wp_def)
qed

section \<open>The theorems\<close>







text \<open>
  The context identifier given to a guest is never one of the three reserved ones and always fits
  into 16 bits, and it depends on the sandbox's identifier alone.
\<close>

theorem guestCID_bounds: "3 \<le> uint (guestCID sid) \<and> uint (guestCID sid) \<le> 65534"
  by (rule guestCID_range)

text \<open>
  C30: Waiting for the control socket ends: the socket is looked for at most twenty times a second of
  the timeout, with a pause after each, and the log is read at most once.
\<close>

theorem waitForSocket_bounded:
  "length (os_trace (snd (run_state (waitForSocket path lp n) s))) \<le> length (os_trace s) + 40 * n + 1"
  using waitForSocket_calls [of path lp n s] by (simp add: wp_def)

end
