(* ===== verification/AgentServer.thy ===== *)
theory AgentServer
  imports HostAgent AgentApi
begin

text \<open>
  \<^verbatim>\<open>cmd/host-agent/internal_api.go\<close>: the HTTP interface of a host agent, over the operations of
  \<^verbatim>\<open>HostAgentServer\<close> (\<^verbatim>\<open>proto_types.go\<close>), which are the arguments of the handlers and the interface
  \<open>host_agent_service\<close>. A transport built from the routes connects the client of
  \<^verbatim>\<open>internal/agentapi\<close> to it, so that a call can be followed from one process into the other.
\<close>

section \<open>Requests and responses\<close>

text \<open>A request as the server sees it; its body may fail to be read.\<close>

record server_request =
  sq_Path :: string
  sq_Headers :: "(string \<times> string) list"
  sq_Body :: "string + body"

text \<open>\<^verbatim>\<open>Header.Get\<close>: the first value under that name, whose case does not count; empty if there is none.\<close>

definition header_get :: "string \<Rightarrow> (string \<times> string) list \<Rightarrow> string" where
  "header_get k hs =
     (case dropWhile (\<lambda>h. \<not> fold_eq (fst h) k) hs of [] \<Rightarrow> '''' | h # _ \<Rightarrow> snd h)"

definition json_ok :: "json \<Rightarrow> http_response" where
  "json_ok v = \<lparr>rs_Status = 200, rs_Body = Json v\<rparr>"

definition json_fail :: "int \<Rightarrow> string \<Rightarrow> http_response" where
  "json_fail code msg = \<lparr>rs_Status = code, rs_Body = Json (JObj [(''error'', j_str msg)])\<rparr>"

definition unauthorized :: http_response where
  "unauthorized = \<lparr>rs_Status = 401, rs_Body = Json (JObj [(''error'', JStr ''unauthorized'')])\<rparr>"

type_synonym 'w handler = "server_request \<Rightarrow> ('w, go_panic + http_response) state"

text \<open>An empty secret switches the check off.\<close>

definition agent_authenticate :: "string \<Rightarrow> server_request \<Rightarrow> bool" where
  "agent_authenticate secret r \<longleftrightarrow>
     secret = '''' \<or> header_get ''X-Agent-Secret'' (sq_Headers r) = secret"

definition decode_body ::
  "(json_error \<Rightarrow> string) \<Rightarrow> 'r field list \<Rightarrow> 'r \<Rightarrow> server_request \<Rightarrow> string + 'r" where
  "decode_body jerr flds zero r =
     (case sq_Body r of
        Inl e \<Rightarrow> Inl (''read body: '' @ e)
      | Inr b \<Rightarrow> (case json_decode flds zero b of
                   Inl e \<Rightarrow> Inl (''decode JSON: '' @ jerr e)
                 | Inr x \<Rightarrow> Inr x))"

section \<open>The handlers\<close>

text \<open>
  What a handler takes of the server: the operation, and for a placement the lookup of the entry.
\<close>

type_synonym 'w place_op = "LocalPlaceRequest \<Rightarrow> ('w, go_panic + (status_error + LocalPlaceResponse)) state"
type_synonym 'w kill_op = "LocalTerminateRequest \<Rightarrow> ('w, status_error + LocalTerminateResponse) state"
type_synonym 'w exec_op = "LocalExecRequest \<Rightarrow> ('w, status_error + LocalExecResponse) state"
type_synonym 'w beat_op = "LocalHeartbeatRequest \<Rightarrow> ('w, status_error + LocalHeartbeatResponse) state"
type_synonym 'w lookup_op = "'w \<Rightarrow> string \<Rightarrow> sandboxEntry option"

definition local_place :: "PlaceRequest \<Rightarrow> LocalPlaceRequest" where
  "local_place req =
     \<lparr>hp_SandboxId = pl_SandboxID req, hp_TenantId = pl_TenantID req, hp_ImageRef = pl_ImageRef req,
      hp_CpuMillis = pl_CPUMillis req, hp_MemMib = pl_MemMiB req, hp_TimeoutMs = pl_TimeoutMs req,
      hp_EgressAllowlist = pl_EgressAllowlist req, hp_SnapshotKey = pl_SnapshotKey req\<rparr>"

definition local_exec :: "ExecRequest \<Rightarrow> LocalExecRequest" where
  "local_exec req =
     \<lparr>hx_SandboxId = ex_SandboxID req, hx_Command = ex_Command req, hx_Stdin = ex_Stdin req,
      hx_TimeoutMs = ex_TimeoutMs req\<rparr>"

definition api_place_response :: "LocalPlaceResponse \<Rightarrow> sandboxEntry option \<Rightarrow> PlaceResponse" where
  "api_place_response resp entry =
     \<lparr>plr_SandboxID = hpr_SandboxId resp, plr_VsockCID = hpr_VsockCid resp,
      plr_UnixSocket = (case entry of None \<Rightarrow> '''' | Some e \<Rightarrow> se_vmAgentSocket e)\<rparr>"

definition api_exec_response :: "LocalExecResponse \<Rightarrow> ExecResponse" where
  "api_exec_response resp =
     \<lparr>exr_Stdout = hxr_Stdout resp, exr_Stderr = hxr_Stderr resp, exr_ExitCode = hxr_ExitCode resp,
      exr_DurationMs = hxr_DurationMs resp\<rparr>"

definition agent_handlePlace ::
  "(json_error \<Rightarrow> string) \<Rightarrow> string \<Rightarrow> 'w place_op \<Rightarrow> 'w lookup_op \<Rightarrow> 'w handler" where
  "agent_handlePlace jerr secret place lookup r =
     (if \<not> agent_authenticate secret r then ret (Inr unauthorized)
      else case decode_body jerr PlaceRequest_fields zero_PlaceRequest r of
          Inl e \<Rightarrow> ret (Inr (json_fail 400 e))
        | Inr req \<Rightarrow>
            attempt (place (local_place req))
              (\<lambda>p. ret (Inl p))
              (\<lambda>res. case res of
                 Inl e \<Rightarrow> ret (Inr (json_fail 500 (status_text e)))
               | Inr resp \<Rightarrow> do {
                   w \<leftarrow> the_state;
                   ret (Inr (json_ok (enc_PlaceResponse
                     (api_place_response resp (lookup w (hpr_SandboxId resp)))))) }))"

definition agent_handleTerminate :: "(json_error \<Rightarrow> string) \<Rightarrow> string \<Rightarrow> 'w kill_op \<Rightarrow> 'w handler" where
  "agent_handleTerminate jerr secret kill r =
     (if \<not> agent_authenticate secret r then ret (Inr unauthorized)
      else case decode_body jerr TerminateRequest_fields zero_TerminateRequest r of
          Inl e \<Rightarrow> ret (Inr (json_fail 400 e))
        | Inr req \<Rightarrow>
            attempt (kill \<lparr>ht_SandboxId = tm_SandboxID req, ht_Reason = tm_Reason req\<rparr>)
              (\<lambda>e. ret (Inr (json_fail 500 (status_text e))))
              (\<lambda>resp. ret (Inr (json_ok (enc_TerminateResponse \<lparr>tmr_SandboxID = htr_SandboxId resp\<rparr>)))))"

definition agent_handleExec :: "(json_error \<Rightarrow> string) \<Rightarrow> string \<Rightarrow> 'w exec_op \<Rightarrow> 'w handler" where
  "agent_handleExec jerr secret exec r =
     (if \<not> agent_authenticate secret r then ret (Inr unauthorized)
      else case decode_body jerr ExecRequest_fields zero_ExecRequest r of
          Inl e \<Rightarrow> ret (Inr (json_fail 400 e))
        | Inr req \<Rightarrow>
            attempt (exec (local_exec req))
              (\<lambda>e. ret (Inr (json_fail 500 (status_text e))))
              (\<lambda>resp. ret (Inr (json_ok (enc_ExecResponse (api_exec_response resp))))))"

text \<open>The encoder's error is ignored: a response without a JSON form has an empty body.\<close>

definition agent_handleHeartbeat :: "(json_error \<Rightarrow> string) \<Rightarrow> string \<Rightarrow> 'w beat_op \<Rightarrow> 'w handler" where
  "agent_handleHeartbeat jerr secret beat r =
     (if \<not> agent_authenticate secret r then ret (Inr unauthorized)
      else case decode_body jerr HeartbeatRequest_fields zero_HeartbeatRequest r of
          Inl e \<Rightarrow> ret (Inr (json_fail 400 e))
        | Inr req \<Rightarrow>
            attempt (beat \<lparr>hh_HostId = hb_HostID req\<rparr>)
              (\<lambda>e. ret (Inr (json_fail 500 (status_text e))))
              (\<lambda>resp. ret (Inr \<lparr>rs_Status = 200, rs_Body =
                 (case enc_HeartbeatResponse
                    \<lparr>hbr_HostID = hhr_HostId resp, hbr_ActiveVMs = hhr_ActiveVms resp,
                     hbr_IdlePoolSize = hhr_IdlePoolSize resp, hbr_CPUUsagePct = hhr_CpuUsagePct resp,
                     hbr_MemUsedMiB = hhr_MemUsedMib resp, hbr_MemTotalMiB = hhr_MemTotalMib resp,
                     hbr_Healthy = True\<rparr> of
                    None \<Rightarrow> Malformed
                  | Some j \<Rightarrow> Json j)\<rparr>)))"

definition agent_handleHealthz :: "'w handler" where
  "agent_handleHealthz r = ret (Inr (json_ok (JObj [(''status'', JStr ''ok'')])))"

definition agent_routes ::
  "(json_error \<Rightarrow> string) \<Rightarrow> string \<Rightarrow> 'w place_op \<Rightarrow> 'w lookup_op \<Rightarrow> 'w kill_op \<Rightarrow> 'w exec_op \<Rightarrow>
   'w beat_op \<Rightarrow> 'w handler" where
  "agent_routes jerr secret place lookup kill exec beat r =
     (if sq_Path r = ''/internal/v1/place'' then agent_handlePlace jerr secret place lookup r
      else if sq_Path r = ''/internal/v1/terminate'' then agent_handleTerminate jerr secret kill r
      else if sq_Path r = ''/internal/v1/exec'' then agent_handleExec jerr secret exec r
      else if sq_Path r = ''/internal/v1/heartbeat'' then agent_handleHeartbeat jerr secret beat r
      else if sq_Path r = ''/internal/healthz'' then agent_handleHealthz r
      else ret (Inr \<lparr>rs_Status = 404, rs_Body = Malformed\<rparr>))"

section \<open>From the client to the server\<close>

text \<open>
  The connection: the path is what follows the client's base URL, header values arrive without the
  white space around them, and a handler that panics closes the connection without an answer.
\<close>

definition agent_transport :: "string \<Rightarrow> 'w handler \<Rightarrow> 'w transport" where
  "agent_transport base serve rq w =
     (if \<not> has_prefix (rq_URL rq) base then (Inl (NoAnswer ''no such host''), w)
      else case run_state (serve \<lparr>sq_Path = trim_prefix (rq_URL rq) base,
                                  sq_Headers = map (\<lambda>(k, v). (k, trim_space v)) (rq_Headers rq),
                                  sq_Body = Inr (rq_Body rq)\<rparr>) w of
          (Inl _, w') \<Rightarrow> (Inl (NoAnswer ''EOF''), w')
        | (Inr resp, w') \<Rightarrow> (Inr resp, w'))"

definition agent_headers :: "string \<Rightarrow> (string \<times> string) list" where
  "agent_headers secret = [(''Content-Type'', ''application/json''), (''X-Agent-Secret'', secret)]"

lemma header_get_agent [simp]: "header_get ''X-Agent-Secret'' (agent_headers secret) = secret"
  by (simp add: header_get_def agent_headers_def fold_eq_def ascii_lower_def)

lemma trim_content_type: "trim_space ''application/json'' = ''application/json''"
  by (simp add: trim_space_def is_space_def)

text \<open>A request of the client, as the server's routes get it, and the ways it ends.\<close>

lemma rpc_request:
  assumes "trim_space secret = secret"
  shows "client_post jerr (agent_transport base serve) (NewClient base secret) path req flds out w =
    (case run_state (serve \<lparr>sq_Path = path, sq_Headers = agent_headers secret, sq_Body = Inr (Json req)\<rparr>) w of
       (Inl p, w') \<Rightarrow> (Inl ''do: EOF'', w')
     | (Inr resp, w') \<Rightarrow>
         if rs_Status resp \<ge> 300
         then (let ae = api_error_text (rs_Body resp)
               in if ae \<noteq> '''' then (Inl (''status '' @ show_int (rs_Status resp) @ '': '' @ ae), w')
                  else (Inl (''status '' @ show_int (rs_Status resp)), w'))
         else (case json_decode flds out (rs_Body resp) of
                 Inl e \<Rightarrow> (Inl (''unmarshal response: '' @ jerr e), w')
               | Inr r \<Rightarrow> (Inr r, w')))"
  using assms
  by (simp add: client_post_def agent_transport_def NewClient_def agent_headers_def trim_content_type Let_def
      split: prod.split sum.split)

lemma status_text_nonempty: "utf8_text (status_text e) \<noteq> ''''"
proof -
  have "status_text e = CHR ''r'' # drop 1 (status_text e)"
    by (simp add: status_text_def)
  moreover have "utf8_text (CHR ''r'' # t) = CHR ''r'' # utf8_text t" for t
    by (simp add: utf8_len_def utf8_tail_def in_bytes_def Let_def)
  ultimately show ?thesis by (metis list.distinct(1))
qed

lemma show_int_500: "show_int 500 = ''500''"
  by (simp add: show_int_def show_nat.simps digit_char_def char_of_eq_iff)

lemma json_fail_simps:
  "rs_Status (json_fail c m) = c" "api_error_text (rs_Body (json_fail c m)) = utf8_text m"
  by (simp_all add: json_fail_def j_str_def)

lemma json_ok_simps: "rs_Status (json_ok v) = 200" "rs_Body (json_ok v) = Json v"
  by (simp_all add: json_ok_def)

lemmas rpc_simps = json_fail_simps json_ok_simps show_int_500 status_text_nonempty Let_def

lemma decode_ExecResponse_bounds:
  "- (2 ^ 31) \<le> exr_ExitCode r \<Longrightarrow> exr_ExitCode r < 2 ^ 31 \<Longrightarrow>
   - (2 ^ 63) \<le> exr_DurationMs r \<Longrightarrow> exr_DurationMs r < 2 ^ 63 \<Longrightarrow>
   json_decode ExecResponse_fields zero_ExecResponse (Json (enc_ExecResponse r)) =
   Inr \<lparr>exr_Stdout = utf8_text (exr_Stdout r), exr_Stderr = utf8_text (exr_Stderr r),
        exr_ExitCode = exr_ExitCode r, exr_DurationMs = exr_DurationMs r\<rparr>"
  by (cases r) (simp add: enc_ExecResponse_def ExecResponse_fields_def
      zero_ExecResponse_def json_simps fold_eq_def ascii_lower_def)

text \<open>
  The interface \<^verbatim>\<open>HostAgentServer\<close> and what its users rely on: a placement answers with the
  sandbox it was asked for and enters it, a failed one enters nothing; exec and terminate refuse a
  sandbox that is not there; a sandbox terminated is not there any more.
\<close>

locale host_agent_service =
  fixes place :: "'w place_op" and lookup :: "'w lookup_op" and kill :: "'w kill_op"
    and exec :: "'w exec_op"
  assumes place_ok: "run_state (place req) w = (Inr (Inr resp), w') \<Longrightarrow>
      hpr_SandboxId resp = hp_SandboxId req \<and>
      (\<exists>e. lookup w' (hp_SandboxId req) = Some e \<and> se_vmAgentSocket e = '''')"
    and place_failed: "run_state (place req) w = (Inr (Inl e), w') \<Longrightarrow> lookup w' = lookup w"
    and kill_known: "run_state (kill treq) w = (r, w') \<Longrightarrow>
      is_ok r = (lookup w (ht_SandboxId treq) \<noteq> None) \<and>
      lookup w' = (lookup w)(ht_SandboxId treq := None)"
    and exec_unknown: "lookup w (hx_SandboxId xreq) = None \<Longrightarrow>
      \<exists>e. run_state (exec xreq) w = (Inl e, w) \<and> st_code e = NotFound"
    and exec_keeps: "run_state (exec xreq) w = (xr, w') \<Longrightarrow> lookup w' = lookup w"
    and exec_bounds: "run_state (exec xreq) w = (Inr xresp, w') \<Longrightarrow>
      - (2 ^ 31) \<le> hxr_ExitCode xresp \<and> hxr_ExitCode xresp < 2 ^ 31 \<and>
      - (2 ^ 63) \<le> hxr_DurationMs xresp \<and> hxr_DurationMs xresp < 2 ^ 63"
begin

text \<open>The client's calls, over the connection, are the operations.\<close>

lemma rpc_place:
  assumes "utf8_PlaceRequest req" "trim_space secret = secret"
  shows "client_PlaceSandbox jerr
      (agent_transport base (agent_routes jerr' secret place lookup kill exec beat))
      (NewClient base secret) req w =
    (case run_state (place (local_place req)) w of
       (Inl p, w') \<Rightarrow> (Inl ''agentapi: PlaceSandbox: do: EOF'', w')
     | (Inr (Inl e), w') \<Rightarrow>
         (Inl (''agentapi: PlaceSandbox: status 500: '' @ utf8_text (status_text e)), w')
     | (Inr (Inr resp), w') \<Rightarrow>
         (Inr \<lparr>plr_SandboxID = pl_SandboxID req, plr_VsockCID = hpr_VsockCid resp, plr_UnixSocket = ''''\<rparr>, w'))"
proof -
  let ?r = "\<lparr>sq_Path = ''/internal/v1/place'', sq_Headers = agent_headers secret,
             sq_Body = Inr (Json (enc_PlaceRequest req))\<rparr>"
  have h: "run_state (agent_handlePlace jerr' secret place lookup ?r) w =
    (case run_state (place (local_place req)) w of
       (Inl p, w') \<Rightarrow> (Inl p, w')
     | (Inr (Inl e), w') \<Rightarrow> (Inr (json_fail 500 (status_text e)), w')
     | (Inr (Inr resp), w') \<Rightarrow> (Inr (json_ok (enc_PlaceResponse
           \<lparr>plr_SandboxID = pl_SandboxID req, plr_VsockCID = hpr_VsockCid resp, plr_UnixSocket = ''''\<rparr>)), w'))"
    using assms place_ok [of "local_place req" w]
    by (auto simp: agent_handlePlace_def agent_authenticate_def decode_body_def decode_PlaceRequest attempt_def
        api_place_response_def local_place_def split: prod.split sum.split)
  have utf: "utf8_PlaceResponse \<lparr>plr_SandboxID = pl_SandboxID req, plr_VsockCID = c, plr_UnixSocket = ''''\<rparr>" for c
    using assms(1) by (simp add: utf8_PlaceResponse_def utf8_PlaceRequest_def)
  show ?thesis
    using assms(2)
    by (simp add: client_PlaceSandbox_def rpc_request agent_routes_def h decode_PlaceResponse [OF utf] rpc_simps
        split: prod.split sum.split)
qed

lemma rpc_exec:
  assumes "utf8_ExecRequest req" "trim_space secret = secret"
  shows "client_ExecInSandbox jerr
      (agent_transport base (agent_routes jerr' secret place lookup kill exec beat))
      (NewClient base secret) req w =
    (case run_state (exec (local_exec req)) w of
       (Inl e, w') \<Rightarrow>
         (Inl (''agentapi: ExecInSandbox: status 500: '' @ utf8_text (status_text e)), w')
     | (Inr resp, w') \<Rightarrow>
         (Inr \<lparr>exr_Stdout = utf8_text (hxr_Stdout resp), exr_Stderr = utf8_text (hxr_Stderr resp),
               exr_ExitCode = hxr_ExitCode resp, exr_DurationMs = hxr_DurationMs resp\<rparr>, w'))"
proof -
  let ?r = "\<lparr>sq_Path = ''/internal/v1/exec'', sq_Headers = agent_headers secret,
             sq_Body = Inr (Json (enc_ExecRequest req))\<rparr>"
  have h: "run_state (agent_handleExec jerr' secret exec ?r) w =
    (case run_state (exec (local_exec req)) w of
       (Inl e, w') \<Rightarrow> (Inr (json_fail 500 (status_text e)), w')
     | (Inr resp, w') \<Rightarrow> (Inr (json_ok (enc_ExecResponse (api_exec_response resp))), w'))"
    using assms
    by (auto simp: agent_handleExec_def agent_authenticate_def decode_body_def decode_ExecRequest attempt_def
        split: prod.split sum.split)
  show ?thesis
    using assms(2) exec_bounds [of "local_exec req" w]
    by (auto simp: client_ExecInSandbox_def rpc_request agent_routes_def h rpc_simps
        decode_ExecResponse_bounds api_exec_response_def split: prod.split sum.split)
qed

text \<open>A sandbox that was placed can be executed in; one that was terminated cannot.\<close>

lemma exec_after_kill:
  assumes "run_state (kill treq) w = (r, w')" "hx_SandboxId xreq = ht_SandboxId treq"
  shows "\<exists>e. run_state (exec xreq) w' = (Inl e, w') \<and> st_code e = NotFound"
  using kill_known [OF assms(1)] assms(2) by (intro exec_unknown) simp

end

section \<open>The model's server provides the interface\<close>

text \<open>Every stage of a placement leaves the server's own state alone, on every platform.\<close>

definition framed :: "('s, 'a) io \<Rightarrow> bool" where
  "framed m \<longleftrightarrow> (\<forall>s. wp m (\<lambda>r s'. frame s s') s)"

named_theorems framed_rules

lemma framedD: "framed m \<Longrightarrow> wp m (\<lambda>r s'. frame s s') s"
  by (simp add: framed_def)

lemma framed_quiet: "quiet m \<Longrightarrow> framed m"
  by (simp add: quiet_def framed_def wp_def)

lemma framed_perform [framed_rules]: "framed (perform c)" "framed (perform_raw c)"
  by (simp_all add: framed_def wp_perform wp_perform_raw)

lemma framed_basic [framed_rules]: "framed (ret x)" "framed the_state" "framed now" "framed new_context"
  by (simp_all add: framed_def now_def new_context_def)

lemma framed_bind [framed_rules]:
  assumes "framed m" "\<And>x. framed (f x)"
  shows "framed (State_Monad.bind m f)"
  unfolding framed_def
proof
  fix s
  show "wp (State_Monad.bind m f) (\<lambda>r s'. frame s s') s"
    using assms unfolding framed_def wp_def by (auto split: prod.splits intro: frame_trans)
qed

lemma framed_attempt [framed_rules]:
  "framed m \<Longrightarrow> (\<And>e. framed (h e)) \<Longrightarrow> (\<And>x. framed (k x)) \<Longrightarrow> framed (attempt m h k)"
  unfolding attempt_def by (intro framed_bind) (auto split: sum.split)

lemma framed_cases [framed_rules]:
  "framed m \<Longrightarrow> framed n \<Longrightarrow> framed (if b then m else n)"
  "framed m \<Longrightarrow> (\<And>x. framed (f x)) \<Longrightarrow> framed (case y of None \<Rightarrow> m | Some x \<Rightarrow> f x)"
  "(\<And>a b. framed (g a b)) \<Longrightarrow> framed (case p of (a, b) \<Rightarrow> g a b)"
  by (simp_all split: option.split prod.split)

lemma framed_mkdir_all [framed_rules]: "framed (mkdir_all ds)"
  by (induction ds) (auto intro!: framed_rules)

lemma framed_await [framed_rules]: "framed (waitForSocket p lp n)" "framed (cgroup_writeFile d nm v)"
  "framed (fc_put c path body)" "framed (cgroup_AddPID sid pid)" "framed (snapshot_Exists m k)"
  "framed (snapshot_Load m k fc)" "framed (mount_lower b mp)" "framed (verifyEmptyUpper u)"
  "framed (place_egress req)"
  by (intro framed_quiet quiet_rules)+

lemma framed_resources [framed_rules]:
  "framed (overlay_Setup cfg)" "framed (overlay_Teardown cfg)" "framed (overlayLowerDir b)"
  "framed (cgroup_Setup sid l)" "framed (cgroup_Teardown sid)" "framed (copyFile src dst)"
  unfolding overlay_Setup_def overlay_Teardown_def mountOverlay_def unmountOverlay_def overlayLowerDir_def
    cgroup_Setup_def cgroup_Teardown_def copyFile_def Let_def
  by (intro framed_rules)+

lemma framed_undo [framed_rules]:
  "framed (undo_overlay oc err)" "framed (undo_files oc sid err)" "framed (undo_start oc sid ctx err)"
  "framed (undo_vm oc sid ctx pid err)"
  unfolding undo_overlay_def undo_files_def undo_start_def undo_vm_def
  by (intro framed_rules)+

lemma framed_vm_step [framed_rules]: "framed m \<Longrightarrow> framed k \<Longrightarrow> framed (vm_step oc sid ctx pid what m k)"
  unfolding vm_step_def by (intro framed_rules)

lemma framed_place_vm: "framed (place_vm srv req)"
  unfolding place_vm_def place_resources_def place_files_def place_start_def place_configure_def
    place_boot_def fc_requests Let_def
  by (intro framed_rules)

definition agent_lookup :: "agent lookup_op" where
  "agent_lookup s = map_of (ag_sandboxes s)"

lemma place_vm_table:
  "wp (place_vm srv req) (\<lambda>r s'. ag_sandboxes s' = ag_sandboxes s) (s :: agent)"
  by (rule wp_mono [OF framedD [OF framed_place_vm]]) (simp add: frame_agent)

lemma PlaceSandbox_table:
  "wp (PlaceSandbox srv req) (\<lambda>r s'.
     case r of
       Inr (Inl e) \<Rightarrow> agent_lookup s' = agent_lookup s
     | Inr (Inr resp) \<Rightarrow> resp = \<lparr>hpr_SandboxId = hp_SandboxId req, hpr_VsockCid = guestCID (hp_SandboxId req)\<rparr> \<and>
         (\<exists>dir ctx pid. agent_lookup s' =
            (agent_lookup s)(hp_SandboxId req \<mapsto> new_entry srv req dir ctx pid))
     | Inl p \<Rightarrow> True) s"
proof -
  have keep: "ag_sandboxes s' = ag_sandboxes s1" if "frame s1 s'" for s1 s' :: agent
    using frame_agent [OF that] by simp
  have met: "wp (active_metric srv) Q s1" if "\<And>s'. ag_sandboxes s' = ag_sandboxes s1 \<Longrightarrow> Q () s'" for Q s1
    by (rule active_metric_wp) (simp add: that keep)
  have egr: "wp (place_egress req) Q s1" if "\<And>r s'. ag_sandboxes s' = ag_sandboxes s1 \<Longrightarrow> Q r s'" for Q and s1 :: agent
    by (rule quiet_wp [OF quiet_place_egress]) (simp add: that keep)
  show ?thesis
    unfolding PlaceSandbox_def wp_attempt wp_bind wp_update
    by (rule wp_mono [OF place_vm_table])
      (auto simp: agent_lookup_def update_conv' intro!: met egr split: sum.split,
        rule exI, rule exI, rule exI, rule refl)
qed

lemma vsock_response_range:
  assumes "json_decode VsockExecResponse_fields zero_VsockExecResponse b = Inr r"
  shows "- 9223372036854775808 \<le> vxr_DurationMs r" "vxr_DurationMs r < 9223372036854775808"
  by (rule json_decode_inv [OF _ _ assms],
      auto simp: VsockExecResponse_fields_def zero_VsockExecResponse_def f_str_def f_i64_def dest: un_int_range)+

lemma vsock_Exec_bounds:
  "wp (vsock_Exec u req) (\<lambda>r s'. \<forall>resp. r = Inr resp \<longrightarrow>
     - (2 ^ 63) \<le> vxr_DurationMs resp \<and> vxr_DurationMs resp < 2 ^ 63) s"
  unfolding vsock_Exec_def wp_attempt wp_bind wp_get
  by (rule wp_True)
    (auto intro!: wp_True simp: wp_perform_raw split: sum.split, (erule vsock_response_range)+)

lemma exit_code_range: "- 2147483648 \<le> signed_take_bit 31 (x :: int)" "signed_take_bit 31 (x :: int) < 2147483648"
  using signed_take_bit_int_greater_eq_minus_exp [of 31 x] signed_take_bit_int_less_exp [of 31 x]
  by simp_all

lemma ExecInSandbox_outcome:
  "wp (ExecInSandbox req) (\<lambda>r s'.
     case map_of (ag_sandboxes s) (hx_SandboxId req) of
       None \<Rightarrow> s' = s \<and> (\<exists>e. r = Inl e \<and> st_code e = NotFound)
     | Some entry \<Rightarrow> agent_lookup s' = agent_lookup s \<and>
         (\<forall>resp. r = Inr resp \<longrightarrow> - (2 ^ 31) \<le> hxr_ExitCode resp \<and> hxr_ExitCode resp < 2 ^ 31 \<and>
            - (2 ^ 63) \<le> hxr_DurationMs resp \<and> hxr_DurationMs resp < 2 ^ 63)) s"
proof (cases "map_of (ag_sandboxes s) (hx_SandboxId req)")
  case None
  then show ?thesis by (simp add: ExecInSandbox_def)
next
  case (Some entry)
  have "wp (ExecInSandbox req) (\<lambda>r s'. \<forall>resp. r = Inr resp \<longrightarrow>
      - (2 ^ 31) \<le> hxr_ExitCode resp \<and> hxr_ExitCode resp < 2 ^ 31 \<and>
      - (2 ^ 63) \<le> hxr_DurationMs resp \<and> hxr_DurationMs resp < 2 ^ 63) s"
    unfolding ExecInSandbox_def wp_bind wp_get Some option.case now_def wp_ret wp_attempt
    by (rule wp_mono [OF vsock_Exec_bounds])
      (auto simp: wp_perform_raw exit_code_range split: sum.split)
  moreover have "wp (ExecInSandbox req) (\<lambda>r s'. agent_lookup s' = agent_lookup s) s"
    by (rule quiet_wp [OF quiet_ExecInSandbox]) (simp add: agent_lookup_def frame_agent)
  ultimately show ?thesis
    by (simp add: Some wp_def)
qed

interpretation agent: host_agent_service "PlaceSandbox srv" agent_lookup TerminateSandbox ExecInSandbox
proof (unfold_locales, goal_cases)
  case (1 req w resp w')
  from wp_run [OF PlaceSandbox_table 1] show ?case
    by (auto simp: new_entry_def Let_def)
next
  case (2 req w e w')
  from wp_run [OF PlaceSandbox_table 2] show ?case by simp
next
  case (3 treq w r w')
  from wp_run [OF quiet_TerminateSandbox_held 3] show ?case
    by (auto simp: agent_lookup_def delete_conv')
next
  case (4 w xreq)
  with ExecInSandbox_outcome [of xreq w] show ?case
    by (cases "run_state (ExecInSandbox xreq) w") (auto simp: wp_def agent_lookup_def)
next
  case (5 xreq w xr w')
  from wp_run [OF ExecInSandbox_outcome 5] show ?case
    by (auto split: option.splits)
next
  case (6 xreq w xresp w')
  from wp_run [OF ExecInSandbox_outcome 6] show ?case
    by (auto split: option.splits)
qed

section \<open>The theorems\<close>

text \<open>The routes of a host agent's server.\<close>

definition agent_serve :: "(json_error \<Rightarrow> string) \<Rightarrow> hostAgentServer \<Rightarrow> string \<Rightarrow> agent handler" where
  "agent_serve jerr srv secret =
     agent_routes jerr secret (PlaceSandbox srv) agent_lookup TerminateSandbox ExecInSandbox (Heartbeat srv)"

definition sample_request :: PlaceRequest where
  "sample_request = \<lparr>pl_SandboxID = ''sb-0123456789ab'', pl_TenantID = ''ten-1'', pl_ImageRef = ''base'',
     pl_CPUMillis = 500, pl_MemMiB = 256, pl_TimeoutMs = 30000, pl_EgressAllowlist = [],
     pl_SnapshotKey = ''''\<rparr>"

text \<open>
  C7: Asking a host agent for a sandbox through the client, the JSON encoding, the connection, the
  shared secret, the routes and the JSON decoding is the server's own operation: it runs once, on the
  same request, changes the agent's state as it does there, and its outcome comes back as the
  sandbox and its context identifier, as an error carrying its text, or as a broken connection when it
  panics.
\<close>

theorem rpc_PlaceSandbox:
  assumes "utf8_PlaceRequest req" "trim_space secret = secret"
  shows "client_PlaceSandbox jerr (agent_transport base (agent_serve jerr' srv secret))
      (NewClient base secret) req s =
    (case run_state (PlaceSandbox srv (local_place req)) s of
       (Inl p, s') \<Rightarrow> (Inl ''agentapi: PlaceSandbox: do: EOF'', s')
     | (Inr (Inl e), s') \<Rightarrow>
         (Inl (''agentapi: PlaceSandbox: status 500: '' @ utf8_text (status_text e)), s')
     | (Inr (Inr resp), s') \<Rightarrow>
         (Inr \<lparr>plr_SandboxID = pl_SandboxID req, plr_VsockCID = hpr_VsockCid resp, plr_UnixSocket = ''''\<rparr>, s'))"
  unfolding agent_serve_def using assms by (rule agent.rpc_place)

theorem rpc_PlaceSandbox_witness:
  "fst (client_PlaceSandbox (\<lambda>_. '''') (agent_transport ''http://h:9091'' (agent_serve (\<lambda>_. '''') sample_server ''key''))
      (NewClient ''http://h:9091'' ''key'') sample_request calm_agent) =
   Inr \<lparr>plr_SandboxID = ''sb-0123456789ab'', plr_VsockCID = guestCID ''sb-0123456789ab'', plr_UnixSocket = ''''\<rparr>"
proof -
  have "utf8_PlaceRequest sample_request"
    by (auto simp: utf8_PlaceRequest_def sample_request_def in_bytes_def intro!: is_utf8_ascii)
  moreover have "trim_space ''key'' = ''key''"
    by (simp add: trim_space_def is_space_def)
  moreover have "local_place sample_request = sample_place"
    by (simp add: local_place_def sample_request_def sample_place_def)
  ultimately show ?thesis
    using sample_placed by (auto simp: rpc_PlaceSandbox sample_request_def)
qed



text \<open>
  C32: With a secret configured, a request that does not carry it changes nothing on the host, whatever
  its path and body: it is refused, unless it only asks for the health of the process.
\<close>

theorem agent_requires_secret:
  assumes "secret \<noteq> ''''" "header_get ''X-Agent-Secret'' (sq_Headers r) \<noteq> secret"
  shows "\<exists>resp. run_state (agent_serve jerr srv secret r) s = (Inr resp, s) \<and>
    (rs_Status resp \<in> {401, 404} \<or> sq_Path r = ''/internal/healthz'')"
  using assms
  by (auto simp: agent_serve_def agent_routes_def agent_handlePlace_def agent_handleTerminate_def agent_handleExec_def
      agent_handleHeartbeat_def agent_handleHealthz_def agent_authenticate_def unauthorized_def)

theorem agent_requires_secret_witness:
  "\<exists>resp. run_state (agent_serve (\<lambda>_. '''') sample_server ''key''
      \<lparr>sq_Path = ''/internal/v1/terminate'', sq_Headers = [(''X-Agent-Secret'', ''guess'')],
       sq_Body = Inr Malformed\<rparr>) calm_agent = (Inr resp, calm_agent)"
proof -
  have "header_get ''X-Agent-Secret'' [(''X-Agent-Secret'', ''guess'')] \<noteq> ''key''"
    by (simp add: header_get_def)
  then show ?thesis
    using agent_requires_secret [of "''key''" "\<lparr>sq_Path = ''/internal/v1/terminate'',
      sq_Headers = [(''X-Agent-Secret'', ''guess'')], sq_Body = Inr Malformed\<rparr>" "\<lambda>_. ''''" sample_server calm_agent]
    by auto
qed

end
