(* ===== verification/Network.thy ===== *)
theory Network
  imports HostWorld GoNet
begin

text \<open>
  \<^verbatim>\<open>internal/network/network_linux.go\<close>: the network namespace and the pair of virtual interfaces of a
  sandbox, made with the \<^verbatim>\<open>ip\<close> command, and the addresses its two ends get from the sandbox's
  identifier.
\<close>

section \<open>Addresses\<close>

text \<open>
  The slot is read off the last eight bytes of an identifier of more than twelve, off all of it
  otherwise: its hexadecimal digits as a number at 32 bits, other bytes passed over.
\<close>

definition slot_step :: "u32 \<Rightarrow> char \<Rightarrow> u32" where
  "slot_step slot c = (case hex_val c of Some d \<Rightarrow> slot * 16 + of_nat d | None \<Rightarrow> slot)"

definition address_slot :: "string \<Rightarrow> u32" where
  "address_slot sandboxID =
     (let ident = (if length sandboxID > 12 then drop (length sandboxID - 8) sandboxID else sandboxID)
      in foldl slot_step 0 ident mod 65000)"

definition show_word :: "u32 \<Rightarrow> string" where
  "show_word w = show_nat (unat w)"

text \<open>The guest's address and the gateway's.\<close>

definition allocateIPs :: "string \<Rightarrow> string \<times> string" where
  "allocateIPs sandboxID =
     (let slot = address_slot sandboxID;
          base = slot * 4 + 4;
          third = and (drop_bit 8 base) 0xFF;
          fourth = and base 0xFF;
          gateway = ''10.100.'' @ show_word third @ ''.'' @ show_word (fourth + 1);
          guest = ''10.100.'' @ show_word third @ ''.'' @ show_word (fourth + 2)
      in (guest, gateway))"

section \<open>Setting a network up and removing it\<close>

record SandboxNetwork =
  nw_SandboxID :: string
  nw_HostVeth :: string
  nw_PeerVeth :: string
  nw_NetnsPath :: string
  nw_GuestIP :: string
  nw_GatewayIP :: string

definition net_run :: "string list \<Rightarrow> ('s, string + unit) io" where
  "net_run args =
     attempt (perform (RunCommand args))
       (\<lambda>e. ret (Inl (''['' @ join_with '' '' args @ '']: '' @ e)))
       (\<lambda>_. ret (Inr ()))"

definition net_cleanup :: "string \<Rightarrow> string \<Rightarrow> ('s, string + unit) io" where
  "net_cleanup sandboxID hostVeth = do {
     a \<leftarrow> net_run [''ip'', ''link'', ''del'', hostVeth];
     b \<leftarrow> net_run [''ip'', ''netns'', ''del'', sandboxID];
     ret (case b of Inl e \<Rightarrow> Inl e | Inr _ \<Rightarrow> a) }"

text \<open>The error of listing the interfaces is ignored: the list is then empty.\<close>

definition ensureBridge :: "('s, string + unit) io" where
  "ensureBridge = do {
     a \<leftarrow> perform_raw (Net InterfaceNames);
     if rp_err a = None \<and> ''sandock0'' \<in> set (rp_names a) then ret (Inr ())
     else attempt (net_run [''ip'', ''link'', ''add'', ''sandock0'', ''type'', ''bridge''])
       (\<lambda>e. ret (Inl e))
       (\<lambda>_. attempt (net_run [''ip'', ''addr'', ''add'', ''10.100.0.1/16'', ''dev'', ''sandock0''])
         (\<lambda>e. ret (Inl e))
         (\<lambda>_. net_run [''ip'', ''link'', ''set'', ''sandock0'', ''up''])) }"

text \<open>A step after the pair exists: when it fails, both ends are removed again.\<close>

definition net_step ::
  "string \<Rightarrow> string \<Rightarrow> string \<Rightarrow> string list \<Rightarrow> ('s, string + 'a) io \<Rightarrow> ('s, string + 'a) io" where
  "net_step sid veth what args k =
     attempt (net_run args)
       (\<lambda>e. do { _ \<leftarrow> net_cleanup sid veth; ret (Inl (what @ '': '' @ e)) })
       (\<lambda>_. k)"

definition net_links :: "string \<Rightarrow> string \<Rightarrow> ('s, string + SandboxNetwork) io" where
  "net_links sid veth =
     (let (guestIP, gatewayIP) = allocateIPs sid
      in attempt (net_run [''ip'', ''netns'', ''add'', sid])
           (\<lambda>e. ret (Inl (''ip netns add: '' @ e)))
           (\<lambda>_. attempt (net_run [''ip'', ''link'', ''add'', veth, ''type'', ''veth'', ''peer'', ''name'',
                             ''eth0'', ''netns'', sid])
             (\<lambda>e. do { _ \<leftarrow> net_run [''ip'', ''netns'', ''del'', sid];
                       ret (Inl (''ip link add veth: '' @ e)) })
             (\<lambda>_.
           net_step sid veth ''attach to bridge'' [''ip'', ''link'', ''set'', veth, ''master'', ''sandock0''] (
           net_step sid veth ''bring up host veth'' [''ip'', ''link'', ''set'', veth, ''up''] (
           net_step sid veth ''assign guest IP''
             [''ip'', ''netns'', ''exec'', sid, ''ip'', ''addr'', ''add'', guestIP @ ''/30'', ''dev'', ''eth0''] (
           net_step sid veth ''bring up guest eth0''
             [''ip'', ''netns'', ''exec'', sid, ''ip'', ''link'', ''set'', ''eth0'', ''up''] (
           net_step sid veth ''set guest default route''
             [''ip'', ''netns'', ''exec'', sid, ''ip'', ''route'', ''add'', ''default'', ''via'', gatewayIP] (
           ret (Inr \<lparr>nw_SandboxID = sid, nw_HostVeth = veth, nw_PeerVeth = ''eth0'',
                     nw_NetnsPath = path_Join [''/var/run/netns'', sid], nw_GuestIP = guestIP,
                     nw_GatewayIP = gatewayIP\<rparr>))))))))) "

definition network_Setup :: "string \<Rightarrow> ('s, go_panic + (string + SandboxNetwork)) io" where
  "network_Setup sandboxID =
     attempt ensureBridge
       (\<lambda>e. ret (Inr (Inl (''network setup: ensure bridge: '' @ e))))
       (\<lambda>_. case slice_to sandboxID 8 of
              Inl p \<Rightarrow> ret (Inl p)
            | Inr pre \<Rightarrow> do { r \<leftarrow> net_links sandboxID (''veth-'' @ pre); ret (Inr r) })"

definition network_Destroy :: "string \<Rightarrow> ('s, go_panic + (string + unit)) io" where
  "network_Destroy sandboxID =
     (case slice_to sandboxID 8 of
        Inl p \<Rightarrow> ret (Inl p)
      | Inr pre \<Rightarrow> do { r \<leftarrow> net_cleanup sandboxID (''veth-'' @ pre); ret (Inr r) })"

section \<open>The namespaces and interfaces that exist\<close>

datatype net_object = Netns string | Veth string

text \<open>What a command creates when it succeeds, and what it asks to be deleted.\<close>

definition net_created :: "string list \<Rightarrow> net_object set" where
  "net_created args =
     (case args of
        [a, b, c, x] \<Rightarrow> if a = ''ip'' \<and> b = ''netns'' \<and> c = ''add'' then {Netns x} else {}
      | a # b # c # x # d # e # rest \<Rightarrow>
          if a = ''ip'' \<and> b = ''link'' \<and> c = ''add'' \<and> d = ''type'' \<and> e = ''veth'' then {Veth x} else {}
      | _ \<Rightarrow> {})"

definition net_deleted :: "string list \<Rightarrow> net_object set" where
  "net_deleted args =
     (case args of
        [a, b, c, x] \<Rightarrow>
          if a = ''ip'' \<and> c = ''del'' \<and> b = ''netns'' then {Netns x}
          else if a = ''ip'' \<and> c = ''del'' \<and> b = ''link'' then {Veth x}
          else {}
      | _ \<Rightarrow> {})"

definition after_command :: "event \<Rightarrow> net_object set \<Rightarrow> net_object set" where
  "after_command ev H =
     (case fst ev of
        RunCommand args \<Rightarrow>
          (if rp_err (snd ev) = None then net_created args else {}) \<union> (H - net_deleted args)
      | _ \<Rightarrow> H)"

definition net_objects :: "'s host_scheme \<Rightarrow> net_object set" where
  "net_objects s = foldr after_command (os_trace s) {}"

lemma net_objects_note_call:
  "net_objects (note_call c s) = after_command (c, os_env s (os_trace s) c) (net_objects s)"
  by (simp add: net_objects_def)

lemma net_run_wp:
  assumes "\<And>e s'. net_objects s' = net_objects s - net_deleted args \<Longrightarrow> Q (Inl e) s'"
    and "\<And>s'. net_objects s' = net_created args \<union> (net_objects s - net_deleted args) \<Longrightarrow> Q (Inr ()) s'"
  shows "wp (net_run args) Q s"
  using assms
  by (auto simp: net_run_def wp_perform answer_def net_objects_note_call after_command_def
      split: option.split)

lemma net_cleanup_wp:
  assumes "\<And>r s'. net_objects s' = net_objects s - {Netns sid, Veth veth} \<Longrightarrow> Q r s'"
  shows "wp (net_cleanup sid veth) Q s"
  unfolding net_cleanup_def wp_bind wp_ret
  by (intro net_run_wp) (auto simp: net_created_def net_deleted_def intro!: assms)

lemma net_step_wp:
  assumes "net_created args = {}" "net_deleted args = {}"
    and "\<And>e s'. net_objects s' = net_objects s - {Netns sid, Veth veth} \<Longrightarrow> Q (Inl e) s'"
    and "\<And>s'. net_objects s' = net_objects s \<Longrightarrow> wp k Q s'"
  shows "wp (net_step sid veth what args k) Q s"
  unfolding net_step_def wp_attempt
  by (rule net_run_wp) (auto simp: assms(1,2) intro!: net_cleanup_wp assms(3,4))

lemma net_links_wp:
  assumes "\<And>e s'. net_objects s' \<subseteq> net_objects s \<Longrightarrow> Q (Inl e) s'"
    and "\<And>n s'. net_objects s' = net_objects s \<union> {Netns sid, Veth veth} \<Longrightarrow> nw_SandboxID n = sid \<Longrightarrow>
      nw_HostVeth n = veth \<Longrightarrow> (nw_GuestIP n, nw_GatewayIP n) = allocateIPs sid \<Longrightarrow> Q (Inr n) s'"
  shows "wp (net_links sid veth) Q s"
  unfolding net_links_def wp_attempt Let_def split_beta
  by (intro net_run_wp net_step_wp)
    (auto simp: net_created_def net_deleted_def intro!: net_run_wp net_step_wp assms)

lemma ensureBridge_wp:
  assumes "\<And>e s'. net_objects s' = net_objects s \<Longrightarrow> Q (Inl e) s'"
    and "\<And>s'. net_objects s' = net_objects s \<Longrightarrow> Q (Inr ()) s'"
  shows "wp ensureBridge Q s"
proof -
  have "net_objects (note_call (Net InterfaceNames) s) = net_objects s"
    by (simp add: net_objects_note_call after_command_def)
  then show ?thesis
    unfolding ensureBridge_def
    by (auto simp: wp_perform_raw net_created_def net_deleted_def intro!: net_run_wp assms)
qed

section \<open>Facts about the addresses\<close>

definition slot_base :: "string \<Rightarrow> nat" where
  "slot_base sid = 4 * unat (address_slot sid) + 4"

lemma address_slot_bound: "unat (address_slot sid) < 65000"
  by (simp add: address_slot_def Let_def unat_mod)

lemma unat_base: "unat (address_slot sid * 4 + 4) = slot_base sid"
  using address_slot_bound [of sid]
  by (simp add: slot_base_def unat_word_ariths)

lemma low_byte: "unat (and (w :: u32) 0xFF) = unat w mod 256"
proof -
  have "(0xFF :: u32) = mask 8" by (simp add: mask_eq_exp_minus_1)
  then have "and w 0xFF = take_bit 8 w" by (simp only: take_bit_eq_mask)
  then have "and w 0xFF = w mod 256" by (simp add: take_bit_eq_mod)
  then show ?thesis by (simp add: unat_mod)
qed

lemma unat_drop_8: "unat (drop_bit 8 (w :: u32)) = unat w div 256"
  by (simp add: drop_bit_eq_div unat_div)

lemma allocateIPs_eq:
  "allocateIPs sid =
     (''10.100.'' @ show_nat (slot_base sid div 256 mod 256) @ ''.'' @ show_nat (slot_base sid mod 256 + 2),
      ''10.100.'' @ show_nat (slot_base sid div 256 mod 256) @ ''.'' @ show_nat (slot_base sid mod 256 + 1))"
proof -
  let ?b = "address_slot sid * 4 + 4"
  have third: "unat (and (drop_bit 8 ?b) 0xFF) = slot_base sid div 256 mod 256"
    by (simp only: low_byte unat_drop_8 unat_base)
  have fourth: "unat (and ?b 0xFF) = slot_base sid mod 256"
    by (simp only: low_byte unat_base)
  have plus: "unat (and ?b 0xFF + 1) = slot_base sid mod 256 + 1"
    "unat (and ?b 0xFF + 2) = slot_base sid mod 256 + 2"
    using fourth by (simp_all add: unat_word_ariths)
  show ?thesis
    by (simp only: allocateIPs_def Let_def show_word_def third plus)
qed

lemma slot_base_low: "slot_base sid mod 256 \<le> 252" "4 dvd slot_base sid mod 256"
proof -
  show d: "4 dvd slot_base sid mod 256"
    by (auto simp: slot_base_def dvd_mod_iff)
  then obtain k where "slot_base sid mod 256 = 4 * k" by (auto elim: dvdE)
  moreover have "slot_base sid mod 256 < 256" by simp
  ultimately have "4 * k < 256" by metis
  then have "k \<le> 63" by simp
  with \<open>slot_base sid mod 256 = 4 * k\<close> show "slot_base sid mod 256 \<le> 252" by simp
qed

lemma slot_base_mod: "slot_base a mod 65536 = slot_base b mod 65536 \<longleftrightarrow>
  unat (address_slot a) mod 16384 = unat (address_slot b) mod 16384"
proof -
  have four: "(4 * x + 4) mod 65536 = 4 * (Suc x mod 16384)" for x :: nat
    using mult_mod_right [of 4 "Suc x" 16384] by (simp add: algebra_simps)
  have "x mod 16384 < 16384" for x :: nat by simp
  then have "Suc x mod 16384 = Suc y mod 16384 \<longleftrightarrow> x mod 16384 = y mod 16384" for x y :: nat
    by (auto simp: mod_Suc)
  then show ?thesis by (simp add: slot_base_def four)
qed

lemma two_digits: "m div 256 mod 256 = n div 256 mod 256 \<and> m mod 256 = n mod 256 \<longleftrightarrow>
   m mod 65536 = n mod 65536" for m n :: nat
proof -
  have split: "k mod 65536 = 256 * (k div 256 mod 256) + k mod 256" for k :: nat
    using mod_mult2_eq [of k 256 256] by simp
  have parts: "(256 * a + b) div 256 = a \<and> (256 * a + b) mod 256 = b" if "b < 256" for a b :: nat
    using that by simp
  show ?thesis
    unfolding split using parts [of "m mod 256"] parts [of "n mod 256"]
    by (metis mod_less_divisor zero_less_numeral)
qed

lemma append_sep_inject:
  "c \<notin> set x \<Longrightarrow> c \<notin> set y \<Longrightarrow> x @ c # u = y @ c # v \<longleftrightarrow> x = y \<and> u = v"
  by (induction x arbitrary: y) (case_tac y; auto)+

section \<open>The theorems\<close>

text \<open>
  C33: Every identifier gets two well-formed addresses of one block of four in 10.100.0.0/16: the
  gateway one above the block's first address, which is a multiple of four, the guest two above; and
  two identifiers get the same addresses exactly when their slots, of which there are 65000, agree
  modulo 16384.
\<close>

theorem allocateIPs_blocks:
  "(\<exists>t f :: u8. unat f \<le> 252 \<and> 4 dvd unat f \<and>
      parse_ipv4 (fst (allocateIPs sid)) = Some [10, 100, t, f + 2] \<and>
      parse_ipv4 (snd (allocateIPs sid)) = Some [10, 100, t, f + 1]) \<and>
   (allocateIPs sid = allocateIPs other \<longleftrightarrow>
      unat (address_slot sid) mod 16384 = unat (address_slot other) mod 16384)"
proof
  let ?t = "of_nat (slot_base sid div 256 mod 256) :: u8" and ?f = "of_nat (slot_base sid mod 256) :: u8"
  have t: "unat ?t = slot_base sid div 256 mod 256" and f: "unat ?f = slot_base sid mod 256"
    by (simp_all add: unat_of_nat)
  have f1: "unat (?f + 1) = slot_base sid mod 256 + 1" "unat (?f + 2) = slot_base sid mod 256 + 2"
    using slot_base_low(1) [of sid] f by (simp_all add: unat_word_ariths)
  have ten: "show_nat 10 = ''10''" "show_nat 100 = ''100''"
    by (simp_all add: show_nat.simps digit_char_def char_of_eq_iff)
  have "parse_ipv4 (show_ipv4 [10, 100, ?t, x]) = Some [10, 100, ?t, x]" for x
    by (rule parse_show_ipv4) simp
  moreover have "allocateIPs sid = (show_ipv4 [10, 100, ?t, ?f + 2], show_ipv4 [10, 100, ?t, ?f + 1])"
    unfolding allocateIPs_eq show_ipv4_def list.map f1 t by (simp add: ten)
  ultimately have "parse_ipv4 (fst (allocateIPs sid)) = Some [10, 100, ?t, ?f + 2]"
    "parse_ipv4 (snd (allocateIPs sid)) = Some [10, 100, ?t, ?f + 1]"
    by simp_all
  then show "\<exists>t f :: u8. unat f \<le> 252 \<and> 4 dvd unat f \<and>
      parse_ipv4 (fst (allocateIPs sid)) = Some [10, 100, t, f + 2] \<and>
      parse_ipv4 (snd (allocateIPs sid)) = Some [10, 100, t, f + 1]"
    using slot_base_low [of sid] f by (intro exI [of _ ?t] exI [of _ ?f]) simp
next
  let ?s = "slot_base sid" and ?o = "slot_base other"
  have "allocateIPs sid = allocateIPs other \<longleftrightarrow>
      ?s div 256 mod 256 = ?o div 256 mod 256 \<and> ?s mod 256 = ?o mod 256"
    using dot_not_digit by (auto simp: allocateIPs_eq append_sep_inject)
  also have "\<dots> \<longleftrightarrow> ?s mod 65536 = ?o mod 65536"
    by (rule two_digits)
  also have "\<dots> \<longleftrightarrow> unat (address_slot sid) mod 16384 = unat (address_slot other) mod 16384"
    by (rule slot_base_mod)
  finally show "allocateIPs sid = allocateIPs other \<longleftrightarrow>
      unat (address_slot sid) mod 16384 = unat (address_slot other) mod 16384" .
qed


end
