(* ===== verification/Registry.thy ===== *)
theory Registry
  imports HostWorld Sha256
begin

text \<open>
  \<^verbatim>\<open>internal/registry/registry.go\<close>: the images a host knows, and the check of an image file against
  its SHA-256 digest. The bytes of a file are the text of the answer to copying it into the hash.
\<close>

record ImageRef =
  ir_Name :: string
  ir_Digest :: string
  ir_LocalPath :: string

record Registry =
  rg_localImages :: "string \<rightharpoonup> ImageRef"

definition NewRegistry :: "(string \<rightharpoonup> ImageRef) \<Rightarrow> Registry" where
  "NewRegistry localImages = \<lparr>rg_localImages = localImages\<rparr>"

definition registry_Resolve :: "Registry \<Rightarrow> string \<Rightarrow> string + ImageRef" where
  "registry_Resolve r name =
     (case rg_localImages r name of
        None \<Rightarrow> Inl (''registry: image '' @ quote name @ '' not found in local cache'')
      | Some ref \<Rightarrow> Inr ref)"

text \<open>
  \<^verbatim>\<open>strings.EqualFold\<close> against a text of ASCII letters without a \<^verbatim>\<open>k\<close>: case does not count, and
  the long s (U+017F, two bytes) is the one other character that folds to such a letter.
\<close>

fun fold_text :: "string \<Rightarrow> string" where
  "fold_text [] = []"
| "fold_text [c] = [ascii_lower c]"
| "fold_text (c # d # s) =
     (if c = CHR 0xC5 \<and> d = CHR 0xBF then CHR ''s'' # fold_text s else ascii_lower c # fold_text (d # s))"

definition equal_fold :: "string \<Rightarrow> string \<Rightarrow> bool" where
  "equal_fold a b \<longleftrightarrow> fold_text a = fold_text b"

definition digest_of :: "string \<Rightarrow> string" where
  "digest_of content = ''sha256:'' @ hex_sha256 content"

definition ComputeDigest :: "string \<Rightarrow> ('s, string + string) io" where
  "ComputeDigest path =
     attempt (perform (OpenFile path))
       (\<lambda>e. ret (Inl e))
       (\<lambda>_. do {
          r \<leftarrow> attempt (perform (CopyBytes ''sha256'' path))
            (\<lambda>e. ret (Inl e))
            (\<lambda>a. ret (Inr (digest_of (rp_text a))));
          _ \<leftarrow> perform_raw (CloseFile path);
          ret r })"

definition VerifyDigest :: "ImageRef \<Rightarrow> ('s, string + unit) io" where
  "VerifyDigest ref =
     (if ir_Digest ref = '''' then ret (Inr ())
      else attempt (perform (OpenFile (ir_LocalPath ref)))
        (\<lambda>e. ret (Inl (''registry: open '' @ ir_LocalPath ref @ '': '' @ e)))
        (\<lambda>_. do {
           r \<leftarrow> attempt (perform (CopyBytes ''sha256'' (ir_LocalPath ref)))
             (\<lambda>e. ret (Inl (''registry: hash '' @ ir_LocalPath ref @ '': '' @ e)))
             (\<lambda>a. let actual = digest_of (rp_text a)
                  in if \<not> equal_fold actual (ir_Digest ref)
                     then ret (Inl (''registry: digest mismatch for '' @ ir_Name ref @ '': want '' @
                                    ir_Digest ref @ '' got '' @ actual))
                     else ret (Inr ()));
           _ \<leftarrow> perform_raw (CloseFile (ir_LocalPath ref));
           ret r }))"

section \<open>Facts\<close>

text \<open>A file of that content: opening and copying it succeed, whenever it is asked for.\<close>

definition file_content :: "'s host_scheme \<Rightarrow> string \<Rightarrow> string \<Rightarrow> bool" where
  "file_content s path bytes \<longleftrightarrow>
     (\<forall>t. rp_err (os_env s t (OpenFile path)) = None \<and>
          rp_err (os_env s t (CopyBytes ''sha256'' path)) = None \<and>
          rp_text (os_env s t (CopyBytes ''sha256'' path)) = bytes)"

lemma file_content_note_call [simp]: "file_content (note_call c s) p b = file_content s p b"
  by (simp add: file_content_def)

lemma file_content_env:
  assumes "file_content s p b"
  shows "rp_err (os_env s t (OpenFile p)) = None" and "rp_err (os_env s t (CopyBytes ''sha256'' p)) = None"
    and "rp_text (os_env s t (CopyBytes ''sha256'' p)) = b"
  using assms by (auto simp: file_content_def)

lemma ComputeDigest_content:
  assumes "file_content s p b"
  shows "wp (ComputeDigest p) (\<lambda>r s'. r = Inr (digest_of b) \<and> file_content s' p b) s"
  by (simp add: ComputeDigest_def wp_perform wp_perform_raw answer_def file_content_env [OF assms] assms)

lemma VerifyDigest_content:
  assumes "file_content s (ir_LocalPath ref) b"
  shows "wp (VerifyDigest ref)
    (\<lambda>r s'. is_ok r \<longleftrightarrow> ir_Digest ref = '''' \<or> equal_fold (digest_of b) (ir_Digest ref)) s"
  by (simp add: VerifyDigest_def wp_perform wp_perform_raw answer_def Let_def is_ok_def
        file_content_env [OF assms])

section \<open>Verification against a computed digest\<close>

definition answer_file :: "string \<Rightarrow> event list \<Rightarrow> os_call \<Rightarrow> reply" where
  "answer_file bytes t c = plain_reply\<lparr>rp_text := bytes\<rparr>"

definition sample_files :: "string \<Rightarrow> host" where
  "sample_files bytes =
     \<lparr>os_env = answer_file bytes, os_trace = [], os_clock = 0, os_GOOS = ''linux'',
      os_json_error = (\<lambda>e. ''bad'')\<rparr>"

lemma sample_files_content: "file_content (sample_files b) p b"
  by (simp add: file_content_def sample_files_def answer_file_def plain_reply_def)

text \<open>
  While the file of an image does not change, computing its digest succeeds, and verifying an
  image reference to it then passes exactly when the reference pins no digest or pins the computed
  one, whatever the case of its letters.
\<close>

theorem registry_verify:
  assumes "file_content s (ir_LocalPath ref) bytes"
  shows "wp (ComputeDigest (ir_LocalPath ref))
    (\<lambda>d s1. is_ok d \<and>
       wp (VerifyDigest ref)
         (\<lambda>v s2. is_ok v \<longleftrightarrow> ir_Digest ref = '''' \<or> (\<exists>x. d = Inr x \<and> equal_fold x (ir_Digest ref))) s1) s"
  by (rule wp_mono [OF ComputeDigest_content [OF assms]])
     (auto simp: is_ok_def intro: wp_mono [OF VerifyDigest_content])

theorem registry_verify_witness:
  "wp (ComputeDigest ''/img'')
    (\<lambda>d s1. is_ok d \<and>
       wp (VerifyDigest \<lparr>ir_Name = ''a'', ir_Digest = ''sha256:0'', ir_LocalPath = ''/img''\<rparr>)
         (\<lambda>v s2. is_ok v \<longleftrightarrow> ''sha256:0'' = '''' \<or> (\<exists>x. d = Inr x \<and> equal_fold x ''sha256:0'')) s1)
    (sample_files ''abc'')"
  using registry_verify [of "sample_files ''abc''"
      "\<lparr>ir_Name = ''a'', ir_Digest = ''sha256:0'', ir_LocalPath = ''/img''\<rparr>" "''abc''"]
  by (simp add: sample_files_content)

end
