(* ===== verification/Pool.thy ===== *)
theory Pool
  imports Prelude Float64
begin

text \<open>
  \<^verbatim>\<open>internal/pool/pool.go\<close>: the size a host's pool of warm virtual machines should have, from a
  smoothed request rate and the duration of requests (Little's law with 30 % headroom). \<^verbatim>\<open>int\<close> has 64
  bits. What a conversion of a \<^verbatim>\<open>float64\<close> outside its range gives is left to the processor by Go:
  here an argument, \<open>wild\<close>. The mutex makes each method one atomic step.
\<close>

section \<open>The manager\<close>

record PoolManager =
  pm_ewmaRPS :: f64
  pm_p95DurSec :: f64
  pm_currentPool :: u32

definition HeadroomFactor :: f64 where
  "HeadroomFactor = f64_of (13 / 10)"

definition MinPoolSize :: u64 where
  "MinPoolSize = 10"

text \<open>The two constant factors of the average: \<^verbatim>\<open>1-EWMAAlpha\<close> is computed exactly, then rounded.\<close>

definition EWMAAlpha :: rat where
  "EWMAAlpha = 3 / 10"

definition NewPoolManager :: "f64 \<Rightarrow> f64 \<Rightarrow> PoolManager" where
  "NewPoolManager initialRPS p95DurSec =
     \<lparr>pm_ewmaRPS = initialRPS, pm_p95DurSec = p95DurSec, pm_currentPool = 0\<rparr>"

definition UpdateRPS :: "f64 \<Rightarrow> PoolManager \<Rightarrow> PoolManager" where
  "UpdateRPS newRPS p =
     p\<lparr>pm_ewmaRPS := f_add (f_mul (f64_of EWMAAlpha) newRPS)
                         (f_mul (f64_of (1 - EWMAAlpha)) (pm_ewmaRPS p))\<rparr>"

text \<open>Truncation towards zero, for a value whose truncation is an \<^verbatim>\<open>int\<close>.\<close>

definition truncate_rat :: "rat \<Rightarrow> int" where
  "truncate_rat x = (if 0 \<le> x then \<lfloor>x\<rfloor> else \<lceil>x\<rceil>)"

definition is_int64 :: "int \<Rightarrow> bool" where
  "is_int64 i \<longleftrightarrow> - (2 ^ 63) \<le> i \<and> i < 2 ^ 63"

fun int_of_f64 :: "(f64 \<Rightarrow> u64) \<Rightarrow> f64 \<Rightarrow> u64" where
  "int_of_f64 wild (Fin x) =
     (if is_int64 (truncate_rat x) then word_of_int (truncate_rat x) else wild (Fin x))"
| "int_of_f64 wild v = wild v"

definition TargetSize :: "(f64 \<Rightarrow> u64) \<Rightarrow> PoolManager \<Rightarrow> u64" where
  "TargetSize wild p =
     (let concurrency = f_mul (pm_ewmaRPS p) (pm_p95DurSec p);
          target = int_of_f64 wild (f_mul concurrency HeadroomFactor)
      in if sint target < sint MinPoolSize then MinPoolSize else target)"

definition CurrentSize :: "PoolManager \<Rightarrow> u64" where
  "CurrentSize p = scast (pm_currentPool p)"

definition SetCurrentSize :: "u64 \<Rightarrow> PoolManager \<Rightarrow> PoolManager" where
  "SetCurrentSize n p = p\<lparr>pm_currentPool := ucast n\<rparr>"

definition pool_Delta :: "(f64 \<Rightarrow> u64) \<Rightarrow> PoolManager \<Rightarrow> u64" where
  "pool_Delta wild p = TargetSize wild p - CurrentSize p"

section \<open>Facts\<close>

lemma sint_MinPoolSize [simp]: "sint MinPoolSize = 10"
  by (simp add: MinPoolSize_def)

lemma TargetSize_minimum: "10 \<le> sint (TargetSize wild p)"
  by (simp add: TargetSize_def Let_def)

text \<open>In range, the target is the rounded demand cut to an integer, or the minimum.\<close>

lemma TargetSize_demand:
  assumes "f_mul (f_mul (pm_ewmaRPS p) (pm_p95DurSec p)) HeadroomFactor = Fin d" and "d < 2 ^ 63"
    and "- (2 ^ 63) \<le> d"
  shows "sint (TargetSize wild p) = max 10 \<lfloor>d\<rfloor>"
proof -
  have "is_int64 (truncate_rat d)"
    using assms(2,3) unfolding is_int64_def truncate_rat_def
    by (auto simp: floor_less_iff le_floor_iff le_ceiling_iff ceiling_less_iff)
  moreover have "sint (word_of_int i :: u64) = i" if "is_int64 i" for i
    unfolding signed_of_int of_int_eq_id id_apply
    by (rule signed_take_bit_int_eq_self) (use that in \<open>simp_all add: is_int64_def\<close>)
  moreover have "max 10 (truncate_rat d) = max 10 \<lfloor>d\<rfloor>"
  proof (cases "0 \<le> d")
    case False
    then have "\<lceil>d\<rceil> \<le> 0" "\<lfloor>d\<rfloor> \<le> 0"
      by (simp_all add: ceiling_le_iff floor_le_iff)
    with False show ?thesis
      by (simp add: truncate_rat_def)
  qed (simp add: truncate_rat_def)
  ultimately show ?thesis
    using assms(1) by (auto simp: TargetSize_def Let_def max_def split: if_splits)
qed

lemma SetCurrentSize_target [simp]: "TargetSize wild (SetCurrentSize n p) = TargetSize wild p"
  by (simp add: TargetSize_def SetCurrentSize_def)

lemma CurrentSize_set: "CurrentSize (SetCurrentSize n p) = scast (ucast n :: u32)"
  by (simp add: CurrentSize_def SetCurrentSize_def)

lemma int32_roundtrip:
  "scast (ucast n :: u32) = (n :: u64) \<longleftrightarrow> - (2 ^ 31) \<le> sint n \<and> sint n < 2 ^ 31"
proof -
  have "sint n = signed_take_bit 63 (uint n)"
    using signed_of_int [of "uint n", where ?'b = 64, where ?'a = int] by simp
  then have s: "sint (scast (ucast n :: u32) :: u64) = signed_take_bit 31 (sint n)"
    unfolding signed_scast_eq unfolding signed_ucast_eq by simp
  have "scast (ucast n :: u32) = n \<longleftrightarrow> signed_take_bit 31 (sint n) = sint n"
    unfolding s [symmetric] by (metis signed_word_eqI)
  then show ?thesis
    by (simp add: signed_take_bit_int_eq_self_iff)
qed

section \<open>Sizing\<close>

text \<open>
  C35: Sizing the warm pool, whatever the demand and the processor: the target is never below the
  minimum of ten, and starting and stopping as many machines as \<^verbatim>\<open>Delta\<close> says brings the pool to its
  target, so that nothing is left to do, exactly when the target fits the 32 bits in which the pool's
  size is kept. A demand of \<open>d\<close> machines in the range of \<^verbatim>\<open>int\<close> asks for \<open>d\<close> rounded down.
\<close>

theorem pool_sizing:
  "10 \<le> sint (TargetSize wild p) \<and>
   (pool_Delta wild (SetCurrentSize (CurrentSize p + pool_Delta wild p) p) = 0 \<longleftrightarrow>
      sint (TargetSize wild p) < 2 ^ 31) \<and>
   (case f_mul (f_mul (pm_ewmaRPS p) (pm_p95DurSec p)) HeadroomFactor of
      Fin d \<Rightarrow> if - (2 ^ 63) \<le> d \<and> d < 2 ^ 63 then sint (TargetSize wild p) = max 10 \<lfloor>d\<rfloor> else True
    | _ \<Rightarrow> True)"
proof (intro conjI)
  show min: "10 \<le> sint (TargetSize wild p)"
    by (rule TargetSize_minimum)
  have "pool_Delta wild (SetCurrentSize (TargetSize wild p) p) = 0 \<longleftrightarrow>
      scast (ucast (TargetSize wild p) :: u32) = TargetSize wild p"
    by (auto simp: pool_Delta_def CurrentSize_set)
  then show "pool_Delta wild (SetCurrentSize (CurrentSize p + pool_Delta wild p) p) = 0 \<longleftrightarrow>
      sint (TargetSize wild p) < 2 ^ 31"
    using min unfolding int32_roundtrip by (simp add: pool_Delta_def)
qed (simp add: TargetSize_demand split: f64.split)

end
