(* ===== verification/GoSdk.thy ===== *)
theory GoSdk
  imports ApiServer
begin

text \<open>
  \<^verbatim>\<open>sdk/go/sandock/client.go\<close>: the client library of the API, and the client joined to the server
  through a connection. Errors are the texts the library makes of them. The HTTP client is an
  argument: it takes a request to the status and the bytes of a response (\<open>None\<close> for no bytes), or
  fails; a body cut off while it is read does not parse, as the library ignores the error of the
  reading. How a time is read from its RFC 3339 text is the argument \<open>ptime\<close>.
\<close>

section \<open>The types\<close>

record SdkSandboxSpec =
  ks_Image :: string
  ks_CPUMillis :: u32
  ks_MemoryMiB :: u32
  ks_TimeoutMs :: u32
  ks_EgressAllowlist :: "string list"
  ks_SnapshotKey :: string

record SdkSandbox =
  kb_ID :: string
  kb_TenantID :: string
  kb_State :: string
  kb_CreatedAt :: time
  kb_UpdatedAt :: time

record SdkExecRequest =
  kx_Command :: string
  kx_Stdin :: string
  kx_TimeoutMs :: u32

record SdkExecResult =
  kr_Stdout :: string
  kr_Stderr :: string
  kr_ExitCode :: int
  kr_DurationMs :: int

definition enc_SdkSandboxSpec :: "SdkSandboxSpec \<Rightarrow> json" where
  "enc_SdkSandboxSpec x = JObj
     ([(''image'', j_str (ks_Image x)), (''cpu_millis'', j_u32 (ks_CPUMillis x)),
       (''memory_mib'', j_u32 (ks_MemoryMiB x)), (''timeout_ms'', j_u32 (ks_TimeoutMs x))] @
      omit_strs ''egress_allowlist'' (ks_EgressAllowlist x) @
      omit_str ''snapshot_key'' (ks_SnapshotKey x))"

definition enc_SdkExecRequest :: "SdkExecRequest \<Rightarrow> json" where
  "enc_SdkExecRequest x = JObj
     ([(''command'', j_str (kx_Command x))] @ omit_str ''stdin'' (kx_Stdin x) @
      (if kx_TimeoutMs x = 0 then [] else [(''timeout_ms'', j_u32 (kx_TimeoutMs x))]))"

definition zero_SdkSandbox :: SdkSandbox where
  "zero_SdkSandbox = \<lparr>kb_ID = '''', kb_TenantID = '''', kb_State = '''', kb_CreatedAt = 0,
     kb_UpdatedAt = 0\<rparr>"

definition f_time :: "(string \<Rightarrow> time option) \<Rightarrow> string \<Rightarrow> (time \<Rightarrow> 'r \<Rightarrow> 'r) \<Rightarrow> 'r field" where
  "f_time ptime k put =
     (k, \<lambda>j r. case un_str j of None \<Rightarrow> None | Some s \<Rightarrow> map_option (\<lambda>t. put t r) (ptime s))"

definition SdkSandbox_fields :: "(string \<Rightarrow> time option) \<Rightarrow> SdkSandbox field list" where
  "SdkSandbox_fields ptime =
     [f_str ''id'' (\<lambda>x. kb_ID_update (\<lambda>_. x)),
      f_str ''tenant_id'' (\<lambda>x. kb_TenantID_update (\<lambda>_. x)),
      f_str ''state'' (\<lambda>x. kb_State_update (\<lambda>_. x)),
      f_time ptime ''created_at'' (\<lambda>x. kb_CreatedAt_update (\<lambda>_. x)),
      f_time ptime ''updated_at'' (\<lambda>x. kb_UpdatedAt_update (\<lambda>_. x))]"

definition zero_SdkExecResult :: SdkExecResult where
  "zero_SdkExecResult = \<lparr>kr_Stdout = '''', kr_Stderr = '''', kr_ExitCode = 0, kr_DurationMs = 0\<rparr>"

definition SdkExecResult_fields :: "SdkExecResult field list" where
  "SdkExecResult_fields =
     [f_str ''stdout'' (\<lambda>x. kr_Stdout_update (\<lambda>_. x)),
      f_str ''stderr'' (\<lambda>x. kr_Stderr_update (\<lambda>_. x)),
      f_i64 ''exit_code'' (\<lambda>x. kr_ExitCode_update (\<lambda>_. x)),
      f_i64 ''duration_ms'' (\<lambda>x. kr_DurationMs_update (\<lambda>_. x))]"

text \<open>A list of pointers: \<^verbatim>\<open>null\<close> is the empty list, and within one no sandbox.\<close>

fun decode_each :: "'r field list \<Rightarrow> 'r \<Rightarrow> json list \<Rightarrow> json_error + 'r option list" where
  "decode_each fs zero [] = Inr []"
| "decode_each fs zero (j # js) =
     (case (if j = JNull then Inr None else map_sum id Some (json_decode fs zero (Json j))) of
        Inl e \<Rightarrow> Inl e
      | Inr x \<Rightarrow> (case decode_each fs zero js of Inl e \<Rightarrow> Inl e | Inr xs \<Rightarrow> Inr (x # xs)))"

fun decode_list :: "'r field list \<Rightarrow> 'r \<Rightarrow> body \<Rightarrow> json_error + 'r option list" where
  "decode_list fs zero (Json (JArr js)) = decode_each fs zero js"
| "decode_list fs zero (Json JNull) = Inr []"
| "decode_list fs zero Malformed = Inl JsonSyntax"
| "decode_list fs zero _ = Inl (JsonMismatch '''')"

section \<open>The client\<close>

type_synonym 'w api_transport =
  "http_request \<Rightarrow> 'w \<Rightarrow> (transport_error + int \<times> body option) \<times> 'w"

record SdkClient =
  kc_baseURL :: string
  kc_apiKey :: string

definition NewSdkClient :: "string \<Rightarrow> string \<Rightarrow> SdkClient" where
  "NewSdkClient baseURL apiKey = \<lparr>kc_baseURL = baseURL, kc_apiKey = apiKey\<rparr>"

definition api_error_string :: "int \<Rightarrow> string \<Rightarrow> string" where
  "api_error_string code msg = ''sandock API error '' @ show_int code @ '': '' @ msg"

text \<open>
  \<open>out\<close> is how the body is decoded and the value before decoding, which an empty body leaves.
  Encoding these requests does not fail.
\<close>

definition sdk_do ::
  "(json_error \<Rightarrow> string) \<Rightarrow> 'w api_transport \<Rightarrow> SdkClient \<Rightarrow> string \<Rightarrow> string \<Rightarrow> json option \<Rightarrow>
   (body \<Rightarrow> json_error + 'r) \<times> 'r \<Rightarrow> 'w \<Rightarrow> (string + 'r) \<times> 'w" where
  "sdk_do jerr tr c method path reqBody out w =
     (let req = \<lparr>rq_Method = method, rq_URL = kc_baseURL c @ path,
                 rq_Headers = (''Authorization'', ''Bearer '' @ kc_apiKey c) #
                   (if reqBody = None then [] else [(''Content-Type'', ''application/json'')]),
                 rq_Body = (case reqBody of None \<Rightarrow> Malformed | Some j \<Rightarrow> Json j)\<rparr>
      in case tr req w of
           (Inl (BadRequest e), w') \<Rightarrow> (Inl (''build request: '' @ e), w')
         | (Inl (NoAnswer e), w') \<Rightarrow> (Inl (''http: '' @ e), w')
         | (Inr (code, respBytes), w') \<Rightarrow>
             if code \<ge> 300
             then (Inl (api_error_string code
                     (case respBytes of None \<Rightarrow> '''' | Some b \<Rightarrow> api_error_text b)), w')
             else (case respBytes of
                     None \<Rightarrow> (Inr (snd out), w')
                   | Some b \<Rightarrow>
                       (case fst out b of
                          Inl e \<Rightarrow> (Inl (''unmarshal response: '' @ jerr e), w')
                        | Inr r \<Rightarrow> (Inr r, w'))))"

definition decode_sandbox :: "(string \<Rightarrow> time option) \<Rightarrow> (body \<Rightarrow> json_error + SdkSandbox) \<times> SdkSandbox" where
  "decode_sandbox ptime = (json_decode (SdkSandbox_fields ptime) zero_SdkSandbox, zero_SdkSandbox)"

definition sdk_Create ::
  "(json_error \<Rightarrow> string) \<Rightarrow> (string \<Rightarrow> time option) \<Rightarrow> 'w api_transport \<Rightarrow> SdkClient \<Rightarrow> SdkSandboxSpec \<Rightarrow>
   'w \<Rightarrow> (string + SdkSandbox) \<times> 'w" where
  "sdk_Create jerr ptime tr c sp w =
     wrap_error ''sandock: Create: ''
       (sdk_do jerr tr c ''POST'' ''/v1/sandboxes'' (Some (enc_SdkSandboxSpec sp)) (decode_sandbox ptime) w)"

definition sdk_Get ::
  "(json_error \<Rightarrow> string) \<Rightarrow> (string \<Rightarrow> time option) \<Rightarrow> 'w api_transport \<Rightarrow> SdkClient \<Rightarrow> string \<Rightarrow>
   'w \<Rightarrow> (string + SdkSandbox) \<times> 'w" where
  "sdk_Get jerr ptime tr c sandboxID w =
     wrap_error ''sandock: Get: ''
       (sdk_do jerr tr c ''GET'' (''/v1/sandboxes/'' @ sandboxID) None (decode_sandbox ptime) w)"

definition sdk_List ::
  "(json_error \<Rightarrow> string) \<Rightarrow> (string \<Rightarrow> time option) \<Rightarrow> 'w api_transport \<Rightarrow> SdkClient \<Rightarrow>
   'w \<Rightarrow> (string + SdkSandbox option list) \<times> 'w" where
  "sdk_List jerr ptime tr c w =
     wrap_error ''sandock: List: ''
       (sdk_do jerr tr c ''GET'' ''/v1/sandboxes'' None
          (decode_list (SdkSandbox_fields ptime) zero_SdkSandbox, []) w)"

text \<open>The library passes no place for the answer here, and decodes nothing.\<close>

definition sdk_Kill ::
  "(json_error \<Rightarrow> string) \<Rightarrow> 'w api_transport \<Rightarrow> SdkClient \<Rightarrow> string \<Rightarrow> 'w \<Rightarrow> (string + unit) \<times> 'w" where
  "sdk_Kill jerr tr c sandboxID w =
     wrap_error ''sandock: Kill: ''
       (sdk_do jerr tr c ''DELETE'' (''/v1/sandboxes/'' @ sandboxID) None (\<lambda>_. Inr (), ()) w)"

definition sdk_Exec ::
  "(json_error \<Rightarrow> string) \<Rightarrow> 'w api_transport \<Rightarrow> SdkClient \<Rightarrow> string \<Rightarrow> SdkExecRequest \<Rightarrow>
   'w \<Rightarrow> (string + SdkExecResult) \<times> 'w" where
  "sdk_Exec jerr tr c sandboxID req w =
     wrap_error ''sandock: Exec: ''
       (sdk_do jerr tr c ''POST'' (''/v1/sandboxes/'' @ sandboxID @ ''/exec'') (Some (enc_SdkExecRequest req))
          (json_decode SdkExecResult_fields zero_SdkExecResult, zero_SdkExecResult) w)"

text \<open>
  \<open>WaitRunning\<close> takes what the select statement finds each time: a tick, or the end of the context
  with its error. With no more of them it is still waiting.
\<close>

datatype wait_event = Tick | Done string

fun WaitRunning ::
  "(json_error \<Rightarrow> string) \<Rightarrow> (string \<Rightarrow> time option) \<Rightarrow> 'w api_transport \<Rightarrow> SdkClient \<Rightarrow> string \<Rightarrow>
   wait_event list \<Rightarrow> 'w \<Rightarrow> (string + SdkSandbox) option \<times> 'w" where
  "WaitRunning jerr ptime tr c sandboxID [] w = (None, w)"
| "WaitRunning jerr ptime tr c sandboxID (Done e # evs) w = (Some (Inl e), w)"
| "WaitRunning jerr ptime tr c sandboxID (Tick # evs) w =
     (case sdk_Get jerr ptime tr c sandboxID w of
        (Inl e, w') \<Rightarrow> (Some (Inl e), w')
      | (Inr sb, w') \<Rightarrow>
          if kb_State sb = ''running'' then (Some (Inr sb), w')
          else if kb_State sb = ''terminated'' \<or> kb_State sb = ''failed''
          then (Some (Inl (''sandock: WaitRunning: sandbox '' @ sandboxID @ '' reached state '' @ kb_State sb)), w')
          else WaitRunning jerr ptime tr c sandboxID evs w')"

section \<open>The client on the server\<close>

text \<open>
  The connection: the path is what follows the client's base URL, the header arrives without the
  white space around it, and a handler that panics closes the connection without an answer. The
  texts of the mux do not parse as JSON. A path is taken as it is, so an identifier should consist of
  letters, digits and dashes.
\<close>

fun sent_reply :: "api_response \<Rightarrow> int \<times> body option" where
  "sent_reply (JsonReply code v) = (code, Some (Json v))"
| "sent_reply (EmptyReply code) = (code, None)"
| "sent_reply (TextReply code t) = (code, Some Malformed)"

definition api_connect :: "string \<Rightarrow> (api_request \<Rightarrow> 's \<Rightarrow> 's handled) \<Rightarrow> 's api_transport" where
  "api_connect base serve rq s =
     (if \<not> has_prefix (rq_URL rq) base then (Inl (NoAnswer ''no such host''), s)
      else case serve \<lparr>ar_Method = rq_Method rq, ar_Path = trim_prefix (rq_URL rq) base,
                       ar_Authorization = (case map_of (rq_Headers rq) ''Authorization'' of
                          None \<Rightarrow> '''' | Some v \<Rightarrow> trim_space v),
                       ar_Body = rq_Body rq\<rparr> s of
             (Inl _, s') \<Rightarrow> (Inl (NoAnswer ''EOF''), s')
           | (Inr resp, s') \<Rightarrow> (Inr (sent_reply resp), s'))"

text \<open>The request of a call as the server gets it.\<close>

definition sdk_request :: "string \<Rightarrow> string \<Rightarrow> string \<Rightarrow> json option \<Rightarrow> api_request" where
  "sdk_request key method path reqBody =
     \<lparr>ar_Method = method, ar_Path = path, ar_Authorization = trim_space (''Bearer '' @ key),
      ar_Body = (case reqBody of None \<Rightarrow> Malformed | Some j \<Rightarrow> Json j)\<rparr>"

lemma sdk_do_connect:
  "sdk_do jerr (api_connect base serve) (NewSdkClient base key) method path reqBody out s =
   (case serve (sdk_request key method path reqBody) s of
      (Inl _, s') \<Rightarrow> (Inl ''http: EOF'', s')
    | (Inr resp, s') \<Rightarrow>
        let (code, respBytes) = sent_reply resp
        in if code \<ge> 300
           then (Inl (api_error_string code
                   (case respBytes of None \<Rightarrow> '''' | Some b \<Rightarrow> api_error_text b)), s')
           else (case respBytes of
                   None \<Rightarrow> (Inr (snd out), s')
                 | Some b \<Rightarrow>
                     (case fst out b of
                        Inl e \<Rightarrow> (Inl (''unmarshal response: '' @ jerr e), s')
                      | Inr r \<Rightarrow> (Inr r, s'))))"
  by (simp add: sdk_do_def api_connect_def NewSdkClient_def sdk_request_def Let_def
      split: prod.split sum.split)

text \<open>What the library sees of a record.\<close>

definition sandbox_view :: "SandboxRecord \<Rightarrow> SdkSandbox" where
  "sandbox_view r = \<lparr>kb_ID = utf8_text (r_ID r), kb_TenantID = utf8_text (r_TenantID r),
     kb_State = utf8_text (r_State r), kb_CreatedAt = r_CreatedAt r, kb_UpdatedAt = r_UpdatedAt r\<rparr>"

lemma decode_SandboxRecord:
  "ptime (jtime (r_CreatedAt r)) = Some (r_CreatedAt r) \<Longrightarrow>
   ptime (jtime (r_UpdatedAt r)) = Some (r_UpdatedAt r) \<Longrightarrow>
   json_decode (SdkSandbox_fields ptime) zero_SdkSandbox (Json (enc_SandboxRecord jtime r)) =
     Inr (sandbox_view r)"
  by (simp add: enc_SandboxRecord_def SdkSandbox_fields_def json_simps f_time_def fold_eq_def
      ascii_lower_def sandbox_view_def zero_SdkSandbox_def)

text \<open>The server reads the specification the library sends, all but its snapshot key.\<close>

lemma decode_SdkSandboxSpec:
  "json_decode SandboxSpec_fields zero_SandboxSpec (Json (enc_SdkSandboxSpec x)) =
   Inr \<lparr>sp_Image = utf8_text (ks_Image x), sp_CPUMillis = ks_CPUMillis x,
        sp_MemoryMiB = ks_MemoryMiB x, sp_TimeoutMs = ks_TimeoutMs x,
        sp_EgressAllowlist = map utf8_text (ks_EgressAllowlist x), sp_TenantID = ''''\<rparr>"
  by (simp add: enc_SdkSandboxSpec_def SandboxSpec_fields_def json_simps fold_eq_def ascii_lower_def
      zero_SandboxSpec_def)

lemma decode_SpecExecResult:
  "- (2 ^ 63) \<le> xr_ExitCode r \<Longrightarrow> xr_ExitCode r < 2 ^ 63 \<Longrightarrow>
   - (2 ^ 63) \<le> xr_DurationMs r \<Longrightarrow> xr_DurationMs r < 2 ^ 63 \<Longrightarrow>
   json_decode SdkExecResult_fields zero_SdkExecResult (Json (enc_SpecExecResult r)) =
     Inr \<lparr>kr_Stdout = utf8_text (xr_Stdout r), kr_Stderr = utf8_text (xr_Stderr r),
          kr_ExitCode = xr_ExitCode r, kr_DurationMs = xr_DurationMs r\<rparr>"
  by (simp add: enc_SpecExecResult_def SdkExecResult_fields_def json_simps fold_eq_def ascii_lower_def
      zero_SdkExecResult_def)

section \<open>Calls on the API server\<close>

text \<open>Every call with one key is authenticated alike.\<close>

lemma authenticate_key:
  "authenticate a (sdk_request key m p b) = authenticate a (sdk_request key m' p' b')"
  by (simp add: authenticate_def sdk_request_def)

definition plain_id :: "string \<Rightarrow> bool" where
  "plain_id i \<longleftrightarrow> i \<noteq> '''' \<and> CHR ''/'' \<notin> set i"

lemma pathID_plain: "plain_id i \<Longrightarrow> pathID (sdk_request key m (''/v1/sandboxes/'' @ i) b) = i"
  by (simp add: pathID_def sdk_request_def plain_id_def trim_prefix_def has_prefix_def split_on_no_sep)

lemma get_served:
  assumes "authenticate a (sdk_request key ''GET'' p None) = Inr (Inr t)"
    and "p = ''/v1/sandboxes/'' @ i" and "plain_id i"
  shows "api_handle e a (sdk_request key ''GET'' p None) s =
    (case a_store s i of
       None \<Rightarrow> (Inr (writeError 404 ''sandbox not found''), s)
     | Some r \<Rightarrow> (Inr (writeJSON 200 (enc_SandboxRecord (e_jtime e) r)), s))"
proof -
  have "route_of ''GET'' p = RGet"
    using assms(2) by (simp add: route_of_def is_get_def has_prefix_def)
  moreover have "pathID (sdk_request key ''GET'' p None) = i"
    unfolding assms(2) by (rule pathID_plain [OF assms(3)])
  ultimately show ?thesis
    using assms(1)
    by (simp add: api_handle_def api_serve_def handleGetSandbox_def authenticated_def store_Get_def
        sdk_request_def split: option.split)
qed

lemma sdk_Get_served:
  assumes "authenticate a (sdk_request key ''GET'' (''/v1/sandboxes/'' @ i) None) = Inr (Inr t)"
    and "plain_id i" and "a_store s i = Some r"
    and "ptime (e_jtime e (r_CreatedAt r)) = Some (r_CreatedAt r)"
    and "ptime (e_jtime e (r_UpdatedAt r)) = Some (r_UpdatedAt r)"
  shows "sdk_Get jerr ptime (api_connect base (api_handle e a)) (NewSdkClient base key) i s =
    (Inr (sandbox_view r), s)"
  using assms
  by (simp add: sdk_Get_def sdk_do_connect get_served writeJSON_def decode_sandbox_def
      decode_SandboxRecord)

lemma authenticate_refusal:
  "authenticate a r = Inr (Inl resp) \<Longrightarrow> \<exists>m. resp = JsonReply 401 m"
  by (auto simp: authenticate_def writeError_def writeJSON_def Let_def split: if_splits sum.splits)

text \<open>A creation the library reports as done has been submitted, and its record is answered.\<close>

lemma create_served:
  assumes "sdk_Create jerr ptime (api_connect base (api_handle e a)) (NewSdkClient base key) sp s = (Inr sb, s')"
  obtains t i sp' q where
    "authenticate a (sdk_request key ''POST'' ''/v1/sandboxes'' (Some (enc_SdkSandboxSpec sp))) = Inr (Inr t)"
    "orch_Submit (e_now e) (e_nowEnqueue e) (e_uuid e) sp' (s\<lparr>a_quota := q\<rparr>) = (Inr (Inr i), s')"
    "sp_TenantID sp' = t"
    "json_decode (SdkSandbox_fields ptime) zero_SdkSandbox
       (Json (case a_store s' i of None \<Rightarrow> JNull | Some r \<Rightarrow> enc_SandboxRecord (e_jtime e) r)) = Inr sb"
proof -
  let ?r = "sdk_request key ''POST'' ''/v1/sandboxes'' (Some (enc_SdkSandboxSpec sp))"
  have route: "api_handle e a ?r s = handleCreateSandbox (e_jerr e) (e_jtime e) a
      (orch_Submit (e_now e) (e_nowEnqueue e) (e_uuid e)) ?r s"
    by (simp add: api_handle_def api_serve_def sdk_request_def route_of_def is_get_def)
  show ?thesis
    using assms
    unfolding sdk_Create_def sdk_do_connect route handleCreateSandbox_def authenticated_def
    by (auto simp: wrap_error_def writeError_def writeJSON_def decode_sandbox_def store_Get_def Let_def
        split: prod.splits sum.splits if_splits option.splits dest!: authenticate_refusal)
      (rule that, assumption, assumption, simp, simp)+
qed

lemma submit_stored:
  assumes "orch_Submit now nowE uuid sp s = (Inr (Inr i), s')"
  shows "NewSandbox uuid = Inr i" and "a_store s i = None"
    and "a_store s' = (a_store s)(i \<mapsto> zero_record\<lparr>r_ID := i, r_TenantID := sp_TenantID sp,
           r_State := StateQueued, r_CreatedAt := now, r_UpdatedAt := now\<rparr>)"
  using assms by (auto simp: orch_Submit_def store_Create_def split: sum.splits prod.splits option.splits)

lemma plain_new_id:
  assumes "canonical_uuid u" and "NewSandbox u = Inr i"
  shows "plain_id i" and "is_utf8 i"
proof -
  from NewSandbox_shape [OF assms(1)] assms(2) obtain w
    where i: "i = ''sb-'' @ w" and w: "\<forall>c \<in> set w. is_hex c" by auto
  have hex: "c \<noteq> CHR ''/'' \<and> in_bytes 0 0x7F c" if "is_hex c" for c
    using that unfolding is_hex_def by (auto simp: in_bytes_def)
  have pre: "\<forall>c \<in> set ''sb-''. c \<noteq> CHR ''/'' \<and> in_bytes 0 0x7F c"
    by (simp add: in_bytes_def)
  have all: "\<forall>c \<in> set i. c \<noteq> CHR ''/'' \<and> in_bytes 0 0x7F c"
    unfolding i set_append ball_Un by (intro conjI pre ballI hex) (erule bspec [OF w])
  then show "is_utf8 i"
    by (blast intro: is_utf8_ascii)
  have "i \<noteq> ''''" by (simp add: i)
  with all show "plain_id i"
    unfolding plain_id_def by blast
qed

section \<open>Properties\<close>


definition sample_sdk_spec :: SdkSandboxSpec where
  "sample_sdk_spec = \<lparr>ks_Image = ''base'', ks_CPUMillis = 500, ks_MemoryMiB = 256, ks_TimeoutMs = 30000,
     ks_EgressAllowlist = [], ks_SnapshotKey = ''''\<rparr>"


lemma j_str_ascii: "\<forall>c \<in> set s. in_bytes 0 0x7F c \<Longrightarrow> j_str s = JStr s"
  using is_utf8_ascii [of s] by (simp add: j_str_def is_utf8_def)

text \<open>
  C34: Listing sandboxes with the library never succeeds against this server, whatever it holds: the
  server answers an object with a count, the library expects an array. The state does not change.
\<close>

theorem sdk_List_fails:
  "sdk_List jerr ptime (api_connect base (api_handle e a)) (NewSdkClient base key) s =
   (Inl (''sandock: List: '' @
      (case authenticate a (sdk_request key ''GET'' ''/v1/sandboxes'' None) of
         Inl _ \<Rightarrow> ''http: EOF''
       | Inr (Inl _) \<Rightarrow> api_error_string 401
           (if has_prefix (trim_space (''Bearer '' @ key)) ''Bearer '' then ''invalid token''
            else ''missing or invalid Authorization header'')
       | Inr (Inr _) \<Rightarrow> ''unmarshal response: '' @ jerr (JsonMismatch ''''))), s)"
proof -
  let ?r = "sdk_request key ''GET'' ''/v1/sandboxes'' None"
  have serve: "api_handle e a ?r s = handleListSandboxes (e_jtime e) (e_ord e) a ?r s"
    by (simp add: api_handle_def api_serve_def sdk_request_def route_of_def is_get_def)
  have msg: "j_str ''invalid token'' = JStr ''invalid token''" "j_str ''missing or invalid Authorization header'' =
      JStr ''missing or invalid Authorization header''"
    by (rule j_str_ascii, simp add: in_bytes_def)+
  show ?thesis
    unfolding sdk_List_def sdk_do_connect serve handleListSandboxes_def authenticated_def
    by (auto simp: authenticate_def writeError_def writeJSON_def msg Let_def sdk_request_def fold_eq_def
        ascii_lower_def split: sum.splits)
qed

end
