(* ===== verification/Persistence.thy ===== *)
theory Persistence
  imports HostWorld
begin

text \<open>
  \<^verbatim>\<open>internal/persistence/persistence.go\<close>: archives of a directory as compressed tar files under one
  base directory. The libraries \<^verbatim>\<open>archive/tar\<close> and \<^verbatim>\<open>zstd\<close> are calls on the machine; what the reader
  yields of an archive, entry by entry, is an argument of \<open>persist_Restore\<close>. Permission bits and the
  bytes of files are left out. A failed call gives its error number in \<open>rp_num\<close>, a successful
  \<^verbatim>\<open>lstat\<close> the mode of the file, with the type bits of \<^verbatim>\<open>os.FileMode\<close>.
\<close>

section \<open>The store\<close>

record LocalStore =
  ls_baseDir :: string

definition NewLocalStore :: "string \<Rightarrow> ('s, string + LocalStore) io" where
  "NewLocalStore baseDir =
     attempt (perform (MkdirAll baseDir))
       (\<lambda>e. ret (Inl (''persistence: create base dir: '' @ e)))
       (\<lambda>_. ret (Inr \<lparr>ls_baseDir = baseDir\<rparr>))"

definition archivePath :: "LocalStore \<Rightarrow> string \<Rightarrow> string" where
  "archivePath s key =
     (let safe = replace_char slash (CHR ''-'') key
      in path_Join [ls_baseDir s, safe @ ''.tar.zst''])"

definition persist_Exists :: "LocalStore \<Rightarrow> string \<Rightarrow> ('s, bool \<times> string option) io" where
  "persist_Exists s key = do {
     a \<leftarrow> perform_raw (Stat (archivePath s key));
     if rp_err a \<noteq> None \<and> rp_num a = 2 then ret (False, None)
     else ret (rp_err a = None, rp_err a) }"

definition persist_Delete :: "LocalStore \<Rightarrow> string \<Rightarrow> ('s, string + unit) io" where
  "persist_Delete s key =
     attempt (perform (RemoveFile (archivePath s key))) (\<lambda>e. ret (Inl e)) (\<lambda>_. ret (Inr ()))"

section \<open>Saving\<close>

definition mode_symlink :: "nat \<Rightarrow> bool" where
  "mode_symlink m \<longleftrightarrow> bit (of_nat m :: u32) 27"

text \<open>The type bits: directory, symbolic link, device, pipe, socket, character device, irregular.\<close>

definition mode_regular :: "nat \<Rightarrow> bool" where
  "mode_regular m \<longleftrightarrow> \<not> list_ex (\<lambda>i. bit (of_nat m :: u32) i) [31, 27, 26, 25, 24, 21, 19]"

text \<open>
  \<open>tar_entry\<close> is what the walk does at one path: the error it is given is that of the path's
  \<^verbatim>\<open>lstat\<close>, or of reading a directory. \<open>tmp\<close> names the archive written.
\<close>

definition tar_link :: "nat \<Rightarrow> string \<Rightarrow> ('s, string + string) io" where
  "tar_link mode path =
     (if mode_symlink mode
      then attempt (perform (Readlink path)) (\<lambda>e. ret (Inl e)) (\<lambda>a. ret (Inr (rp_text a)))
      else ret (Inr ''''))"

definition tar_contents :: "string \<Rightarrow> nat \<Rightarrow> string \<Rightarrow> ('s, string + unit) io" where
  "tar_contents tmp mode path =
     (if mode_regular mode
      then attempt (perform (OpenFile path)) (\<lambda>e. ret (Inl e))
        (\<lambda>_. do {
           r \<leftarrow> perform (Archive (TarWriteFile tmp path));
           _ \<leftarrow> perform_raw (CloseFile path);
           ret (map_sum id (\<lambda>_. ()) r) })
      else ret (Inr ()))"

definition tar_entry :: "string \<Rightarrow> string \<Rightarrow> string \<Rightarrow> ('s, string + unit) io" where
  "tar_entry tmp baseDir path =
     attempt (perform (Lstat path)) (\<lambda>e. ret (Inl e))
       (\<lambda>info. case path_Rel baseDir path of
          Inl e \<Rightarrow> ret (Inl e)
        | Inr rel \<Rightarrow>
            if rel = ''.'' then ret (Inr ())
            else attempt (perform (Archive (TarFileInfo path))) (\<lambda>e. ret (Inl e))
              (\<lambda>_. attempt (tar_link (rp_num info) path) (\<lambda>e. ret (Inl e))
                 (\<lambda>link. attempt (perform (Archive (TarWriteHeader tmp rel link))) (\<lambda>e. ret (Inl e))
                    (\<lambda>_. tar_contents tmp (rp_num info) path))))"

fun tar_entries :: "string \<Rightarrow> string \<Rightarrow> string list \<Rightarrow> ('s, string + unit) io" where
  "tar_entries tmp baseDir [] = ret (Inr ())"
| "tar_entries tmp baseDir (p # ps) =
     attempt (tar_entry tmp baseDir p) (\<lambda>e. ret (Inl e)) (\<lambda>_. tar_entries tmp baseDir ps)"

text \<open>The walk lists a directory before what is in it, in the order of names.\<close>

definition tarDir :: "string \<Rightarrow> string \<Rightarrow> string \<Rightarrow> ('s, string + unit) io" where
  "tarDir tmp dir baseDir =
     attempt (perform (WalkDir dir)) (\<lambda>e. ret (Inl e)) (\<lambda>a. tar_entries tmp baseDir (rp_names a))"

text \<open>The ways out of \<open>persist_Save\<close> on an error: what is still open is closed, the file removed.\<close>

definition abandon :: "os_call list \<Rightarrow> string \<Rightarrow> string \<Rightarrow> ('s, string + unit) io" where
  "abandon still tmp err = do {
     _ \<leftarrow> foldr (\<lambda>c k. do { _ \<leftarrow> perform_raw c; k }) still (ret ());
     _ \<leftarrow> perform_raw (RemoveFile tmp);
     ret (Inl err) }"

definition persist_Save :: "LocalStore \<Rightarrow> string \<Rightarrow> string \<Rightarrow> ('s, string + unit) io" where
  "persist_Save s key srcDir =
     (let dest = archivePath s key; tmp = dest @ ''.tmp'';
          tw = Archive (TarClose tmp); enc = Archive (ZstdClose tmp); f = CloseFile tmp
      in attempt (perform (CreateFile tmp)) (\<lambda>e. ret (Inl (''persistence: create tmp: '' @ e)))
           (\<lambda>_. attempt (perform (Archive (ZstdNewWriter tmp)))
             (\<lambda>e. do { _ \<leftarrow> perform_raw f; ret (Inl (''persistence: zstd writer: '' @ e)) })
             (\<lambda>_. attempt (tarDir tmp srcDir srcDir)
               (\<lambda>e. abandon [tw, enc, f] tmp (''persistence: tar '' @ srcDir @ '': '' @ e))
               (\<lambda>_. attempt (perform tw) (abandon [enc, f] tmp)
                 (\<lambda>_. attempt (perform enc) (abandon [f] tmp)
                   (\<lambda>_. attempt (perform f) (abandon [] tmp)
                     (\<lambda>_. attempt (perform (Rename tmp dest)) (\<lambda>e. ret (Inl e)) (\<lambda>_. ret (Inr ())))))))))"

section \<open>Restoring\<close>

record TarHeader =
  th_Name :: string
  th_Linkname :: string
  th_Typeflag :: char

text \<open>The target of an entry, and the check against leaving the destination.\<close>

definition restore_target :: "string \<Rightarrow> string \<Rightarrow> string" where
  "restore_target dstDir name = path_Join [dstDir, path_Clean (slash # name)]"

definition target_inside :: "string \<Rightarrow> string \<Rightarrow> bool" where
  "target_inside dstDir target \<longleftrightarrow> has_prefix target (path_Clean dstDir @ ''/'')"

definition restore_file :: "string \<Rightarrow> string \<Rightarrow> ('s, string + unit) io" where
  "restore_file src target =
     attempt (perform (MkdirAll (path_Dir target))) (\<lambda>e. ret (Inl e))
       (\<lambda>_. attempt (perform (OpenTrunc target))
          (\<lambda>e. ret (Inl (''persistence: create file '' @ target @ '': '' @ e)))
          (\<lambda>_. do {
             r \<leftarrow> perform (Archive (TarReadFile src target));
             _ \<leftarrow> perform_raw (CloseFile target);
             ret (case r of Inl e \<Rightarrow> Inl (''persistence: write '' @ target @ '': '' @ e)
                          | Inr _ \<Rightarrow> Inr ()) }))"

definition restore_link :: "string \<Rightarrow> string \<Rightarrow> ('s, string + unit) io" where
  "restore_link link target = do {
     a \<leftarrow> perform_raw (Symlink link target);
     case rp_err a of
       None \<Rightarrow> ret (Inr ())
     | Some e \<Rightarrow> if rp_num a = 17 then ret (Inr ())
                 else ret (Inl (''persistence: symlink '' @ target @ '': '' @ e)) }"

definition restore_entry :: "string \<Rightarrow> string \<Rightarrow> TarHeader \<Rightarrow> ('s, string + unit) io" where
  "restore_entry src dstDir hdr =
     (let target = restore_target dstDir (th_Name hdr)
      in if \<not> target_inside dstDir target
         then ret (Inl (''persistence: path traversal detected: '' @ th_Name hdr))
         else if th_Typeflag hdr = CHR ''5''
         then attempt (perform (MkdirAll target))
                (\<lambda>e. ret (Inl (''persistence: mkdir '' @ target @ '': '' @ e))) (\<lambda>_. ret (Inr ()))
         else if th_Typeflag hdr = CHR ''0'' then restore_file src target
         else if th_Typeflag hdr = CHR ''2'' then restore_link (th_Linkname hdr) target
         else ret (Inr ()))"

text \<open>The entries the reader yields until the end of the archive, or until an error.\<close>

fun restore_entries :: "string \<Rightarrow> string \<Rightarrow> (string + TarHeader) list \<Rightarrow> ('s, string + unit) io" where
  "restore_entries src dstDir [] = ret (Inr ())"
| "restore_entries src dstDir (Inl e # hs) = ret (Inl (''persistence: tar next: '' @ e))"
| "restore_entries src dstDir (Inr h # hs) =
     attempt (restore_entry src dstDir h) (\<lambda>e. ret (Inl e)) (\<lambda>_. restore_entries src dstDir hs)"

definition persist_Restore ::
  "LocalStore \<Rightarrow> (string + TarHeader) list \<Rightarrow> string \<Rightarrow> string \<Rightarrow> ('s, string + unit) io" where
  "persist_Restore s entries key dstDir =
     (let src = archivePath s key
      in attempt (perform (OpenFile src))
           (\<lambda>e. ret (Inl (''persistence: open archive '' @ src @ '': '' @ e)))
           (\<lambda>_. attempt (perform (Archive (ZstdNewReader src)))
             (\<lambda>e. do { _ \<leftarrow> perform_raw (CloseFile src);
                       ret (Inl (''persistence: zstd reader: '' @ e)) })
             (\<lambda>_. do {
                r \<leftarrow> restore_entries src dstDir entries;
                _ \<leftarrow> perform_raw (Archive (ZstdClose src));
                _ \<leftarrow> perform_raw (CloseFile src);
                ret r })))"

section \<open>Paths of archives and of restored files\<close>

lemma join_with_append:
  "us \<noteq> [] \<Longrightarrow> vs \<noteq> [] \<Longrightarrow> join_with sep (us @ vs) = join_with sep us @ sep @ join_with sep vs"
  by (induction sep us rule: join_with.induct) (auto simp: neq_Nil_conv)

text \<open>Joining a cleaned rooted path to an absolute one.\<close>

lemma path_Join_rooted:
  assumes "is_abs d" "list_all plain vs"
  shows "path_Join [d, abs_path vs] = abs_path (path_parts d @ vs)"
proof -
  obtain p where d: "d = slash # p"
    using assms(1) by (cases d) auto
  have parts: "split_on slash (d @ slash # abs_path vs) = split_on slash d @ split_on slash (abs_path vs)"
    by (rule split_on_append)
  have "foldl (clean_step True) out (split_on slash (abs_path vs)) = rev vs @ out" for out
    using assms(2)
    by (cases "vs = []") (simp_all add: abs_path_def clean_step_def split_join_plain foldl_clean_plain)
  then have "clean_parts True (split_on slash (d @ slash # abs_path vs)) = path_parts d @ vs"
    unfolding parts using assms(1) by (simp add: clean_parts_def path_parts_def)
  then show ?thesis
    using d by (simp add: path_Join_def path_Clean_def show_path_def abs_path_def)
qed

lemma path_Clean_abs: "is_abs d \<Longrightarrow> path_Clean d = abs_path (path_parts d)"
  by (simp add: path_Clean_def path_parts_def show_path_def abs_path_def)

lemma path_parts_plain: "is_abs d \<Longrightarrow> list_all plain (path_parts d)"
  unfolding path_parts_def by (auto intro!: clean_parts_rooted dest: split_on_parts)

lemma restore_target_abs:
  assumes "is_abs d"
  obtains vs where "list_all plain vs" and "path_Clean (slash # name) = abs_path vs"
    and "restore_target d name = abs_path (path_parts d @ vs)"
proof -
  obtain vs where "path_Clean (slash # name) = abs_path vs" "list_all plain vs"
    by (rule path_Clean_rooted)
  with path_Join_rooted [OF assms] show ?thesis
    by (intro that) (auto simp: restore_target_def)
qed

lemma path_Dir_abs:
  assumes "list_all plain us" "plain v"
  shows "path_Dir (abs_path (us @ [v])) = abs_path us"
proof -
  have v: "dropWhile (\<lambda>c. c \<noteq> slash) (rev v @ r) = dropWhile (\<lambda>c. c \<noteq> slash) r" for r
    using assms(2) by (intro dropWhile_append2) (auto simp: plain_def)
  show ?thesis
  proof (cases "us = []")
    case True
    then show ?thesis
      using path_Clean_abs_path [of "[]"] by (simp add: path_Dir_def abs_path_def v)
  next
    case False
    then have "path_Dir (abs_path (us @ [v])) = path_Clean (abs_path us @ ''/'')"
      by (simp add: path_Dir_def abs_path_append [symmetric] v)
    also have "clean_parts True (split_on slash (abs_path us @ ''/'')) = us"
      using assms(1) False split_on_append [of slash "abs_path us" "''''"] path_parts_abs_path [of us]
      by (simp add: clean_parts_def path_parts_def clean_step_def)
    then have "path_Clean (abs_path us @ ''/'') = abs_path us"
      by (simp add: path_Clean_def show_path_def) (simp add: abs_path_def)
    finally show ?thesis .
  qed
qed

section \<open>Restoring stays below its destination\<close>

text \<open>
  A path at or below a directory, in cleaned form: no component is \<^verbatim>\<open>..\<close>. The calls of a restoration
  that write name such paths; where a symbolic link points to is not restricted.
\<close>

definition at_or_below :: "string \<Rightarrow> string \<Rightarrow> bool" where
  "at_or_below d p \<longleftrightarrow> (\<exists>vs. list_all plain vs \<and> p = abs_path (path_parts d @ vs))"

fun writes_below :: "string \<Rightarrow> event \<Rightarrow> bool" where
  "writes_below d (MkdirAll p, a) = at_or_below d p"
| "writes_below d (OpenTrunc p, a) = at_or_below d p"
| "writes_below d (Symlink l p, a) = at_or_below d p"
| "writes_below d (Archive (TarReadFile src p), a) = at_or_below d p"
| "writes_below d (c, a) =
     (case c of OpenFile p \<Rightarrow> True | CloseFile p \<Rightarrow> True | Archive (ZstdNewReader p) \<Rightarrow> True
        | Archive (ZstdClose p) \<Rightarrow> True | _ \<Rightarrow> False)"

lemma abs_path_prefix:
  assumes "list_all plain (ds @ vs)"
  shows "has_prefix (abs_path (ds @ vs)) (abs_path ds @ ''/'') \<longleftrightarrow> ds \<noteq> [] \<and> vs \<noteq> []"
proof (cases "ds = [] \<or> vs = []")
  case True
  have "plain v \<Longrightarrow> \<exists>c w. v = c # w \<and> c \<noteq> slash" for v
    by (cases v) (auto simp: plain_def)
  with True assms show ?thesis
    by (cases vs; cases "tl vs") (fastforce simp: abs_path_def has_prefix_def neq_Nil_conv)+
next
  case False
  then show ?thesis
    by (simp add: abs_path_def join_with_append has_prefix_def)
qed

lemma target_inside_iff:
  assumes "is_abs d"
  shows "target_inside d (restore_target d name) \<longleftrightarrow>
    path_Clean d \<noteq> ''/'' \<and> path_Clean (slash # name) \<noteq> ''/''"
proof -
  obtain vs where vs: "list_all plain vs" "path_Clean (slash # name) = abs_path vs"
    "restore_target d name = abs_path (path_parts d @ vs)"
    by (rule restore_target_abs [OF assms])
  have root: "abs_path us = ''/'' \<longleftrightarrow> us = []" if "list_all plain us" for us
    using that abs_path_inject [of us "[]"] by (auto simp: abs_path_def)
  show ?thesis
    unfolding target_inside_def vs(2,3) path_Clean_abs [OF assms]
    using vs(1) path_parts_plain [OF assms] by (simp add: abs_path_prefix root)
qed

lemma restore_target_below: "is_abs d \<Longrightarrow> at_or_below d (restore_target d name)"
  by (rule restore_target_abs [of d name]) (auto simp: at_or_below_def)

lemma restore_dir_below:
  assumes "is_abs d" "target_inside d (restore_target d name)"
  shows "at_or_below d (path_Dir (restore_target d name))"
proof -
  obtain vs where vs: "list_all plain vs" "path_Clean (slash # name) = abs_path vs"
    "restore_target d name = abs_path (path_parts d @ vs)"
    by (rule restore_target_abs [OF assms(1)])
  have "vs \<noteq> []"
    using assms vs(2) by (auto simp: target_inside_iff abs_path_def)
  then obtain us v where "vs = us @ [v]" by (metis rev_exhaust)
  with vs show ?thesis
    using path_Dir_abs [of "path_parts d @ us" v] path_parts_plain [OF assms(1)]
    by (auto simp: at_or_below_def)
qed

lemma restore_entry_below:
  assumes "is_abs d"
  shows "calls_in (writes_below d) (restore_entry src d hdr)"
  unfolding restore_entry_def restore_file_def restore_link_def Let_def
  by (intro calls_rules) (simp_all add: restore_target_below restore_dir_below assms)

lemma restore_entries_below:
  "is_abs d \<Longrightarrow> calls_in (writes_below d) (restore_entries src d hs)"
proof (induction hs)
  case (Cons h hs)
  then show ?case
    by (cases h) (auto intro!: calls_rules restore_entry_below)
qed (auto intro: calls_rules)

text \<open>What is saved from below a directory is restored at the same place below the destination.\<close>

lemma saved_name_restored:
  assumes "list_all plain us" "list_all plain vs" "vs \<noteq> []" "is_abs d" "path_Clean d \<noteq> ''/''"
  shows "\<exists>name. path_Rel (abs_path us) (abs_path (us @ vs)) = Inr name \<and>
    restore_target d name = abs_path (path_parts d @ vs) \<and> target_inside d (restore_target d name)"
proof (intro exI conjI)
  let ?name = "join_with ''/'' vs"
  show "path_Rel (abs_path us) (abs_path (us @ vs)) = Inr ?name"
    by (rule path_Rel_below [OF assms(1-3)])
  have clean: "path_Clean (slash # ?name) = abs_path vs"
    using path_Clean_abs_path [OF assms(2)] by (simp add: abs_path_def)
  then show "restore_target d ?name = abs_path (path_parts d @ vs)"
    by (simp add: restore_target_def path_Join_rooted [OF assms(4,2)])
  have "abs_path vs \<noteq> ''/''"
    using abs_path_inject [of vs "[]"] assms(2,3) by (auto simp: abs_path_def)
  then show "target_inside d (restore_target d ?name)"
    using assms(4,5) by (simp add: target_inside_iff clean)
qed

text \<open>Two keys that differ in a slash and a dash name the same archive.\<close>

lemma archive_keys_collide: "archivePath st (a @ ''/'' @ b) = archivePath st (a @ ''-'' @ b)"
  by (simp add: archivePath_def replace_char_def)

lemma restore_root_fails:
  "is_abs d \<Longrightarrow> path_Clean d = ''/'' \<Longrightarrow>
   restore_entries src d (Inr h # hs) =
   ret (Inl (''persistence: path traversal detected: '' @ th_Name h))"
  by (simp add: restore_entry_def target_inside_iff attempt_def Let_def)

section \<open>Saving is atomic\<close>

text \<open>
  The calls of a saving before its last: reading the source, and writing the temporary file. With
  \<open>ok\<close> none of the calls that write has failed.
\<close>

fun save_event :: "string \<Rightarrow> bool \<Rightarrow> event \<Rightarrow> bool" where
  "save_event tmp ok (CreateFile p, a) = (p = tmp \<and> (ok \<longrightarrow> rp_err a = None))"
| "save_event tmp ok (RemoveFile p, a) = (p = tmp \<and> \<not> ok)"
| "save_event tmp ok (Archive (ZstdNewWriter p), a) = (p = tmp \<and> (ok \<longrightarrow> rp_err a = None))"
| "save_event tmp ok (Archive (TarWriteHeader p n l), a) = (p = tmp \<and> (ok \<longrightarrow> rp_err a = None))"
| "save_event tmp ok (Archive (TarWriteFile p n), a) = (p = tmp \<and> (ok \<longrightarrow> rp_err a = None))"
| "save_event tmp ok (Archive (TarClose p), a) = (p = tmp \<and> (ok \<longrightarrow> rp_err a = None))"
| "save_event tmp ok (Archive (ZstdClose p), a) = (p = tmp \<and> (ok \<longrightarrow> rp_err a = None))"
| "save_event tmp ok (Archive (TarFileInfo p), a) = (ok \<longrightarrow> rp_err a = None)"
| "save_event tmp ok (c, a) =
     (case c of WalkDir p \<Rightarrow> True | Lstat p \<Rightarrow> True | Readlink p \<Rightarrow> True | OpenFile p \<Rightarrow> True
        | CloseFile p \<Rightarrow> True | _ \<Rightarrow> False)"

lemma save_event_weaken: "save_event tmp True ev \<Longrightarrow> save_event tmp ok ev"
  by (induction tmp True ev rule: save_event.induct) (auto split: os_call.splits)

lemma save_events_weaken: "list_all (save_event tmp True) evs \<Longrightarrow> list_all (save_event tmp ok) evs"
  by (blast intro: list.pred_mono_strong save_event_weaken)

text \<open>An operation whose calls are of this kind, none failed when it succeeds.\<close>

definition saves :: "string \<Rightarrow> ('s, string + 'a) io \<Rightarrow> bool" where
  "saves tmp m \<longleftrightarrow>
     (\<forall>s. wp m (\<lambda>r s'. \<exists>evs. os_trace s' = evs @ os_trace s \<and> list_all (save_event tmp (is_ok r)) evs) s)"

lemma saves_ret: "saves tmp (ret r)"
  by (simp add: saves_def)

lemma saves_perform:
  assumes "\<And>a. save_event tmp (rp_err a = None) (c, a)"
  shows "saves tmp (perform c)"
  unfolding saves_def
proof
  fix s :: "'a host_scheme"
  from assms [of "os_env s (os_trace s) c"]
  show "wp (perform c) (\<lambda>r s'. \<exists>evs. os_trace s' = evs @ os_trace s \<and>
      list_all (save_event tmp (is_ok r)) evs) s"
    by (cases "rp_err (os_env s (os_trace s) c)") (simp_all add: wp_perform answer_def)
qed

text \<open>The trace since a state, and how it goes on.\<close>

definition since :: "(event \<Rightarrow> bool) \<Rightarrow> 's host_scheme \<Rightarrow> 's host_scheme \<Rightarrow> bool" where
  "since P s s' \<longleftrightarrow> (\<exists>evs. os_trace s' = evs @ os_trace s \<and> list_all P evs)"

lemma since_refl [simp]: "since P s s"
  by (simp add: since_def)

lemma since_trans: "since P s s1 \<Longrightarrow> since P s1 s2 \<Longrightarrow> since P s s2"
  by (auto simp: since_def)

lemma since_note_call: "P (c, os_env s1 (os_trace s1) c) \<Longrightarrow> since P s s1 \<Longrightarrow> since P s (note_call c s1)"
  by (auto simp: since_def)

lemma since_weaken: "since (save_event tmp True) s s1 \<Longrightarrow> since (save_event tmp ok) s s1"
  by (auto simp: since_def intro: save_events_weaken)

text \<open>One operation after others that succeeded: it fails, or everything has succeeded so far.\<close>

lemma saves_step:
  fixes m :: "('s, string + 'a) io"
  assumes "saves tmp m" and "since (save_event tmp True) s s1"
    and "\<And>e s2. since (save_event tmp False) s s2 \<Longrightarrow> Q (Inl e) s2"
    and "\<And>x s2. since (save_event tmp True) s s2 \<Longrightarrow> Q (Inr x) s2"
  shows "wp m Q s1"
proof -
  have "wp m (\<lambda>r s2. since (save_event tmp (is_ok r)) s1 s2) s1"
    using assms(1) unfolding saves_def since_def by blast
  then show ?thesis
  proof (rule wp_mono)
    fix r :: "string + 'a" and s2
    assume "since (save_event tmp (is_ok r)) s1 s2"
    then have "since (save_event tmp (is_ok r)) s s2"
      by (rule since_trans [OF since_weaken [OF assms(2)]])
    then show "Q r s2"
      using assms(3,4) by (cases r) auto
  qed
qed

lemma saves_attempt:
  assumes "saves tmp m" and "\<And>x. saves tmp (k x)"
  shows "saves tmp (attempt m (\<lambda>e. ret (Inl (f e))) k)"
  unfolding saves_def since_def [symmetric] wp_attempt
proof
  fix s
  show "wp m (\<lambda>r. case r of Inl e \<Rightarrow> wp (ret (Inl (f e))) (\<lambda>r s'. since (save_event tmp (is_ok r)) s s')
      | Inr x \<Rightarrow> wp (k x) (\<lambda>r s'. since (save_event tmp (is_ok r)) s s')) s"
    by (rule saves_step [OF assms(1) since_refl]) (auto intro!: saves_step [OF assms(2)])
qed

lemma saves_contents: "saves tmp (tar_contents tmp mode path)"
proof -
  have "saves tmp (do { r \<leftarrow> perform (Archive (TarWriteFile tmp path));
      _ \<leftarrow> perform_raw (CloseFile path); ret (map_sum id (\<lambda>_. ()) r) })"
    unfolding saves_def since_def [symmetric] wp_bind
  proof
    fix s
    show "wp (perform (Archive (TarWriteFile tmp path))) (\<lambda>r. wp (perform_raw (CloseFile path))
        (\<lambda>_. wp (ret (map_sum id (\<lambda>_. ()) r)) (\<lambda>r s'. since (save_event tmp (is_ok r)) s s'))) s"
      by (rule saves_step [OF saves_perform since_refl]) (auto simp: wp_perform_raw intro: since_note_call)
  qed
  then show ?thesis
    unfolding tar_contents_def by (auto intro!: saves_attempt saves_perform saves_ret)
qed

lemma saves_entry: "saves tmp (tar_entry tmp baseDir path)"
  unfolding tar_entry_def tar_link_def
  by (auto intro!: saves_attempt saves_perform saves_ret saves_contents split: sum.split)

lemma saves_entries: "saves tmp (tar_entries tmp baseDir ps)"
  by (induction ps) (auto intro!: saves_attempt saves_ret saves_entry)

lemma saves_tarDir: "saves tmp (tarDir tmp dir baseDir)"
  unfolding tarDir_def by (intro saves_attempt saves_perform saves_entries) simp

lemma abandon_wp:
  assumes "\<forall>c \<in> set still. \<forall>a. save_event tmp False (c, a)" and "since (save_event tmp False) s s1"
    and "\<And>s2. since (save_event tmp False) s s2 \<Longrightarrow> Q (Inl err) s2"
  shows "wp (abandon still tmp err) Q s1"
proof -
  have "wp (foldr (\<lambda>c k. do { _ \<leftarrow> perform_raw c; k }) still (ret ()))
      (\<lambda>_ s2. since (save_event tmp False) s s2) s1"
    using assms(1,2) by (induction still arbitrary: s1) (auto simp: wp_perform_raw intro: since_note_call)
  then show ?thesis
    unfolding abandon_def wp_bind
    by (rule wp_mono) (auto simp: wp_perform_raw intro!: assms(3) since_note_call)
qed

text \<open>A step of the saving that, when it fails, abandons the archive.\<close>

lemma abandon_step:
  fixes m :: "('s, string + 'a) io"
  assumes "saves tmp m" and "since (save_event tmp True) s s1"
    and "\<forall>c \<in> set still. \<forall>a. save_event tmp False (c, a)"
    and "\<And>e s2. since (save_event tmp False) s s2 \<Longrightarrow> Q (Inl e) s2"
    and "\<And>x s2. since (save_event tmp True) s s2 \<Longrightarrow> wp (k x) Q s2"
  shows "wp (attempt m (\<lambda>e. abandon still tmp (f e)) k) Q s1"
  unfolding wp_attempt
  by (rule saves_step [OF assms(1,2)]) (simp_all add: abandon_wp [OF assms(3)] assms(4,5))

section \<open>Properties\<close>


definition sample_machine :: host where
  "sample_machine = \<lparr>os_env = (\<lambda>_ _. plain_reply), os_trace = [], os_clock = 0, os_GOOS = ''linux'',
     os_json_error = (\<lambda>_. ''bad'')\<rparr>"


text \<open>
  C37: Saving is atomic whatever fails: until its last call only the temporary file is created, written
  or removed. A saving succeeds exactly when it ends by renaming that file to the archive, after no
  call that writes has failed; otherwise the archive of before is untouched.
\<close>

theorem persist_Save_atomic:
  "wp (persist_Save st key srcDir)
     (\<lambda>r s'. let dest = archivePath st key; tmp = dest @ ''.tmp''
        in \<exists>evs. case r of
             Inl _ \<Rightarrow>
               os_trace s' = evs @ os_trace s \<and> list_all (save_event tmp False) evs \<or>
               (\<exists>a e. os_trace s' = (Rename tmp dest, a) # evs @ os_trace s \<and> rp_err a = Some e \<and>
                  list_all (save_event tmp True) evs)
           | Inr _ \<Rightarrow>
               \<exists>a. os_trace s' = (Rename tmp dest, a) # evs @ os_trace s \<and> rp_err a = None \<and>
                  list_all (save_event tmp True) evs) s"
proof -
  let ?dest = "archivePath st key"
  let ?tmp = "?dest @ ''.tmp''"
  define Q :: "string + unit \<Rightarrow> 'a host_scheme \<Rightarrow> bool" where
    "Q r s' \<longleftrightarrow> (\<exists>evs. case r of
         Inl _ \<Rightarrow> os_trace s' = evs @ os_trace s \<and> list_all (save_event ?tmp False) evs \<or>
           (\<exists>a e. os_trace s' = (Rename ?tmp ?dest, a) # evs @ os_trace s \<and> rp_err a = Some e \<and>
              list_all (save_event ?tmp True) evs)
       | Inr _ \<Rightarrow> \<exists>a. os_trace s' = (Rename ?tmp ?dest, a) # evs @ os_trace s \<and> rp_err a = None \<and>
              list_all (save_event ?tmp True) evs)" for r s'
  have failed: "Q (Inl e) s'" if "since (save_event ?tmp False) s s'" for e s'
    using that by (auto simp: Q_def since_def)
  have rename: "wp (attempt (perform (Rename ?tmp ?dest)) (\<lambda>e. ret (Inl e)) (\<lambda>_. ret (Inr ()))) Q s1"
    if "since (save_event ?tmp True) s s1" for s1
    using that by (auto simp: wp_perform answer_def Q_def since_def split: option.splits)
  have tail: "wp (attempt (tarDir ?tmp srcDir srcDir)
      (\<lambda>e. abandon [Archive (TarClose ?tmp), Archive (ZstdClose ?tmp), CloseFile ?tmp] ?tmp
         (''persistence: tar '' @ srcDir @ '': '' @ e))
      (\<lambda>_. attempt (perform (Archive (TarClose ?tmp))) (abandon [Archive (ZstdClose ?tmp), CloseFile ?tmp] ?tmp)
        (\<lambda>_. attempt (perform (Archive (ZstdClose ?tmp))) (abandon [CloseFile ?tmp] ?tmp)
          (\<lambda>_. attempt (perform (CloseFile ?tmp)) (abandon [] ?tmp)
            (\<lambda>_. attempt (perform (Rename ?tmp ?dest)) (\<lambda>e. ret (Inl e)) (\<lambda>_. ret (Inr ()))))))) Q s1"
    if "since (save_event ?tmp True) s s1" for s1
    by (intro abandon_step saves_tarDir saves_perform rename) (simp_all add: that failed)
  have writer: "wp (attempt (perform (Archive (ZstdNewWriter ?tmp)))
      (\<lambda>e. do { _ \<leftarrow> perform_raw (CloseFile ?tmp); ret (Inl (''persistence: zstd writer: '' @ e)) })
      (\<lambda>_. k)) Q s1"
    if "since (save_event ?tmp True) s s1" "\<And>s2. since (save_event ?tmp True) s s2 \<Longrightarrow> wp k Q s2" for k s1
    unfolding wp_attempt
    by (rule saves_step [OF saves_perform that(1)])
      (simp_all add: wp_perform_raw that(2), rule failed, rule since_note_call, simp_all)
  have "wp (persist_Save st key srcDir) Q s"
    unfolding persist_Save_def Let_def
    by (subst wp_attempt, rule saves_step [where tmp = ?tmp, OF saves_perform since_refl])
      (simp, simp only: sum.case wp_ret, erule failed, simp only: sum.case, rule writer, assumption,
       erule tail)
  then show ?thesis
    unfolding Q_def Let_def .
qed

end
