(* ===== verification/WireGuard.thy ===== *)
theory WireGuard
  imports HostWorld GoNet
begin

text \<open>
  \<^verbatim>\<open>internal/wireguard/wireguard_linux.go\<close>: one WireGuard interface per tenant, configured through
  \<^verbatim>\<open>wgctrl\<close> and \<^verbatim>\<open>netlink\<close>, with the keys read from base64.
\<close>

section \<open>Base64\<close>

text \<open>
  \<^verbatim>\<open>base64.StdEncoding.DecodeString\<close>: line ends are passed over; four characters make three bytes; the
  last group may be cut by one or two \<^verbatim>\<open>=\<close>, after which nothing follows. An error is the position in
  the input the library reports. A character comes with its position; \<open>n\<close> is the input's length.
\<close>

definition b64_alphabet :: string where
  "b64_alphabet = ''ABCDEFGHIJKLMNOPQRSTUVWXYZabcdefghijklmnopqrstuvwxyz0123456789+/''"

definition sextet :: "char \<Rightarrow> nat option" where
  "sextet c =
     (let i = length (takeWhile (\<lambda>d. d \<noteq> c) b64_alphabet)
      in if i < 64 then Some i else None)"

definition b64_bytes :: "nat \<Rightarrow> nat list \<Rightarrow> u8 list" where
  "b64_bytes k ss =
     (let v = foldl (\<lambda>a x. 64 * a + x) 0 (take 4 (ss @ [0, 0]))
      in take k [of_nat (v div 65536), of_nat (v div 256 mod 256), of_nat (v mod 256)])"

text \<open>Nothing may follow the padding.\<close>

fun b64_end :: "(nat \<times> char) list \<Rightarrow> u8 list \<Rightarrow> nat + u8 list" where
  "b64_end [] bs = Inr bs"
| "b64_end ((i, c) # rest) bs = Inl i"

text \<open>One group with the sextets read so far.\<close>

function b64_decode :: "nat \<Rightarrow> nat list \<Rightarrow> (nat \<times> char) list \<Rightarrow> nat + u8 list" where
  "b64_decode n ss [] = (if ss = [] then Inr [] else Inl (n - length ss))"
| "b64_decode n ss ((i, c) # rest) =
     (case sextet c of
        Some x \<Rightarrow>
          if length ss = 3
          then map_sum id (\<lambda>bs. b64_bytes 3 (ss @ [x]) @ bs) (b64_decode n [] rest)
          else b64_decode n (ss @ [x]) rest
      | None \<Rightarrow>
          if c \<noteq> CHR ''='' \<or> length ss < 2 then Inl i
          else if length ss = 2
          then (case rest of
                  [] \<Rightarrow> Inl n
                | (j, d) # rest' \<Rightarrow>
                    if d \<noteq> CHR ''='' then Inl (j - 1) else b64_end rest' (b64_bytes 1 ss))
          else b64_end rest (b64_bytes 2 ss))"
  by pat_completeness auto
termination
  by (relation "measure (\<lambda>(n, ss, cs). length cs)") auto

definition DecodeString :: "string \<Rightarrow> nat + u8 list" where
  "DecodeString s =
     b64_decode (length s) [] (filter (\<lambda>(i, c). of_char c \<noteq> (10 :: nat) \<and> of_char c \<noteq> (13 :: nat)) (enumerate 0 s))"

definition parseKey :: "string \<Rightarrow> string + u8 list" where
  "parseKey b64 =
     (case DecodeString b64 of
        Inl i \<Rightarrow> Inl (''base64 decode: illegal base64 data at input byte '' @ show_nat i)
      | Inr raw \<Rightarrow>
          if length raw \<noteq> 32
          then Inl (''key must be 32 bytes, got '' @ show_nat (length raw))
          else Inr raw)"

section \<open>Networks as texts\<close>

text \<open>
  \<^verbatim>\<open>IPNet.String\<close>. The first longest run of two or more zero groups of an IPv6 address is written as
  two colons; an address with the IPv4 prefix is written as IPv4.
\<close>

definition show_hex :: "nat \<Rightarrow> string" where
  "show_hex n =
     (let ds = dropWhile (\<lambda>d. d = 0) [n div 4096 mod 16, n div 256 mod 16, n div 16 mod 16, n mod 16]
      in map (\<lambda>d. ''0123456789abcdef'' ! d) (if ds = [] then [0] else ds))"

definition ip_groups :: "u8 list \<Rightarrow> nat list" where
  "ip_groups ip = map (\<lambda>i. 256 * unat (ip ! (2 * i)) + unat (ip ! (2 * i + 1))) [0..<8]"

definition zero_run :: "nat list \<Rightarrow> nat \<Rightarrow> nat" where
  "zero_run gs i = length (takeWhile (\<lambda>g. g = 0) (drop i gs))"

definition show_ipv6 :: "u8 list \<Rightarrow> string" where
  "show_ipv6 ip =
     (let gs = ip_groups ip;
          longest = Max (set (map (zero_run gs) [0..<8]));
          i = length (takeWhile (\<lambda>j. zero_run gs j \<noteq> longest) [0..<8]);
          show = (\<lambda>xs. join_with '':'' (map show_hex xs))
      in if longest < 2 then show gs else show (take i gs) @ ''::'' @ show (drop (i + longest) gs))"

definition show_ipnet :: "IPNet \<Rightarrow> string" where
  "show_ipnet n =
     (case To4 (in_IP n) of
        Some ip4 \<Rightarrow> show_ipv4 ip4 @ ''/'' @
          show_nat (if length (in_IP n) = 4 then in_ones n else in_ones n - 96)
      | None \<Rightarrow> show_ipv6 (in_IP n) @ ''/'' @ show_nat (in_ones n))"

section \<open>The manager\<close>

record TenantTunnel =
  tt_TenantID :: string
  tt_Interface :: string
  tt_PrivateKey :: string
  tt_PeerPublicKey :: string
  tt_Endpoint :: string
  tt_AllowedIPs :: "string list"
  tt_ListenPort :: int

record WgManager =
  wm_tunnels :: "string \<rightharpoonup> TenantTunnel"

definition NewManager :: "('s, string + WgManager) io" where
  "NewManager =
     attempt (perform (Net WgOpen))
       (\<lambda>e. ret (Inl (''wireguard: open wgctrl: '' @ e)))
       (\<lambda>_. ret (Inr \<lparr>wm_tunnels = Map.empty\<rparr>))"

definition ensureInterface :: "string \<Rightarrow> ('s, string + unit) io" where
  "ensureInterface name = do {
     a \<leftarrow> perform_raw (Net (LinkByName name));
     if rp_err a = None then ret (Inr ())
     else do {
       b \<leftarrow> perform_raw (RunCommand [''ip'', ''link'', ''add'', name, ''type'', ''wireguard'']);
       case rp_err b of
         None \<Rightarrow> ret (Inr ())
       | Some e \<Rightarrow> ret (Inl (''ip link add '' @ name @ '' wireguard: '' @ e @ '' ('' @ rp_text b @ '')'')) } }"

fun parse_allowed :: "string list \<Rightarrow> string + IPNet list" where
  "parse_allowed [] = Inr []"
| "parse_allowed (cidr # cs) =
     (case ParseCIDR cidr of
        Inl e \<Rightarrow> Inl (''wireguard: parse allowed IP '' @ cidr @ '': '' @ e)
      | Inr n \<Rightarrow> (case parse_allowed cs of Inl e \<Rightarrow> Inl e | Inr ns \<Rightarrow> Inr (n # ns)))"

definition resolve_endpoint :: "string \<Rightarrow> ('s, string + string option) io" where
  "resolve_endpoint endpoint =
     (if endpoint = '''' then ret (Inr None)
      else attempt (perform (Net (ResolveUDPAddr endpoint)))
        (\<lambda>e. ret (Inl (''wireguard: resolve endpoint '' @ endpoint @ '': '' @ e)))
        (\<lambda>a. ret (Inr (Some (rp_text a)))))"

fun add_routes :: "string \<Rightarrow> nat \<Rightarrow> IPNet list \<Rightarrow> ('s, string + unit) io" where
  "add_routes name idx [] = ret (Inr ())"
| "add_routes name idx (n # ns) =
     attempt (perform (Net (RouteReplace idx (in_IP n) (in_ones n))))
       (\<lambda>e. ret (Inl (''wireguard: add route '' @ show_ipnet n @ '' via '' @ name @ '': '' @ e)))
       (\<lambda>_. add_routes name idx ns)"

text \<open>A port of zero or less is not set.\<close>

definition configure_tunnel ::
  "TenantTunnel \<Rightarrow> u8 list \<Rightarrow> u8 list \<Rightarrow> IPNet list \<Rightarrow> string option \<Rightarrow> ('s, string + unit) io" where
  "configure_tunnel t privKey peerPubKey nets endpoint =
     (let name = tt_Interface t
      in attempt (perform (Net (WgConfigure name privKey peerPubKey endpoint
             (map (\<lambda>n. (in_IP n, in_ones n)) nets) (max 0 (tt_ListenPort t)))))
           (\<lambda>e. ret (Inl (''wireguard: configure device '' @ name @ '': '' @ e)))
           (\<lambda>_. attempt (perform (Net (LinkByName name)))
             (\<lambda>e. ret (Inl (''wireguard: get link '' @ name @ '': '' @ e)))
             (\<lambda>link. attempt (perform (Net (LinkSetUp name)))
               (\<lambda>e. ret (Inl (''wireguard: link up '' @ name @ '': '' @ e)))
               (\<lambda>_. add_routes name (rp_num link) nets))))"

definition EnsureTunnel :: "WgManager \<Rightarrow> TenantTunnel \<Rightarrow> ('s, (string + unit) \<times> WgManager) io" where
  "EnsureTunnel m t =
     attempt (ensureInterface (tt_Interface t))
       (\<lambda>e. ret (Inl (''wireguard: ensure interface '' @ tt_Interface t @ '': '' @ e), m))
       (\<lambda>_. case parseKey (tt_PrivateKey t) of
          Inl e \<Rightarrow> ret (Inl (''wireguard: parse private key for tenant '' @ tt_TenantID t @ '': '' @ e), m)
        | Inr privKey \<Rightarrow> (case parseKey (tt_PeerPublicKey t) of
            Inl e \<Rightarrow> ret (Inl (''wireguard: parse peer public key for tenant '' @ tt_TenantID t @ '': '' @ e), m)
          | Inr peerPubKey \<Rightarrow> (case parse_allowed (tt_AllowedIPs t) of
              Inl e \<Rightarrow> ret (Inl e, m)
            | Inr nets \<Rightarrow>
                attempt (resolve_endpoint (tt_Endpoint t)) (\<lambda>e. ret (Inl e, m))
                  (\<lambda>endpoint. attempt (configure_tunnel t privKey peerPubKey nets endpoint)
                     (\<lambda>e. ret (Inl e, m))
                     (\<lambda>_. ret (Inr (), m\<lparr>wm_tunnels := (wm_tunnels m)(tt_TenantID t \<mapsto> t)\<rparr>))))))"

definition RemoveTunnel :: "WgManager \<Rightarrow> string \<Rightarrow> ('s, (string + unit) \<times> WgManager) io" where
  "RemoveTunnel m tenantID =
     (case wm_tunnels m tenantID of
        None \<Rightarrow> ret (Inl (''wireguard: no tunnel for tenant '' @ tenantID), m)
      | Some t \<Rightarrow>
          let m' = m\<lparr>wm_tunnels := (wm_tunnels m)(tenantID := None)\<rparr>
          in attempt (perform (Net (LinkByName (tt_Interface t))))
               (\<lambda>e. ret (Inl (''wireguard: get link '' @ tt_Interface t @ '': '' @ e), m'))
               (\<lambda>_. do { r \<leftarrow> perform (Net (LinkDel (tt_Interface t)));
                         ret (map_sum id (\<lambda>_. ()) r, m') }))"

definition wg_Stats :: "WgManager \<Rightarrow> string \<Rightarrow> ('s, string + reply) io" where
  "wg_Stats m tenantID =
     (case wm_tunnels m tenantID of
        None \<Rightarrow> ret (Inl (''wireguard: no tunnel for tenant '' @ tenantID))
      | Some t \<Rightarrow> perform (Net (WgDevice (tt_Interface t))))"

definition wg_Close :: "('s, string + unit) io" where
  "wg_Close = do { r \<leftarrow> perform (Net WgClose); ret (map_sum id (\<lambda>_. ()) r) }"

section \<open>Keys\<close>

text \<open>The encoding that \<^verbatim>\<open>wg\<close> prints keys in, for reference.\<close>

definition b64_char :: "nat \<Rightarrow> char" where
  "b64_char i = b64_alphabet ! i"

definition sextets :: "nat \<Rightarrow> nat list" where
  "sextets v = [v div 262144 mod 64, v div 4096 mod 64, v div 64 mod 64, v mod 64]"

definition join_bytes :: "u8 \<Rightarrow> u8 \<Rightarrow> u8 \<Rightarrow> nat" where
  "join_bytes a b c = 65536 * unat a + 256 * unat b + unat c"

fun b64_encode :: "u8 list \<Rightarrow> string" where
  "b64_encode [] = []"
| "b64_encode [a] = map b64_char (take 2 (sextets (join_bytes a 0 0))) @ ''==''"
| "b64_encode [a, b] = map b64_char (take 3 (sextets (join_bytes a b 0))) @ ''=''"
| "b64_encode (a # b # c # bs) = map b64_char (sextets (join_bytes a b c)) @ b64_encode bs"

lemma sextet_b64_char: "i < 64 \<Longrightarrow> sextet (b64_char i) = Some i"
proof -
  have "list_all (\<lambda>i. sextet (b64_char i) = Some i) [0..<64]"
    by code_simp
  then show "i < 64 \<Longrightarrow> ?thesis"
    by (simp add: list_all_iff)
qed

lemma sextets_value:
  assumes "v < 16777216"
  shows "foldl (\<lambda>a x. 64 * a + x) 0 (sextets v) = v"
proof -
  have "v div 4096 = 64 * (v div 262144) + v div 4096 mod 64"
    "v div 64 = 64 * (v div 4096) + v div 64 mod 64" "v = 64 * (v div 64) + v mod 64"
    using div_mult2_eq [of v 4096 64] div_mult2_eq [of v 64 64] by simp_all
  moreover have "v div 262144 mod 64 = v div 262144"
    using assms by (intro mod_less) auto
  ultimately show ?thesis
    unfolding sextets_def foldl.simps by (simp only: mult_0_right add_0)
qed

lemma byte_lt: "unat (b :: u8) < 256"
  using unsigned_less [of b, where ?'a = nat] by simp

lemma join_bytes_lt: "join_bytes a b c < 16777216"
  using byte_lt [of a] byte_lt [of b] byte_lt [of c] by (simp add: join_bytes_def)

lemma join_bytes_parts:
  "join_bytes a b c div 65536 = unat a" "join_bytes a b c div 256 mod 256 = unat b"
  "join_bytes a b c mod 256 = unat c"
proof -
  note lt = byte_lt [of a] byte_lt [of b] byte_lt [of c]
  show "join_bytes a b c div 65536 = unat a"
    unfolding join_bytes_def by (rule div_nat_eqI) (use lt in auto)
  have "join_bytes a b c div 256 = 256 * unat a + unat b"
    unfolding join_bytes_def by (rule div_nat_eqI) (use lt in auto)
  then show "join_bytes a b c div 256 mod 256 = unat b"
    using lt by simp
  have "join_bytes a b c = 256 * (256 * unat a + unat b) + unat c"
    by (simp add: join_bytes_def)
  then have "join_bytes a b c mod 256 = unat c mod 256"
    by (simp only: mod_mult_self4)
  then show "join_bytes a b c mod 256 = unat c"
    using lt by simp
qed

lemma b64_bytes_value:
  "take 4 (ss @ [0, 0]) = sextets (join_bytes a b c) \<Longrightarrow> b64_bytes k ss = take k [a, b, c]"
  by (simp only: b64_bytes_def Let_def sextets_value [OF join_bytes_lt] join_bytes_parts) simp

text \<open>A cut group: the sextets left out are zero.\<close>

lemma b64_bytes_groups:
  "b64_bytes 3 (sextets (join_bytes a b c)) = [a, b, c]"
  "b64_bytes 2 (take 3 (sextets (join_bytes a b 0))) = [a, b]"
  "b64_bytes 1 (take 2 (sextets (join_bytes a 0 0))) = [a]"
proof -
  have m: "join_bytes a b 0 = 64 * (4 * (256 * unat a + unat b))" for b
    by (simp add: join_bytes_def)
  then have z: "join_bytes a b 0 mod 64 = 0" for b
    by simp
  have d: "join_bytes a 0 0 div 64 mod 64 = 0"
    unfolding m by simp
  show "b64_bytes 3 (sextets (join_bytes a b c)) = [a, b, c]"
    using b64_bytes_value [of "sextets (join_bytes a b c)" a b c 3] by (simp add: sextets_def)
  show "b64_bytes 2 (take 3 (sextets (join_bytes a b 0))) = [a, b]"
    using b64_bytes_value [of "take 3 (sextets (join_bytes a b 0))" a b 0 2] z by (simp add: sextets_def)
  show "b64_bytes 1 (take 2 (sextets (join_bytes a 0 0))) = [a]"
    using b64_bytes_value [of "take 2 (sextets (join_bytes a 0 0))" a 0 0 1] z d by (simp add: sextets_def)
qed

lemma sextets_lt: "\<forall>i \<in> set (sextets v). i < 64"
  by (simp add: sextets_def)

lemma sextet_pad: "sextet (CHR ''='') = None"
  by code_simp

text \<open>Reading the characters of a group, one sextet after the other.\<close>

lemma decode_char:
  "x < 64 \<Longrightarrow> length ss < 3 \<Longrightarrow> b64_decode n ss ((i, b64_char x) # rest) = b64_decode n (ss @ [x]) rest"
  by (subst b64_decode.simps(2)) (simp add: sextet_b64_char del: b64_decode.simps)

lemma decode_last:
  "x < 64 \<Longrightarrow> length ss = 3 \<Longrightarrow> b64_decode n ss ((i, b64_char x) # rest) =
     map_sum id (\<lambda>bs. b64_bytes 3 (ss @ [x]) @ bs) (b64_decode n [] rest)"
  by (subst b64_decode.simps(2)) (simp add: sextet_b64_char del: b64_decode.simps)

lemma decode_pad:
  "length ss = 2 \<Longrightarrow> b64_decode n ss [(i, CHR ''=''), (j, CHR ''='')] = Inr (b64_bytes 1 ss)"
  "length ss = 3 \<Longrightarrow> b64_decode n ss [(i, CHR ''='')] = Inr (b64_bytes 2 ss)"
  by (subst b64_decode.simps(2), simp add: sextet_pad del: b64_decode.simps)+

lemma decode_group:
  "b64_decode n [] (enumerate k (map b64_char (sextets v)) @ rest) =
   map_sum id (\<lambda>bs. b64_bytes 3 (sextets v) @ bs) (b64_decode n [] rest)"
  using sextets_lt [of v] by (simp add: sextets_def decode_char decode_last del: b64_decode.simps)

lemma take_sextets:
  "take 2 (sextets v) = [v div 262144 mod 64, v div 4096 mod 64]"
  "take 3 (sextets v) = [v div 262144 mod 64, v div 4096 mod 64, v div 64 mod 64]"
  by (simp_all add: sextets_def)

lemma decode_encode: "b64_decode n [] (enumerate k (b64_encode bs)) = Inr bs"
proof (induction bs arbitrary: k rule: b64_encode.induct)
  case (2 a)
  have "x < 64 \<Longrightarrow> y < 64 \<Longrightarrow> b64_decode n [] (enumerate k (map b64_char [x, y] @ ''=='')) =
      Inr (b64_bytes 1 [x, y])" for x y
    by (simp add: decode_char decode_pad del: b64_decode.simps)
  from this [of "join_bytes a 0 0 div 262144 mod 64" "join_bytes a 0 0 div 4096 mod 64"]
  show ?case
    unfolding b64_encode.simps take_sextets [symmetric] b64_bytes_groups by simp
next
  case (3 a b)
  have "x < 64 \<Longrightarrow> y < 64 \<Longrightarrow> z < 64 \<Longrightarrow> b64_decode n [] (enumerate k (map b64_char [x, y, z] @ ''='')) =
      Inr (b64_bytes 2 [x, y, z])" for x y z
    by (simp add: decode_char decode_pad del: b64_decode.simps)
  from this [of "join_bytes a b 0 div 262144 mod 64" "join_bytes a b 0 div 4096 mod 64"
      "join_bytes a b 0 div 64 mod 64"]
  show ?case
    unfolding b64_encode.simps take_sextets [symmetric] b64_bytes_groups by simp
next
  case (4 a b c bs)
  show ?case
    by (simp add: enumerate_append_eq decode_group 4 b64_bytes_groups(1) del: b64_decode.simps)
qed simp

lemma b64_char_text: "i < 64 \<Longrightarrow> of_char (b64_char i) \<noteq> (10 :: nat) \<and> of_char (b64_char i) \<noteq> (13 :: nat)"
proof -
  have "list_all (\<lambda>i. of_char (b64_char i) \<noteq> (10 :: nat) \<and> of_char (b64_char i) \<noteq> (13 :: nat)) [0..<64]"
    by code_simp
  then show "i < 64 \<Longrightarrow> ?thesis"
    by (simp add: list_all_iff)
qed

lemma encode_text: "\<forall>c \<in> set (b64_encode bs). of_char c \<noteq> (10 :: nat) \<and> of_char c \<noteq> (13 :: nat)"
proof (induction bs rule: b64_encode.induct)
  case (2 a)
  then show ?case
    using sextets_lt [of "join_bytes a 0 0"] by (auto simp: b64_char_text dest!: in_set_takeD)
next
  case (3 a b)
  then show ?case
    using sextets_lt [of "join_bytes a b 0"] by (auto simp: b64_char_text dest!: in_set_takeD)
next
  case (4 a b c bs)
  then show ?case
    using sextets_lt [of "join_bytes a b c"] by (auto simp: b64_char_text)
qed simp

lemma DecodeString_encode: "DecodeString (b64_encode bs) = Inr bs"
proof -
  have "filter (\<lambda>(i, c). of_char c \<noteq> (10 :: nat) \<and> of_char c \<noteq> (13 :: nat)) (enumerate 0 (b64_encode bs)) =
      enumerate 0 (b64_encode bs)"
    using encode_text [of bs] by (auto intro!: filter_True simp: in_set_enumerate_eq)
  then show ?thesis
    by (simp add: DecodeString_def decode_encode)
qed

section \<open>What a tunnel has been given\<close>

text \<open>Between two states the call was made and succeeded.\<close>

definition performed :: "os_call \<Rightarrow> 's host_scheme \<Rightarrow> 's host_scheme \<Rightarrow> bool" where
  "performed c s s' \<longleftrightarrow> (\<exists>evs a. os_trace s' = evs @ os_trace s \<and> (c, a) \<in> set evs \<and> rp_err a = None)"

definition later :: "'s host_scheme \<Rightarrow> 's host_scheme \<Rightarrow> bool" where
  "later s s' \<longleftrightarrow> (\<exists>evs. os_trace s' = evs @ os_trace s)"

lemma later_refl [simp]: "later s s"
  by (simp add: later_def)

lemma later_trans [trans]: "later s s1 \<Longrightarrow> later s1 s2 \<Longrightarrow> later s s2"
  by (auto simp: later_def)

lemma later_note_call [simp]: "later s s1 \<Longrightarrow> later s (note_call c s1)"
  by (auto simp: later_def)

lemma performed_later: "performed c s s1 \<Longrightarrow> later s1 s2 \<Longrightarrow> performed c s s2"
  by (fastforce simp: performed_def later_def)

lemma performed_from: "performed c s1 s2 \<Longrightarrow> later s s1 \<Longrightarrow> performed c s s2"
  by (fastforce simp: performed_def later_def)

lemma performed_note_call: "later s s1 \<Longrightarrow> rp_err (os_env s1 (os_trace s1) c) = None \<Longrightarrow> performed c s (note_call c s1)"
  by (auto simp: performed_def later_def)

lemma perform_step:
  assumes "later s s1"
    and "\<And>e s2. later s s2 \<Longrightarrow> Q (Inl e) s2"
    and "\<And>a s2. later s s2 \<Longrightarrow> later s1 s2 \<Longrightarrow> performed c s s2 \<Longrightarrow> Q (Inr a) s2"
  shows "wp (perform c) Q s1"
  using assms by (auto simp: wp_perform answer_def performed_note_call split: option.split)

lemma add_routes_wp:
  assumes "later s s1"
  shows "wp (add_routes name idx nets) (\<lambda>r s'. later s1 s' \<and>
      (is_ok r \<longrightarrow> list_all (\<lambda>n. performed (Net (RouteReplace idx (in_IP n) (in_ones n))) s s') nets)) s1"
  using assms
proof (induction nets arbitrary: s1)
  case (Cons n ns)
  show ?case
    unfolding add_routes.simps wp_attempt
  proof (rule perform_step [OF later_refl], goal_cases)
    case (1 e s2)
    then show ?case by simp
  next
    case (2 a s2)
    have s2: "later s s2" using Cons.prems 2(1) by (rule later_trans)
    have "performed (Net (RouteReplace idx (in_IP n) (in_ones n))) s s2"
      using 2(3) Cons.prems by (rule performed_from)
    with 2(1) show ?case
      unfolding sum.case
      by (intro wp_mono [OF Cons.IH [OF s2]]) (auto intro: later_trans performed_later)
  qed
qed simp

text \<open>All that a tunnel set up has been given.\<close>

definition tunnel_up :: "TenantTunnel \<Rightarrow> 's host_scheme \<Rightarrow> 's host_scheme \<Rightarrow> bool" where
  "tunnel_up t s s' \<longleftrightarrow>
     (\<exists>privKey peerPubKey nets endpoint idx.
        parseKey (tt_PrivateKey t) = Inr privKey \<and> parseKey (tt_PeerPublicKey t) = Inr peerPubKey \<and>
        parse_allowed (tt_AllowedIPs t) = Inr nets \<and>
        performed (Net (WgConfigure (tt_Interface t) privKey peerPubKey endpoint
          (map (\<lambda>n. (in_IP n, in_ones n)) nets) (max 0 (tt_ListenPort t)))) s s' \<and>
        performed (Net (LinkSetUp (tt_Interface t))) s s' \<and>
        list_all (\<lambda>n. performed (Net (RouteReplace idx (in_IP n) (in_ones n))) s s') nets)"

lemma configure_tunnel_wp:
  assumes "later s s1" and "parseKey (tt_PrivateKey t) = Inr privKey"
    and "parseKey (tt_PeerPublicKey t) = Inr peerPubKey" and "parse_allowed (tt_AllowedIPs t) = Inr nets"
  shows "wp (configure_tunnel t privKey peerPubKey nets endpoint) (\<lambda>r s'. is_ok r \<longrightarrow> tunnel_up t s s') s1"
  unfolding configure_tunnel_def Let_def wp_attempt
proof (rule perform_step [OF assms(1)], goal_cases)
  case (2 a s2)
  note conf = 2
  show ?case
    unfolding sum.case wp_attempt
  proof (rule perform_step [OF conf(1)], goal_cases)
    case (2 link s3)
    note link = 2
    show ?case
      unfolding sum.case wp_attempt
    proof (rule perform_step [OF link(1)], goal_cases)
      case (2 b s4)
      have up: "performed (Net (LinkSetUp (tt_Interface t))) s s4" by (rule 2(3))
      have "performed (Net (WgConfigure (tt_Interface t) privKey peerPubKey endpoint
          (map (\<lambda>n. (in_IP n, in_ones n)) nets) (max 0 (tt_ListenPort t)))) s s4"
        by (rule performed_later [OF conf(3) later_trans [OF link(2) 2(2)]])
      with up show ?case
        unfolding sum.case
        by (intro wp_mono [OF add_routes_wp [OF 2(1)]])
          (auto simp: tunnel_up_def assms intro: performed_later)
    qed simp
  qed simp
qed simp

lemma calls_later:
  assumes "calls_in P m" and "later s0 s"
  shows "wp m (\<lambda>r s'. later s0 s') s"
proof -
  have "wp m (\<lambda>r s'. \<exists>evs. os_trace s' = evs @ os_trace s \<and> list_all P evs) s"
    using assms(1) unfolding calls_in_def by blast
  then show ?thesis
    by (rule wp_mono) (use assms(2) in \<open>auto simp: later_def\<close>)
qed

lemma ensureInterface_calls: "calls_in (\<lambda>_. True) (ensureInterface name)"
  unfolding ensureInterface_def by (intro calls_rules) simp_all

lemma resolve_endpoint_calls: "calls_in (\<lambda>_. True) (resolve_endpoint endpoint)"
  unfolding resolve_endpoint_def by (intro calls_rules) simp_all

lemma EnsureTunnel_wp:
  "wp (EnsureTunnel m t) (\<lambda>(r, m') s'. case r of
       Inl _ \<Rightarrow> m' = m
     | Inr _ \<Rightarrow> m' = m\<lparr>wm_tunnels := (wm_tunnels m)(tt_TenantID t \<mapsto> t)\<rparr> \<and> tunnel_up t s s') s"
  unfolding EnsureTunnel_def wp_attempt
  apply (rule wp_mono [OF calls_later [OF ensureInterface_calls later_refl]])
  apply (auto split: sum.split)
  apply (rule wp_mono [OF calls_later [OF resolve_endpoint_calls]], assumption)
  apply (auto split: sum.split)
  apply (rule wp_mono [OF configure_tunnel_wp], assumption+)
  apply (auto split: sum.split)
  done

text \<open>
  Removing a tunnel forgets it first: when the interface then cannot be deleted, the tunnel stays up
  and a second removal only says that there is none.
\<close>

lemma RemoveTunnel_forgets: "wm_tunnels (snd (fst (run_state (RemoveTunnel m tenantID) s))) tenantID = None"
proof -
  have "wp (RemoveTunnel m tenantID) (\<lambda>(r, m') s'. wm_tunnels m' tenantID = None) s"
    unfolding RemoveTunnel_def
    by (auto simp: wp_perform answer_def Let_def split: option.splits)
  then show ?thesis
    by (simp add: wp_def split_beta)
qed

section \<open>Properties\<close>

text \<open>
  C39: A key of 32 bytes written in base64, as WireGuard's tools print it, is read back as those bytes;
  of bytes of another number reading says how many they are.
\<close>

theorem wg_key_roundtrip:
  "parseKey (b64_encode bs) =
   (if length bs = 32 then Inr bs else Inl (''key must be 32 bytes, got '' @ show_nat (length bs)))"
  by (simp add: parseKey_def DecodeString_encode)

text \<open>
  C38: Setting up a tenant's tunnel on a machine where anything may fail: it is recorded only when all
  of it has been done, that is, both keys and every allowed block were read, the device was configured
  with just these, brought up, and given a route for each block; on an error the table of tunnels is
  as it was.
\<close>

theorem wg_EnsureTunnel_complete:
  "case run_state (EnsureTunnel m t) s of
     ((Inl e, m'), s') \<Rightarrow> m' = m
   | ((Inr u, m'), s') \<Rightarrow>
       m' = m\<lparr>wm_tunnels := (wm_tunnels m)(tt_TenantID t \<mapsto> t)\<rparr> \<and> tunnel_up t s s'"
  using EnsureTunnel_wp [of m t s] by (auto simp: wp_def split: prod.splits sum.splits)

end
