(* ===== verification/Telemetry.thy ===== *)
theory Telemetry
  imports HostAgent
begin

text \<open>
  What the services report: \<^verbatim>\<open>internal/log\<close>, \<^verbatim>\<open>internal/tracing\<close> and \<^verbatim>\<open>internal/metrics\<close>. The libraries
  behind them (\<^verbatim>\<open>zap\<close>, \<^verbatim>\<open>OpenTelemetry\<close>, \<^verbatim>\<open>prometheus\<close>) are arguments; what is modelled is when the
  process's logger and tracer are set, and the table of metrics, against which every observation
  of a host agent is checked.
\<close>

section \<open>Logging\<close>

text \<open>
  What the code uses of \<^verbatim>\<open>zap\<close>: levels, the two preset configurations, and the building of a logger.
\<close>

record ('lvl, 'cfg, 'logger) zap =
  z_ParseLevel :: "string \<Rightarrow> string + 'lvl"
  z_NewDevelopmentConfig :: 'cfg
  z_NewProductionConfig :: 'cfg
  z_with_level :: "'lvl \<Rightarrow> 'cfg \<Rightarrow> 'cfg"
  z_Build :: "'cfg \<Rightarrow> string + 'logger"

text \<open>
  \<^verbatim>\<open>Init\<close> sets the global logger \<^verbatim>\<open>L\<close>, which is nil before. \<^verbatim>\<open>MustInit\<close> panics with the error.
\<close>

definition log_Init ::
  "('lvl, 'cfg, 'logger) zap \<Rightarrow> string \<Rightarrow> string \<Rightarrow> 'logger option \<Rightarrow>
   (string + unit) \<times> 'logger option" where
  "log_Init z level format L =
     (case z_ParseLevel z level of
        Inl err \<Rightarrow> (Inl (''log: invalid level '' @ quote level @ '': '' @ err), L)
      | Inr lvl \<Rightarrow>
          let cfg = (if format = ''console'' then z_NewDevelopmentConfig z else z_NewProductionConfig z)
          in case z_Build z (z_with_level z lvl cfg) of
               Inl err \<Rightarrow> (Inl (''log: build logger: '' @ err), L)
             | Inr logger \<Rightarrow> (Inr (), Some logger))"

definition log_MustInit ::
  "('lvl, 'cfg, 'logger) zap \<Rightarrow> string \<Rightarrow> string \<Rightarrow> 'logger option \<Rightarrow> string + 'logger option" where
  "log_MustInit z level format L =
     (case log_Init z level format L of (Inl err, _) \<Rightarrow> Inl err | (Inr _, L') \<Rightarrow> Inr L')"

lemma log_Init_error: "log_Init z level format L = (Inl e, L') \<Longrightarrow> L' = L"
  by (auto simp: log_Init_def Let_def split: sum.splits)

text \<open>A process that gets past \<^verbatim>\<open>MustInit\<close> has a logger.\<close>

lemma log_MustInit_logger: "log_MustInit z level format L = Inr L' \<Longrightarrow> \<exists>logger. L' = Some logger"
  by (auto simp: log_MustInit_def log_Init_def Let_def split: sum.splits prod.splits)

section \<open>Tracing\<close>

text \<open>
  What the code uses of \<^verbatim>\<open>OpenTelemetry\<close>: the exporter and the resource, each of which may fail, the
  provider made of both, and the tracers of the global provider, which is nil before one is set.
\<close>

record ('exp, 'res, 'prov, 'tracer, 'ctx, 'span) otel =
  ot_exporter :: "string \<Rightarrow> string + 'exp"
  ot_resource :: "string \<Rightarrow> string + 'res"
  ot_provider :: "'exp \<Rightarrow> 'res \<Rightarrow> 'prov"
  ot_Tracer :: "'prov option \<Rightarrow> string \<Rightarrow> 'tracer"
  ot_Start :: "'tracer \<Rightarrow> 'ctx \<Rightarrow> string \<Rightarrow> 'ctx \<times> 'span"
  ot_SpanFromContext :: "'ctx \<Rightarrow> 'span"

text \<open>The global provider, and the tracer of the package.\<close>

record ('prov, 'tracer) tracing =
  tr_global :: "'prov option"
  tr_tracer :: "'tracer option"

definition tracing_Init ::
  "('exp, 'res, 'prov, 'tracer, 'ctx, 'span) otel \<Rightarrow> string \<Rightarrow> string \<Rightarrow>
   ('prov, 'tracer) tracing \<Rightarrow> (string + unit) \<times> ('prov, 'tracer) tracing" where
  "tracing_Init ot serviceName endpoint g =
     (case ot_exporter ot endpoint of
        Inl err \<Rightarrow> (Inl (''tracing: create OTLP exporter: '' @ err), g)
      | Inr xp \<Rightarrow>
          (case ot_resource ot serviceName of
             Inl err \<Rightarrow> (Inl (''tracing: create resource: '' @ err), g)
           | Inr res \<Rightarrow>
               let tp = Some (ot_provider ot xp res)
               in (Inr (), \<lparr>tr_global = tp, tr_tracer = Some (ot_Tracer ot tp serviceName)\<rparr>)))"

definition tracing_Start ::
  "('exp, 'res, 'prov, 'tracer, 'ctx, 'span) otel \<Rightarrow> ('prov, 'tracer) tracing \<Rightarrow>
   'ctx \<Rightarrow> string \<Rightarrow> 'ctx \<times> 'span" where
  "tracing_Start ot g ctx spanName =
     (case tr_tracer g of
        None \<Rightarrow> ot_Start ot (ot_Tracer ot (tr_global g) ''noop'') ctx spanName
      | Some tracer \<Rightarrow> ot_Start ot tracer ctx spanName)"

definition tracing_FromContext ::
  "('exp, 'res, 'prov, 'tracer, 'ctx, 'span) otel \<Rightarrow> 'ctx \<Rightarrow> 'span" where
  "tracing_FromContext ot ctx = ot_SpanFromContext ot ctx"

text \<open>
  A process whose tracing could not be set up goes on as one that never tried: its spans come from
  the tracer named noop.
\<close>

lemma tracing_Init_error: "tracing_Init ot sn ep g = (Inl e, g') \<Longrightarrow> g' = g"
  by (auto simp: tracing_Init_def Let_def split: sum.splits)

lemma tracing_Start_after_failure:
  "tr_tracer g = None \<Longrightarrow> tracing_Init ot sn ep g = (Inl e, g') \<Longrightarrow>
   tracing_Start ot g' ctx name = ot_Start ot (ot_Tracer ot (tr_global g) ''noop'') ctx name"
  by (drule tracing_Init_error) (simp add: tracing_Start_def)

lemma tracing_Start_after_Init:
  "tracing_Init ot sn ep g = (Inr u, g') \<Longrightarrow>
   tracing_Start ot g' ctx name = ot_Start ot (ot_Tracer ot (tr_global g') sn) ctx name"
  by (auto simp: tracing_Init_def tracing_Start_def Let_def split: sum.splits)

section \<open>The metrics\<close>

text \<open>
  A metric has a name, a help text and the names of its labels; a histogram has the upper bounds of
  its buckets. \<open>defBuckets\<close> are the library's own bounds, \<^verbatim>\<open>prometheus.DefBuckets\<close>.
\<close>

datatype metric_kind = Histogram "f64 list" | Counter | Gauge

record metric =
  me_Name :: string
  me_Help :: string
  me_Kind :: metric_kind
  me_Labels :: "string list"

definition SandboxColdStartDuration :: "f64 list \<Rightarrow> metric" where
  "SandboxColdStartDuration defBuckets =
     \<lparr>me_Name = ''sandbox_cold_start_duration_seconds'',
      me_Help = ''Wall-clock time from PlaceSandbox call to VM kernel ready (cold boot).'',
      me_Kind = Histogram defBuckets, me_Labels = [''tenant_id'', ''image'', ''region'']\<rparr>"

definition SandboxWarmStartDuration :: metric where
  "SandboxWarmStartDuration =
     \<lparr>me_Name = ''sandbox_warm_start_duration_seconds'',
      me_Help = ''Wall-clock time from PlaceSandbox call to VM ready via snapshot restore.'',
      me_Kind = Histogram (map f64_of [5 / 1000, 1 / 100, 25 / 1000, 5 / 100, 75 / 1000, 1 / 10,
                                       25 / 100, 5 / 10]),
      me_Labels = [''tenant_id'', ''image'', ''region'']\<rparr>"

definition SandboxExecDuration :: "f64 list \<Rightarrow> metric" where
  "SandboxExecDuration defBuckets =
     \<lparr>me_Name = ''sandbox_exec_duration_seconds'',
      me_Help = ''Wall-clock time from exec request to process exit inside the VM.'',
      me_Kind = Histogram defBuckets, me_Labels = [''tenant_id'', ''image'']\<rparr>"

definition SandboxOOMKillsTotal :: metric where
  "SandboxOOMKillsTotal =
     \<lparr>me_Name = ''sandbox_oom_kills_total'',
      me_Help = ''Number of times a sandbox was OOM-killed by the kernel.'',
      me_Kind = Counter, me_Labels = [''tenant_id'', ''image'']\<rparr>"

definition SandboxEgressBytesTotal :: metric where
  "SandboxEgressBytesTotal =
     \<lparr>me_Name = ''sandbox_egress_bytes_total'',
      me_Help = ''Total outbound bytes from sandboxes (measured at the veth/TC layer).'',
      me_Kind = Counter, me_Labels = [''tenant_id'']\<rparr>"

definition VMPoolIdleCount :: metric where
  "VMPoolIdleCount =
     \<lparr>me_Name = ''vm_pool_idle_count'',
      me_Help = ''Number of warm idle VMs in the pre-boot pool on this host.'',
      me_Kind = Gauge, me_Labels = [''host'']\<rparr>"

definition VMPoolActiveCount :: metric where
  "VMPoolActiveCount =
     \<lparr>me_Name = ''vm_pool_active_count'',
      me_Help = ''Number of currently active (running) VMs on this host.'',
      me_Kind = Gauge, me_Labels = [''host'']\<rparr>"

definition SchedulerQueueDepth :: metric where
  "SchedulerQueueDepth =
     \<lparr>me_Name = ''scheduler_queue_depth'',
      me_Help = ''Current number of sandbox placement requests waiting in the scheduler queue.'',
      me_Kind = Gauge, me_Labels = []\<rparr>"

definition SchedulerDecisionLatency :: metric where
  "SchedulerDecisionLatency =
     \<lparr>me_Name = ''scheduler_decision_latency_ms'',
      me_Help = ''Time in milliseconds for the scheduler to select a host for a placement request.'',
      me_Kind = Histogram (map f64_of [1 / 10, 5 / 10, 1, 2, 5, 10, 25, 50, 100]),
      me_Labels = []\<rparr>"

definition all_metrics :: "f64 list \<Rightarrow> metric list" where
  "all_metrics defBuckets =
     [SandboxColdStartDuration defBuckets, SandboxWarmStartDuration, SandboxExecDuration defBuckets,
      SandboxOOMKillsTotal, SandboxEgressBytesTotal, VMPoolIdleCount, VMPoolActiveCount,
      SchedulerQueueDepth, SchedulerDecisionLatency]"

lemmas metric_defs = SandboxColdStartDuration_def SandboxWarmStartDuration_def
  SandboxExecDuration_def SandboxOOMKillsTotal_def SandboxEgressBytesTotal_def VMPoolIdleCount_def
  VMPoolActiveCount_def SchedulerQueueDepth_def SchedulerDecisionLatency_def

text \<open>No name is registered twice, which would panic at start-up.\<close>

lemma metric_names_distinct: "distinct (map me_Name (all_metrics db))"
  by (simp add: all_metrics_def metric_defs)


section \<open>The observations of a host agent\<close>

text \<open>
  \<^verbatim>\<open>WithLabelValues\<close> panics when the number of values is not that of the metric's labels. An
  observation is admissible when it names a registered metric and gives each of its labels a value.
\<close>

definition observable :: "f64 list \<Rightarrow> event \<Rightarrow> bool" where
  "observable db ev =
     (case fst ev of
        Metric name values x \<Rightarrow>
          list_ex (\<lambda>m. me_Name m = name \<and> length (me_Labels m) = length values) (all_metrics db)
      | _ \<Rightarrow> True)"

named_theorems observed

lemma observable_agent [simp]:
  "observable db (Metric ''vm_pool_active_count'' [h] x, a)"
  "observable db (Metric ''vm_pool_idle_count'' [h] x, a)"
  "observable db (Metric ''sandbox_warm_start_duration_seconds'' [t, i, r] x, a)"
  "observable db (Metric ''sandbox_cold_start_duration_seconds'' [t, i, r] x, a)"
  "observable db (Metric ''sandbox_exec_duration_seconds'' [t, i] x, a)"
  "observable db (Metric ''sandbox_oom_kills_total'' [t, i] x, a)"
  by (simp_all add: observable_def all_metrics_def metric_defs)

lemma observable_poll [simp]: "observable db (Stat p, a)" "observable db (Sleep d, a)"
  by (simp_all add: observable_def)

lemma calls_the_state [calls_rules]: "calls_in P the_state"
  by (simp add: calls_in_def)

lemma calls_now [calls_rules]: "calls_in P now"
  unfolding now_def by (intro calls_rules)

lemma calls_new_context [calls_rules]: "calls_in P new_context"
  unfolding new_context_def by (intro calls_rules)

lemma calls_change_table [calls_rules]:
  "calls_in P (change (ag_sandboxes_update f))" "calls_in P (change (ag_watching_update g))"
  by (simp_all add: calls_in_def)

lemma calls_sum [calls_rules]:
  "(\<And>x. calls_in P (f x)) \<Longrightarrow> (\<And>x. calls_in P (g x)) \<Longrightarrow>
   calls_in P (case y of Inl x \<Rightarrow> f x | Inr x \<Rightarrow> g x)"
  by (cases y) simp_all

lemma calls_pair [calls_rules]: "(\<And>a b. calls_in P (f a b)) \<Longrightarrow> calls_in P (case p of (a, b) \<Rightarrow> f a b)"
  by (cases p) simp

lemma calls_let [calls_rules]: "calls_in P (f x) \<Longrightarrow> calls_in P (Let x f)"
  by simp

lemma observed_mkdirs [observed]: "calls_in (observable db) (mkdir_all ds)"
  by (induction ds) (auto intro!: calls_rules simp: observable_def)

lemma observed_overlay [observed]:
  "calls_in (observable db) (overlay_Setup oc)" "calls_in (observable db) (overlay_Teardown oc)"
  unfolding overlay_Setup_def overlay_Teardown_def mountOverlay_def unmountOverlay_def verifyEmptyUpper_def
  by (intro calls_rules observed; simp add: observable_def)+

lemma observed_lower [observed]: "calls_in (observable db) (overlayLowerDir p)"
  unfolding overlayLowerDir_def mount_lower_def isMountedAt_def path_Abs_def
  by (intro calls_rules observed; simp add: observable_def)

lemma observed_cgroup [observed]:
  "calls_in (observable db) (cgroup_Setup sid l)" "calls_in (observable db) (cgroup_AddPID sid pid)"
  "calls_in (observable db) (cgroup_Teardown sid)" "calls_in (observable db) (cgroup_OOMCount sid)"
  unfolding cgroup_Setup_def cgroup_AddPID_def cgroup_Teardown_def cgroup_OOMCount_def cgroup_writeFile_def
  by (intro calls_rules observed; simp add: observable_def)+

lemma observed_fc_put [observed]: "calls_in (observable db) (fc_put c p b)"
  unfolding fc_put_def by (intro calls_rules observed; simp add: observable_def)

lemma observed_fc [observed]:
  "calls_in (observable db) (PutMachineConfig c mc)" "calls_in (observable db) (PutBootSource c bs)"
  "calls_in (observable db) (PutDrive c d)" "calls_in (observable db) (PutVsock c v)"
  "calls_in (observable db) (StartInstance c)" "calls_in (observable db) (snapshot_Load m key c)"
  unfolding PutMachineConfig_def PutBootSource_def PutDrive_def PutVsock_def StartInstance_def
    snapshot_Load_def SnapshotLoad_def
  by (intro calls_rules observed)+

lemma observed_all_exist [observed]: "calls_in (observable db) (all_exist ps)"
  by (induction ps) (auto intro!: calls_rules simp: observable_def)

lemma observed_Exists [observed]: "calls_in (observable db) (snapshot_Exists m key)"
  unfolding snapshot_Exists_def by (rule observed)

lemma observed_vsock [observed]: "calls_in (observable db) (vsock_Exec uds req)"
  unfolding vsock_Exec_def dialFirecracker_def by (intro calls_rules observed; simp add: observable_def)

lemma observed_copy [observed]: "calls_in (observable db) (copyFile src dst)"
  unfolding copyFile_def by (intro calls_rules observed; simp add: observable_def)

lemma await_socket_trace:
  "\<exists>evs. os_trace (snd (await_socket p d s)) = evs @ os_trace s \<and> list_all (observable db) evs"
proof (induction p d s rule: await_socket.induct)
  case (1 p d s)
  show ?case
  proof (cases "os_clock s < d \<and> (\<exists>e. answer (os_env s (os_trace s) (Stat p)) = Inl e)")
    case True
    with 1 obtain evs where
      "os_trace (snd (await_socket p d (note_call (Sleep 50000000) (note_call (Stat p) s)))) =
         evs @ os_trace (note_call (Sleep 50000000) (note_call (Stat p) s))"
      "list_all (observable db) evs" by blast
    moreover from True have "await_socket p d s =
        await_socket p d (note_call (Sleep 50000000) (note_call (Stat p) s))"
      by (auto simp: await_socket.simps [of p d s])
    ultimately show ?thesis by simp
  next
    case False
    then show ?thesis
      by (subst await_socket.simps) (auto split: sum.split simp: observable_def)
  qed
qed

lemma observed_await [observed]: "calls_in (observable db) (State (await_socket p d))"
  by (simp add: calls_in_def wp_def await_socket_trace)

lemma observed_wait [observed]: "calls_in (observable db) (waitForSocket p l n)"
  unfolding waitForSocket_def by (intro calls_rules observed; simp add: observable_def)

lemma observed_undo [observed]:
  "calls_in (observable db) (undo_overlay oc e)" "calls_in (observable db) (undo_files oc sid e)"
  "calls_in (observable db) (undo_start oc sid ctx e)" "calls_in (observable db) (undo_vm oc sid ctx pid e)"
  unfolding undo_overlay_def undo_files_def undo_start_def undo_vm_def
  by (intro calls_rules observed; simp add: observable_def)+

lemma observed_vm_step [observed]:
  "calls_in (observable db) m \<Longrightarrow> calls_in (observable db) k \<Longrightarrow>
   calls_in (observable db) (vm_step oc sid ctx pid what m k)"
  unfolding vm_step_def by (intro calls_rules observed)

lemma observed_place [observed]:
  "calls_in (observable db) (place_resources srv req)" "calls_in (observable db) (place_files srv req oc)"
  "calls_in (observable db) (place_start srv req oc)"
  "calls_in (observable db) (place_configure srv req oc ctx pid)"
  "calls_in (observable db) (place_boot srv req oc ctx pid fc t0)"
  unfolding place_resources_def place_files_def place_start_def place_configure_def place_boot_def
  by (intro calls_rules observed; simp add: observable_def all_metrics_def metric_defs)+

lemma observed_egress [observed]:
  "calls_in (observable db) (ef_Load f p)" "calls_in (observable db) (ef_AddCIDR f c)"
  unfolding ef_Load_def ef_AddCIDR_def ensureClsactQdisc_def attachTCEgress_def close_and_fail_def
  by (intro calls_rules observed; simp add: observable_def)+

lemma observed_add_cidrs [observed]: "calls_in (observable db) (add_cidrs f cs)"
  by (induction cs) (auto intro!: calls_rules observed)

lemma observed_place_egress [observed]: "calls_in (observable db) (place_egress req)"
  unfolding place_egress_def by (intro calls_rules observed)

lemma observed_place_vm [observed]: "calls_in (observable db) (place_vm srv req)"
  unfolding place_vm_def by (intro calls_rules observed)

lemma observed_active [observed]: "calls_in (observable db) (active_metric srv)"
  unfolding active_metric_def by (intro calls_rules) simp

lemma observed_operations [observed]:
  "calls_in (observable db) (PlaceSandbox srv req)" "calls_in (observable db) (TerminateSandbox treq)"
  "calls_in (observable db) (ExecInSandbox xreq)" "calls_in (observable db) (StreamLogs srv lreq)"
  "calls_in (observable db) (Heartbeat srv breq)" "calls_in (observable db) (reconcilePool srv)"
  unfolding PlaceSandbox_def TerminateSandbox_def ExecInSandbox_def StreamLogs_def Heartbeat_def
    reconcilePool_def Let_def
  by (intro calls_rules observed; simp add: observable_def all_metrics_def metric_defs)+

lemma observed_record_oom [observed]: "calls_in (observable db) (record_oom w)"
  unfolding record_oom_def by (intro calls_rules observed) simp

lemma observed_watch [observed]: "calls_in (observable db) (watchVM srv w)"
  unfolding watchVM_def by (intro calls_rules observed) (simp add: observable_def)

lemma calls_in_run:
  assumes "calls_in P m" and "run_state m s = (r, s')" and "list_all P (os_trace s)"
  shows "list_all P (os_trace s')"
proof -
  have "wp m (\<lambda>r s'. \<exists>evs. os_trace s' = evs @ os_trace s \<and> list_all P evs) s"
    using assms(1) by (simp add: calls_in_def)
  from wp_run [OF this assms(2)] assms(3) show ?thesis by auto
qed

lemma agent_step_observable:
  assumes "agent_step srv admits s s'" and "list_all (observable db) (os_trace s)"
  shows "list_all (observable db) (os_trace s')"
  using assms
proof (cases rule: agent_step.cases)
  case (exit ws w vs u)
  from calls_in_run [OF observed_watch exit(2)] assms(2) show ?thesis by simp
qed (blast intro: calls_in_run observed_operations)+

section \<open>Properties\<close>

text \<open>
  C40: no observation of a metric panics a host agent. In every reachable state of the agent,
  whatever calls failed and in whatever order operations and goroutines ran, each observation it
  made names a registered metric and gives exactly one value to each of its labels; and no two
  metrics are registered under one name.
\<close>

theorem agent_metrics_registered:
  assumes "agent_reachable srv admits s" and "(Metric name values x, a) \<in> set (os_trace s)"
  shows "\<exists>!m. m \<in> set (all_metrics db) \<and> me_Name m = name \<and> length (me_Labels m) = length values"
proof -
  from assms(1) obtain s0 where "fresh_agent s0" "(agent_step srv admits)\<^sup>*\<^sup>* s0 s"
    by (auto simp: agent_reachable_def)
  from this(2,1) have "list_all (observable db) (os_trace s)"
    by induction (auto simp: fresh_agent_def intro: agent_step_observable)
  with assms(2) have "observable db (Metric name values x, a)" by (auto simp: list_all_iff)
  then obtain m where m: "m \<in> set (all_metrics db)" "me_Name m = name"
    "length (me_Labels m) = length values" by (auto simp: observable_def list_ex_iff)
  moreover have "m' = m" if "m' \<in> set (all_metrics db)" "me_Name m' = name" for m'
    using metric_names_distinct [of db] m that by (metis distinct_map inj_onD)
  ultimately show ?thesis by blast
qed

theorem agent_metrics_registered_witness:
  "\<exists>s1 x a m. run_state
       (reconcilePool (sample_server\<lparr>ha_cfg := sample_config\<lparr>hc_WarmPoolSize := 2\<rparr>\<rparr>)) calm_agent = ((), s1) \<and>
     (Metric ''vm_pool_idle_count'' [ha_hostID sample_server] x, a) \<in> set (os_trace s1) \<and>
     m \<in> set (all_metrics []) \<and> me_Name m = ''vm_pool_idle_count''"
proof -
  let ?srv = "sample_server\<lparr>ha_cfg := sample_config\<lparr>hc_WarmPoolSize := 2\<rparr>\<rparr>"
  obtain s1 where run: "run_state (reconcilePool ?srv) calm_agent = ((), s1)"
    by (metis surj_pair unit.exhaust)
  have "agent_step ?srv (\<lambda>_. True) calm_agent s1" by (rule agent_step.tick [OF run])
  moreover have "fresh_agent calm_agent" by (simp add: fresh_agent_def calm_agent_def)
  ultimately have reach: "agent_reachable ?srv (\<lambda>_. True) s1" by (auto simp: agent_reachable_def)
  have "wp (reconcilePool ?srv) (\<lambda>u s'. \<exists>x a.
      (Metric ''vm_pool_idle_count'' [ha_hostID sample_server] x, a) \<in> set (os_trace s')) calm_agent"
    by (auto simp: reconcilePool_def wp_perform_raw Let_def)
  from wp_run [OF this run] obtain x a where
    ev: "(Metric ''vm_pool_idle_count'' [ha_hostID sample_server] x, a) \<in> set (os_trace s1)" by blast
  from agent_metrics_registered [OF reach ev, of "[]"] run ev show ?thesis by blast
qed

end
