(* ===== verification/Processes.thy ===== *)
theory Processes
  imports Orchestrator ApiSystem AgentServer Telemetry
begin

text \<open>
  The three processes, as their \<^verbatim>\<open>main\<close> functions put them together (\<^verbatim>\<open>cmd/host-agent\<close>,
  \<^verbatim>\<open>cmd/orchestrator\<close>, \<^verbatim>\<open>cmd/api\<close>): what the configuration makes of the components, which servers and
  goroutines are started, and, for the orchestrator, all its goroutines interleaved. Reading flags,
  waiting for a signal and stopping are left out.
\<close>

section \<open>Starting up\<close>

text \<open>
  A start ends with an exit code and a message on the standard error, with a panic, or with the
  running process. \<open>boot\<close> is what every \<^verbatim>\<open>main\<close> begins with.
\<close>

datatype 'a start = Exit int string | PanicError string | PanicRuntime go_panic | Started 'a

definition boot ::
  "(string \<Rightarrow> string + string) \<Rightarrow> (string \<Rightarrow> string + Config) \<Rightarrow> ('lvl, 'cfg, 'logger) zap \<Rightarrow>
   string \<Rightarrow> string \<Rightarrow> (Config \<Rightarrow> 'a start) \<Rightarrow> 'a start" where
  "boot open_file yaml_decode z who path k =
     (case config_Load open_file yaml_decode path of
        Inl err \<Rightarrow> Exit 1 (who @ '': load config: '' @ err @ [CHR 0x0A])
      | Inr cfg \<Rightarrow>
          (case log_MustInit z (lc_Level (cf_Log cfg)) (lc_Format (cf_Log cfg)) None of
             Inl err \<Rightarrow> PanicError err
           | Inr L \<Rightarrow> k cfg))"

lemma boot_started:
  "boot op yd z who path k = Started p \<Longrightarrow>
   \<exists>cfg. config_Load op yd path = Inr cfg \<and> config_complete cfg \<and> k cfg = Started p"
  by (auto simp: boot_def config_Load_ok applyDefaults_complete split: sum.splits)

section \<open>The host agent\<close>

text \<open>
  Its servers, by the address they listen on. The address of the gRPC server is compared with
  the one it was just set to, so it is the stub's. Registering the service with the gRPC server does
  nothing: \<open>'g\<close> is what that server serves.
\<close>

datatype listener = InternalAPI string | MetricsHTTP string | GrpcStub string

definition grpc_addr :: "HostAgentConfig \<Rightarrow> string" where
  "grpc_addr c =
     (let grpcAddr = hc_GRPCAddr c
      in if grpcAddr = hc_GRPCAddr c then hc_GRPCStubAddr c else grpcAddr)"

definition RegisterHostAgentServer :: "'g \<Rightarrow> hostAgentServer \<Rightarrow> 'g" where
  "RegisterHostAgentServer s srv = s"

record 'g agent_process =
  gp_server :: hostAgentServer
  gp_secret :: string
  gp_listeners :: "listener list"
  gp_grpc :: "'g option"

text \<open>
  \<open>listens\<close> says whether \<^verbatim>\<open>net.Listen\<close> succeeds, \<open>new_grpc\<close> is a new gRPC server, and \<open>uuid\<close> the text
  of the UUID the host's identifier is cut from.
\<close>

definition host_agent_servers ::
  "(string \<Rightarrow> bool) \<Rightarrow> 'g \<Rightarrow> HostAgentConfig \<Rightarrow> hostAgentServer \<Rightarrow> 'g agent_process" where
  "host_agent_servers listens new_grpc c srv =
     (let grpcAddr = grpc_addr c; serving = grpcAddr \<noteq> '''' \<and> listens grpcAddr
      in \<lparr>gp_server = srv, gp_secret = hc_AgentSecret c,
          gp_listeners = [InternalAPI (hc_GRPCAddr c), MetricsHTTP (hc_MetricsAddr c)] @
            (if serving then [GrpcStub grpcAddr] else []),
          gp_grpc = (if serving then Some (RegisterHostAgentServer new_grpc srv) else None)\<rparr>)"

definition host_agent_main ::
  "(string \<Rightarrow> string + string) \<Rightarrow> (string \<Rightarrow> string + Config) \<Rightarrow> ('lvl, 'cfg, 'logger) zap \<Rightarrow>
   (string \<Rightarrow> bool) \<Rightarrow> 'g \<Rightarrow> string \<Rightarrow> string \<Rightarrow> 'g agent_process start" where
  "host_agent_main open_file yaml_decode z listens new_grpc uuid path =
     boot open_file yaml_decode z ''host-agent'' path (\<lambda>cfg.
       case NewHost uuid of
         Inl p \<Rightarrow> PanicRuntime p
       | Inr hostID \<Rightarrow>
           Started (host_agent_servers listens new_grpc (cf_HostAgent cfg)
             (newHostAgentServer (cf_HostAgent cfg) hostID)))"

text \<open>
  The requests the process answers are those of its internal API, under its secret.
\<close>

definition process_serve :: "(json_error \<Rightarrow> string) \<Rightarrow> 'g agent_process \<Rightarrow> agent handler" where
  "process_serve jerr p = agent_serve jerr (gp_server p) (gp_secret p)"

lemma grpc_addr_eq [simp]: "grpc_addr c = hc_GRPCStubAddr c"
  by (simp add: grpc_addr_def)

lemma host_agent_started:
  "host_agent_main op yd z listens new_grpc uuid path = Started p \<Longrightarrow>
   \<exists>cfg hostID. config_Load op yd path = Inr cfg \<and> config_complete cfg \<and> NewHost uuid = Inr hostID \<and>
     p = host_agent_servers listens new_grpc (cf_HostAgent cfg)
           (newHostAgentServer (cf_HostAgent cfg) hostID)"
  unfolding host_agent_main_def by (drule boot_started, cases "NewHost uuid") auto

text \<open>
  The gRPC server, when there is one, serves what a new one does, at the stub's address; without
  that address configured, which has no default, there is none.
\<close>

lemma host_agent_grpc:
  "gp_grpc (host_agent_servers listens new_grpc c srv) =
     (if hc_GRPCStubAddr c \<noteq> '''' \<and> listens (hc_GRPCStubAddr c) then Some new_grpc else None)"
  by (simp add: host_agent_servers_def RegisterHostAgentServer_def Let_def)

section \<open>The API server\<close>

text \<open>
  The HTTP server's address and its timeouts, in nanoseconds; the state the handlers start from; and
  the constants they run under.
\<close>

record http_server =
  hv_Addr :: string
  hv_ReadTimeout :: time
  hv_WriteTimeout :: time
  hv_IdleTimeout :: time

record ('prov, 'tracer, 'w) api_process =
  pv_tracing :: "('prov, 'tracer) tracing"
  pv_server :: apiServer
  pv_state :: "'w ApiState"
  pv_secret :: string
  pv_http :: http_server

definition host_agents :: "Config \<Rightarrow> (string \<times> string) list" where
  "host_agents cfg = map (\<lambda>ha. (hae_ID ha, hae_HTTPAddr ha)) (cf_HostAgents cfg)"

text \<open>A failure to set tracing up is logged only.\<close>

definition api_tracing ::
  "('xp, 'res, 'prov, 'tracer, 'ctx, 'span) otel \<Rightarrow> Config \<Rightarrow> ('prov, 'tracer) tracing" where
  "api_tracing ot cfg =
     (let g = \<lparr>tr_global = None, tr_tracer = None\<rparr>
      in if tc_Endpoint (cf_Tracing cfg) \<noteq> ''''
         then snd (tracing_Init ot ''sandock-api'' (tc_Endpoint (cf_Tracing cfg)) g) else g)"

definition api_components ::
  "('xp, 'res, 'prov, 'tracer, 'ctx, 'span) otel \<Rightarrow> time \<Rightarrow> 'w \<Rightarrow> Config \<Rightarrow>
   ('prov, 'tracer, 'w) api_process" where
  "api_components ot t0 w cfg =
     \<lparr>pv_tracing = api_tracing ot cfg,
      pv_server = \<lparr>ap_defaultQuotaLimit = 20, ap_jwtSecret = ac_JWTSecret (cf_API cfg)\<rparr>,
      pv_state = \<lparr>a_store = NewStore,
        a_sched = api_register_hosts t0 (host_agents cfg) (hc_GRPCAddr (cf_HostAgent cfg)) api_NewScheduler,
        a_quota = NewMemoryStore, a_world = w\<rparr>,
      pv_secret = hc_AgentSecret (cf_HostAgent cfg),
      pv_http = \<lparr>hv_Addr = ac_ListenAddr (cf_API cfg), hv_ReadTimeout = 15 * 1000000000,
        hv_WriteTimeout = 60 * 1000000000, hv_IdleTimeout = 120 * 1000000000\<rparr>\<rparr>"

definition api_main ::
  "(string \<Rightarrow> string + string) \<Rightarrow> (string \<Rightarrow> string + Config) \<Rightarrow> ('lvl, 'cfg, 'logger) zap \<Rightarrow>
   ('xp, 'res, 'prov, 'tracer, 'ctx, 'span) otel \<Rightarrow> time \<Rightarrow> 'w \<Rightarrow> string \<Rightarrow>
   ('prov, 'tracer, 'w) api_process start" where
  "api_main open_file yaml_decode z ot t0 w path =
     boot open_file yaml_decode z ''api'' path (\<lambda>cfg. Started (api_components ot t0 w cfg))"

text \<open>The interleaved system starts from what the process starts with.\<close>

definition as_system :: "'w ApiState \<Rightarrow> sys" where
  "as_system s =
     \<lparr>y_store = a_store s, y_sched = a_sched s, y_submitting = {#}, y_disp = Idle,
      y_placing = {#}, y_placed = {#}\<rparr>"

lemma api_main_started:
  "api_main op yd z ot t0 w path = Started p \<Longrightarrow>
   \<exists>cfg. config_Load op yd path = Inr cfg \<and> config_complete cfg \<and> p = api_components ot t0 w cfg"
  unfolding api_main_def by (drule boot_started) auto

lemma api_main_reachable:
  "api_main op yd z ot t0 w path = Started p \<Longrightarrow> sys_reachable (as_system (pv_state p))"
  by (drule api_main_started)
    (fastforce simp: sys_reachable_def as_system_def api_components_def sys_start_def)

section \<open>The access log of the API server\<close>

text \<open>
  What a handler writes on its response: the status line and the body. \<^verbatim>\<open>net/http\<close> sends the first
  status it is told, 200 when the body comes before one or nothing is written at all, and ignores
  the later ones. \<^verbatim>\<open>loggingResponseWriter\<close> stands in front and notes the last status it is told.
\<close>

datatype write_op = StatusLine int | ResponseBody

record response_writer =
  rw_statusCode :: int
  rw_sent :: "int option"

definition lrw_WriteHeader :: "int \<Rightarrow> response_writer \<Rightarrow> response_writer" where
  "lrw_WriteHeader code w =
     w\<lparr>rw_statusCode := code, rw_sent := (if rw_sent w = None then Some code else rw_sent w)\<rparr>"

definition lrw_Write :: "response_writer \<Rightarrow> response_writer" where
  "lrw_Write w = w\<lparr>rw_sent := (if rw_sent w = None then Some 200 else rw_sent w)\<rparr>"

fun lrw_run :: "write_op list \<Rightarrow> response_writer \<Rightarrow> response_writer" where
  "lrw_run [] w = w"
| "lrw_run (StatusLine code # ops) w = lrw_run ops (lrw_WriteHeader code w)"
| "lrw_run (ResponseBody # ops) w = lrw_run ops (lrw_Write w)"

definition sent_status :: "response_writer \<Rightarrow> int" where
  "sent_status w = (case rw_sent w of None \<Rightarrow> 200 | Some code \<Rightarrow> code)"

fun response_writes :: "api_response \<Rightarrow> write_op list" where
  "response_writes (JsonReply code v) = [StatusLine code, ResponseBody]"
| "response_writes (EmptyReply code) = [StatusLine code]"
| "response_writes (TextReply code msg) = [StatusLine code, ResponseBody]"

record access_entry =
  ae_method :: string
  ae_path :: string
  ae_status :: int
  ae_duration :: time

text \<open>
  The middleware, with the writer as the handler leaves it. A handler that panics leaves no line:
  the line is not written in a deferred call.
\<close>

definition loggingMiddleware ::
  "(api_request \<Rightarrow> 's \<Rightarrow> 's handled) \<Rightarrow> time \<Rightarrow> time \<Rightarrow> api_request \<Rightarrow> 's \<Rightarrow>
   's handled \<times> response_writer \<times> access_entry list" where
  "loggingMiddleware next start finish r s =
     (let lrw = \<lparr>rw_statusCode = 200, rw_sent = None\<rparr>; (res, s') = next r s
      in case res of
           Inl p \<Rightarrow> ((Inl p, s'), lrw, [])
         | Inr resp \<Rightarrow>
             let lrw' = lrw_run (response_writes resp) lrw
             in ((Inr resp, s'), lrw',
                 [\<lparr>ae_method = ar_Method r, ae_path = ar_Path r, ae_status = rw_statusCode lrw',
                   ae_duration = finish - start\<rparr>]))"

text \<open>What is noted is what is sent, for every response of a handler.\<close>

lemma response_status_noted:
  "rw_statusCode (lrw_run (response_writes resp) \<lparr>rw_statusCode = 200, rw_sent = None\<rparr>) =
   sent_status (lrw_run (response_writes resp) \<lparr>rw_statusCode = 200, rw_sent = None\<rparr>)"
  by (cases resp) (simp_all add: lrw_WriteHeader_def lrw_Write_def sent_status_def)

lemma loggingMiddleware_truthful:
  assumes "loggingMiddleware next start finish r s = (h, lrw, entries)"
  shows "h = next r s \<and> (entries = [] \<longleftrightarrow> (\<exists>p. fst h = Inl p)) \<and>
    (\<forall>e \<in> set entries. ae_status e = sent_status lrw \<and> entries = [e])"
proof -
  obtain res s' where called: "next r s = (res, s')" by fastforce
  from assms show ?thesis
    by (cases res) (auto simp: loggingMiddleware_def called Let_def response_status_noted)
qed

section \<open>The orchestrator\<close>

text \<open>
  The configured hosts are registered; the dispatch loop, the heartbeat monitor and the ticker that
  reports the length of the queue are started.
\<close>

definition orch_register_hosts :: "time \<Rightarrow> (string \<times> string) list \<Rightarrow> Scheduler \<Rightarrow> Scheduler" where
  "orch_register_hosts t0 hostAgents s = fold (\<lambda>ha. RegisterHost t0 (configured_host ha)) hostAgents s"

text \<open>
  The process: the store, the scheduler, the scorer of the monitor, what its fencer wrote, the
  placements in flight, the last queue length reported (the metric \<^verbatim>\<open>scheduler_queue_depth\<close>), and the
  network.
\<close>

record 'w orch =
  og_store :: Store
  og_sched :: Scheduler
  og_scorer :: HealthScorer
  og_fenced :: "fence_event list"
  og_placing :: "(pendingItem \<times> HostInfo) multiset"
  og_depth :: "f64 option"
  og_net :: 'w

definition orch_components :: "time \<Rightarrow> 'w \<Rightarrow> Config \<Rightarrow> 'w orch" where
  "orch_components t0 w cfg =
     (let sched = orch_register_hosts t0 (host_agents cfg) NewScheduler;
          (scorer, sched', fenced) = monitor_start sched []
      in \<lparr>og_store = NewStore, og_sched = sched', og_scorer = scorer, og_fenced = fenced,
          og_placing = {#}, og_depth = None, og_net = w\<rparr>)"

definition orch_main ::
  "(string \<Rightarrow> string + string) \<Rightarrow> (string \<Rightarrow> string + Config) \<Rightarrow> ('lvl, 'cfg, 'logger) zap \<Rightarrow>
   time \<Rightarrow> 'w \<Rightarrow> string \<Rightarrow> 'w orch start" where
  "orch_main open_file yaml_decode z t0 w path =
     boot open_file yaml_decode z ''orchestrator'' path (\<lambda>cfg. Started (orch_components t0 w cfg))"

text \<open>One report of the ticker.\<close>

definition report_depth :: "'w orch \<Rightarrow> 'w orch" where
  "report_depth y = y\<lparr>og_depth := Some (f64_of (of_nat (length (s_queue (og_sched y)))))\<rparr>"

text \<open>
  The goroutines interleaved: a wake-up of the dispatch loop, the end of a placement, the poll of
  one host by the monitor, a report of the ticker. A poll takes the host as the registry had it.
\<close>

inductive orch_step ::
  "(json_error \<Rightarrow> string) \<Rightarrow> 'w transport \<Rightarrow> string \<Rightarrow> 'w orch \<Rightarrow> 'w orch \<Rightarrow> bool"
  for jerr :: "json_error \<Rightarrow> string" and tr :: "'w transport" and secret :: string where
  dispatch: "dispatchPending t tH tT ord (og_sched y) (og_store y) = Inr (started, sched, st) \<Longrightarrow>
    orch_step jerr tr secret y (y\<lparr>og_sched := sched, og_store := st,
      og_placing := og_placing y + (case started of None \<Rightarrow> {#} | Some q \<Rightarrow> {#q#})\<rparr>)"
| placed: "og_placing y = add_mset (item, host) rest \<Longrightarrow>
    place_goroutine (httpPlacer_PlaceSandbox jerr tr secret tP) t item host (og_store y) (og_net y) =
      (st, w) \<Longrightarrow>
    orch_step jerr tr secret y (y\<lparr>og_placing := rest, og_store := st, og_net := w\<rparr>)"
| poll: "s_hosts (og_sched y) hid = Some host \<Longrightarrow>
    client_Heartbeat jerr tr (NewClient (''http://'' @ h_Addr host) secret)
      \<lparr>hb_HostID = h_ID host\<rparr> (og_net y) = (rep, w) \<Longrightarrow>
    monitor_record log_Fence t host rep (og_scorer y, og_sched y, og_fenced y) = (scorer, sched, fenced) \<Longrightarrow>
    orch_step jerr tr secret y (y\<lparr>og_scorer := scorer, og_sched := sched, og_fenced := fenced, og_net := w\<rparr>)"
| ticker: "orch_step jerr tr secret y (report_depth y)"

text \<open>Nothing in the process queues a request: the queue stays empty, and the store with it.\<close>

definition orch_idle :: "string set \<Rightarrow> 'w orch \<Rightarrow> bool" where
  "orch_idle ids y \<longleftrightarrow>
     s_queue (og_sched y) = [] \<and> og_store y = Map.empty \<and> og_placing y = {#} \<and>
     og_depth y \<in> {None, Some (Fin 0)} \<and> dom (s_hosts (og_sched y)) = ids"

lemma dispatch_empty:
  "s_queue s = [] \<Longrightarrow> dispatchPending t tH tT ord s st = Inr (None, s, st)"
  by (simp add: dispatchPending_def take_next_def)

lemma monitor_record_queue:
  "monitor_record fence t host rep (scorer, s, f) = (scorer', s', f') \<Longrightarrow>
   s_queue s' = s_queue s \<and> dom (s_hosts s') = dom (s_hosts s)"
  by (auto simp: monitor_record_def UpdateHostHealth_def Let_def
      split: sum.splits prod.splits if_splits option.splits)

lemma orch_idle_step: "orch_step jerr tr secret y y' \<Longrightarrow> orch_idle ids y \<Longrightarrow> orch_idle ids y'"
proof (induction rule: orch_step.induct)
  case (dispatch t tH tT ord y started sched st)
  then show ?case by (auto simp: orch_idle_def dispatch_empty)
next
  case (poll y hid host rep w t scorer sched fenced)
  with monitor_record_queue [OF poll(3)] show ?case by (simp add: orch_idle_def)
qed (auto simp: orch_idle_def report_depth_def)

lemma orch_registered:
  "s_queue (orch_register_hosts t0 has s) = s_queue s \<and>
   dom (s_hosts (orch_register_hosts t0 has s)) = dom (s_hosts s) \<union> fst ` set has"
  unfolding orch_register_hosts_def
  by (induction has arbitrary: s) (auto simp: RegisterHost_def configured_host_def)

lemma orch_idle_start: "orch_idle (hae_ID ` set (cf_HostAgents cfg)) (orch_components t0 w cfg)"
  using orch_registered [of t0 "host_agents cfg" NewScheduler]
  by (auto simp: orch_idle_def orch_components_def monitor_start_def NewStore_def host_agents_def image_image
      Let_def)

lemma orch_idle_reachable:
  "(orch_step jerr tr secret)\<^sup>*\<^sup>* y y' \<Longrightarrow> orch_idle ids y \<Longrightarrow> orch_idle ids y'"
  by (induction rule: rtranclp_induct) (auto intro: orch_idle_step)

lemma orch_main_started:
  "orch_main op yd z t0 w path = Started p \<Longrightarrow>
   \<exists>cfg. config_Load op yd path = Inr cfg \<and> config_complete cfg \<and> p = orch_components t0 w cfg"
  unfolding orch_main_def by (drule boot_started) auto

section \<open>Properties\<close>

text \<open>
  C20: the orchestrator process places nothing. In whatever way its goroutines are interleaved and
  whatever the network answers, it registers exactly the configured hosts, its queue and store stay
  empty, no placement is ever in flight, and the queue length it reports is zero: the process
  monitors its hosts, but has no operation that would queue a request.
\<close>

theorem orchestrator_never_places:
  assumes "orch_main op yd z t0 w path = Started y0" and "(orch_step jerr tr secret)\<^sup>*\<^sup>* y0 y"
  shows "\<exists>cfg. config_Load op yd path = Inr cfg \<and>
    dom (s_hosts (og_sched y)) = hae_ID ` set (cf_HostAgents cfg) \<and>
    s_queue (og_sched y) = [] \<and> og_store y = Map.empty \<and> og_placing y = {#} \<and>
    og_depth y \<in> {None, Some (Fin 0)} \<and>
    dispatchPending t tH tT ord (og_sched y) (og_store y) = Inr (None, og_sched y, og_store y)"
proof -
  from orch_main_started [OF assms(1)] obtain cfg where
    cfg: "config_Load op yd path = Inr cfg" "y0 = orch_components t0 w cfg" by blast
  from orch_idle_reachable [OF assms(2) [unfolded cfg(2)] orch_idle_start] cfg(1) show ?thesis
    by (auto simp: orch_idle_def dispatch_empty)
qed

text \<open>A configuration of one host agent, and a library that accepts every level.\<close>

definition one_agent_config :: Config where
  "one_agent_config =
     \<lparr>cf_API = \<lparr>ac_ListenAddr = '''', ac_JWTSecret = ''secret-token''\<rparr>,
      cf_Orchestrator = \<lparr>occ_GRPCAddr = '''', occ_StateBackend = ''''\<rparr>,
      cf_HostAgent = sample_config,
      cf_HostAgents = [\<lparr>hae_ID = ''h1'', hae_HTTPAddr = ''10.0.0.1:9091''\<rparr>],
      cf_Redis = \<lparr>rc_Addr = '''', rc_Password = '''', rc_DB = 0\<rparr>, cf_Tracing = \<lparr>tc_Endpoint = ''''\<rparr>,
      cf_Log = \<lparr>lc_Level = '''', lc_Format = ''''\<rparr>\<rparr>"

definition quiet_zap :: "(string, string, string) zap" where
  "quiet_zap = \<lparr>z_ParseLevel = Inr, z_NewDevelopmentConfig = ''dev'', z_NewProductionConfig = ''prod'',
     z_with_level = (\<lambda>l c. c @ l), z_Build = Inr\<rparr>"

theorem orchestrator_never_places_witness:
  "\<exists>y0 y. orch_main Inr (\<lambda>_. Inr one_agent_config) quiet_zap 1 () ''config.yaml'' = Started y0 \<and>
     orch_step (\<lambda>_. '''') (\<lambda>r w. (Inl (NoAnswer ''refused''), w)) '''' y0 y \<and> og_depth y \<noteq> None \<and>
     dom (s_hosts (og_sched y)) = {''h1''} \<and> s_queue (og_sched y) = []"
proof -
  let ?tr = "\<lambda>r w. (Inl (NoAnswer ''refused''), w) :: (transport_error + http_response) \<times> unit"
  let ?y0 = "orch_components 1 () (applyDefaults one_agent_config)"
  have load: "config_Load Inr (\<lambda>_. Inr one_agent_config) ''config.yaml'' = Inr (applyDefaults one_agent_config)"
    by (simp add: config_Load_def)
  have ids: "hae_ID ` set (cf_HostAgents (applyDefaults one_agent_config)) = {''h1''}"
    by (simp add: applyDefaults_def one_agent_config_def)
  have start: "orch_main Inr (\<lambda>_. Inr one_agent_config) quiet_zap 1 () ''config.yaml'' = Started ?y0"
    by (simp add: orch_main_def boot_def load log_MustInit_def log_Init_def quiet_zap_def Let_def)
  have step: "orch_step (\<lambda>_. '''') ?tr '''' ?y0 (report_depth ?y0)"
    by (rule orch_step.ticker)
  then have steps: "(orch_step (\<lambda>_. '''') ?tr '''')\<^sup>*\<^sup>* ?y0 (report_depth ?y0)"
    by (rule converse_rtranclp_into_rtranclp) (rule rtranclp.rtrancl_refl)
  from orchestrator_never_places [OF start steps] obtain cfg where
    "config_Load Inr (\<lambda>_. Inr one_agent_config) ''config.yaml'' = Inr cfg"
    "dom (s_hosts (og_sched (report_depth ?y0))) = hae_ID ` set (cf_HostAgents cfg)"
    "s_queue (og_sched (report_depth ?y0)) = []" by blast
  with load ids have "dom (s_hosts (og_sched (report_depth ?y0))) = {''h1''}"
      "s_queue (og_sched (report_depth ?y0)) = []" by simp_all
  moreover have "og_depth (report_depth ?y0) \<noteq> None" by (simp add: report_depth_def)
  ultimately show ?thesis
    by (intro exI [of _ ?y0] exI [of _ "report_depth ?y0"] conjI start step)
qed

end
