(* ===== verification/ApiProcess.thy ===== *)
theory ApiProcess
  imports Processes
begin

text \<open>
  The API server from its \<^verbatim>\<open>main\<close> on: requests as they come in over HTTP, the dispatch loop and the
  placement goroutines, each run as the code of its handler or goroutine is written. The steps are
  coarser than those of the theory \<open>ApiSystem\<close>, which they refine, so its invariant holds of the
  process: from the configuration it is started with to every answer it gives.
\<close>

section \<open>Runs of the process\<close>

text \<open>The server's state, and the placements that wait for a host agent.\<close>

type_synonym 'w api_run = "'w ApiState \<times> (pendingItem \<times> HostInfo) multiset"

inductive api_step :: "apiServer \<Rightarrow> string \<Rightarrow> 'w api_run \<Rightarrow> 'w api_run \<Rightarrow> bool"
  for srv :: apiServer and secret :: string where
  request: "e_agentSecret e = secret \<Longrightarrow> api_handle e srv r s = (res, s') \<Longrightarrow>
    api_step srv secret (s, ps) (s', ps)"
| dispatch: "api_dispatchPending t tH tT ord (a_sched s) (a_store s) = Inr (started, sched, st) \<Longrightarrow>
    api_step srv secret (s, ps) (s\<lparr>a_sched := sched, a_store := st\<rparr>,
      ps + (case started of None \<Rightarrow> {#} | Some q \<Rightarrow> {#q#}))"
| landed: "api_place_goroutine (grpcPlacer_PlaceSandbox jerr tr secret tP) t item host (a_store s) (a_world s) =
      (st, w) \<Longrightarrow>
    api_step srv secret (s, add_mset (item, host) ps) (s\<lparr>a_store := st, a_world := w\<rparr>, ps)"

definition api_abs :: "'w api_run \<Rightarrow> sys" where
  "api_abs x =
     \<lparr>y_store = a_store (fst x), y_sched = a_sched (fst x), y_submitting = {#}, y_disp = Idle,
      y_placing = image_mset fst (snd x), y_placed = {#}\<rparr>"

lemma api_abs_simps [simp]:
  "y_store (api_abs (s, ps)) = a_store s" "y_sched (api_abs (s, ps)) = a_sched s"
  "y_submitting (api_abs (s, ps)) = {#}" "y_disp (api_abs (s, ps)) = Idle"
  "y_placing (api_abs (s, ps)) = image_mset fst ps" "y_placed (api_abs (s, ps)) = {#}"
  by (simp_all add: api_abs_def)

section \<open>A request is a sequence of steps of the system\<close>

text \<open>What a handler's operations do to store and scheduler, whatever they do to quotas and the network.\<close>

definition tracked :: "'w ApiState \<Rightarrow> 'w ApiState \<Rightarrow> bool" where
  "tracked s s' \<longleftrightarrow> (\<forall>ps. sys_step\<^sup>*\<^sup>* (api_abs (s, ps)) (api_abs (s', ps)))"

lemma tracked_same [intro]: "a_store s' = a_store s \<Longrightarrow> a_sched s' = a_sched s \<Longrightarrow> tracked s s'"
  by (simp add: tracked_def api_abs_def)

lemma tracked_submit: "tracked s (snd (orch_Submit t tE uuid sp s))"
proof -
  consider (same) "snd (orch_Submit t tE uuid sp s) = s"
    | (made) i st where "store_Create t (zero_record\<lparr>r_ID := i, r_TenantID := sp_TenantID sp\<rparr>) (a_store s) = (Inr (), st)"
      "snd (orch_Submit t tE uuid sp s) =
         s\<lparr>a_store := st, a_sched := api_Enqueue tE i sp (sp_TimeoutMs sp) (a_sched s)\<rparr>"
  proof (cases "NewSandbox uuid")
    case (Inr i)
    obtain r st where
      made: "store_Create t (zero_record\<lparr>r_ID := i, r_TenantID := sp_TenantID sp\<rparr>) (a_store s) = (r, st)"
      by fastforce
    with Inr that show thesis by (cases r) (auto simp: orch_Submit_def)
  qed (simp add: orch_Submit_def)
  then show ?thesis
  proof cases
    case same
    then show ?thesis by auto
  next
    case made
    show ?thesis unfolding tracked_def
    proof (intro allI)
      fix ps
      let ?y = "api_abs (s, ps)"
      let ?y1 = "?y\<lparr>y_store := st, y_submitting := {#(i, sp)#}\<rparr>"
      have "sys_step ?y ?y1" using sys_step.create [of t sp i ?y st] made(1) by simp
      moreover have "sys_step ?y1 (api_abs (snd (orch_Submit t tE uuid sp s), ps))"
        using sys_step.enqueue [of ?y1 i sp "{#}" tE] made(2) by (simp add: api_abs_def)
      ultimately show "sys_step\<^sup>*\<^sup>* ?y (api_abs (snd (orch_Submit t tE uuid sp s), ps))" by simp
    qed
  qed
qed

lemma tracked_transition:
  "tracked s (s\<lparr>a_world := w, a_store := snd (store_Transition t i cur StateDraining why (a_store s))\<rparr>)"
  using sys_step.kill [of "api_abs (s, _)" t i cur why]
  by (auto simp: tracked_def api_abs_def intro!: r_into_rtranclp)

lemma tracked_terminate: "tracked s (snd (orch_Terminate jerr tr secret t i why s))"
proof -
  consider (same) "snd (orch_Terminate jerr tr secret t i why s) = s"
    | (moved) w and rec :: SandboxRecord where "snd (orch_Terminate jerr tr secret t i why s) =
        s\<lparr>a_world := w, a_store := snd (store_Transition t i (r_State rec) StateDraining why (a_store s))\<rparr>"
  proof (cases "store_Get i (a_store s)")
    case (Inr rec)
    have "\<exists>w. (if r_HostID rec \<noteq> '''' then (case s_hosts (a_sched s) (r_HostID rec) of None \<Rightarrow> s
        | Some host \<Rightarrow> s\<lparr>a_world := snd (client_TerminateSandbox jerr tr
             (NewClient (''http://'' @ h_Addr host) secret)
             \<lparr>tm_SandboxID = i, tm_Reason = why\<rparr> (a_world s))\<rparr>) else s) = s\<lparr>a_world := w\<rparr>" (is "\<exists>w. ?s1 = _")
      by (cases s) (auto split: option.split)
    then obtain w where "?s1 = s\<lparr>a_world := w\<rparr>" ..
    moreover obtain r st where "store_Transition t i (r_State rec) StateDraining why (a_store s) = (r, st)"
      by fastforce
    ultimately have "snd (orch_Terminate jerr tr secret t i why s) = s \<or>
        snd (orch_Terminate jerr tr secret t i why s) =
          s\<lparr>a_world := w, a_store := snd (store_Transition t i (r_State rec) StateDraining why (a_store s))\<rparr>"
      using Inr by (cases "IsTerminal (r_State rec)"; cases r) (simp_all add: orch_Terminate_def Let_def)
    then show thesis using that by blast
  qed (simp add: orch_Terminate_def)
  then show ?thesis
  proof cases
    case same
    then show ?thesis by auto
  qed (simp add: tracked_transition)
qed

lemma tracked_quota [simp]:
  "tracked (s\<lparr>a_quota := q\<rparr>) s' = tracked s s'" "tracked s (s'\<lparr>a_quota := q\<rparr>) = tracked s s'"
  by (simp_all add: tracked_def api_abs_def)

lemma tracked_refl [simp]: "tracked s s"
  by (simp add: tracked_def)

lemma tracked_create:
  assumes "\<And>sp s. tracked s (snd (submit sp s))"
  shows "tracked s (snd (handleCreateSandbox jerr jtime a submit r s))"
proof -
  have sub: "tracked s s1" if "submit sp (s\<lparr>a_quota := q\<rparr>) = (x, s1)" for sp q x s1
    using assms [of "s\<lparr>a_quota := q\<rparr>" sp] that by simp
  show ?thesis
    by (auto simp: handleCreateSandbox_def authenticated_def Let_def intro: sub split: sum.split prod.split)
qed

lemma tracked_delete:
  assumes "\<And>i why s. tracked s (snd (terminate i why s))"
  shows "tracked s (snd (handleDeleteSandbox a terminate r s))"
proof -
  have kill: "tracked s s1" if "terminate i why s = (x, s1)" for i why x s1
    using assms [of s i why] that by simp
  show ?thesis
    by (auto simp: handleDeleteSandbox_def authenticated_def Let_def intro: kill split: sum.split prod.split)
qed

lemma tracked_exec:
  assumes "\<And>x s. tracked s (snd (exec x s))"
  shows "tracked s (snd (handleExec jerr a exec r s))"
proof -
  have run: "tracked s s1" if "exec x s = (res, s1)" for x res s1
    using assms [of s x] that by simp
  show ?thesis
    by (auto simp: handleExec_def authenticated_def Let_def intro: run split: sum.split prod.split)
qed

lemma tracked_orch_Exec: "tracked s (snd (orch_Exec jerr tr secret x s))"
  by (rule tracked_same)
    (auto simp: orch_Exec_def Let_def split: sum.split prod.split option.split)

lemma tracked_reads:
  "snd (handleHealth t s) = s" "snd (handleListSandboxes jtime ord a r s) = s"
  "snd (handleGetSandbox jtime a r s) = s"
  by (auto simp: handleHealth_def handleListSandboxes_def handleGetSandbox_def authenticated_def Let_def
      split: sum.split)

lemma tracked_handle: "tracked s (snd (api_handle e srv r s))"
  by (cases "route_of (ar_Method r) (ar_Path r)")
    (simp_all add: api_handle_def api_serve_def tracked_reads tracked_create tracked_delete tracked_exec
      tracked_submit tracked_terminate tracked_orch_Exec)

section \<open>The process refines the interleaved system\<close>

lemma after_dispatch_abs:
  "after_dispatch (api_abs (s, ps)) started sched st =
   api_abs (s\<lparr>a_sched := sched, a_store := st\<rparr>, ps + (case started of None \<Rightarrow> {#} | Some q \<Rightarrow> {#q#}))"
  by (auto simp: after_dispatch_def api_abs_def split: option.split prod.split)

lemma landed_steps:
  assumes "api_place_goroutine (grpcPlacer_PlaceSandbox jerr tr secret tP) t item host (a_store s) (a_world s) = (st, w)"
  shows "sys_step\<^sup>*\<^sup>* (api_abs (s, add_mset (item, host) ps)) (api_abs (s\<lparr>a_store := st, a_world := w\<rparr>, ps))"
proof -
  let ?y = "api_abs (s, add_mset (item, host) ps)"
  let ?i = "i_sandboxID item"
  let ?rest = "image_mset fst ps"
  consider
    (failed) err where "st = snd (store_Transition t ?i StateProvisioning StateFailed err (a_store s))"
  | (placed) cid sock where "st = snd (store_Transition t ?i StateProvisioning StateRunning ''''
      (snd (store_SetVsockCID tP ?i cid sock (a_store s))))"
    using assms by (auto simp: api_place_goroutine_def grpcPlacer_PlaceSandbox_def Let_def
        split: sum.splits prod.splits)
  then show ?thesis
  proof cases
    case failed
    then have "api_abs (s\<lparr>a_store := st, a_world := w\<rparr>, ps) =
        ?y\<lparr>y_placing := ?rest, y_store := snd (store_Transition t ?i StateProvisioning StateFailed err (y_store ?y))\<rparr>"
      by (simp add: api_abs_def)
    with sys_step.place_failed [of ?y item ?rest t err] show ?thesis by auto
  next
    case placed
    let ?st1 = "snd (store_SetVsockCID tP ?i cid sock (a_store s))"
    let ?y1 = "?y\<lparr>y_placing := ?rest, y_placed := {#item#}, y_store := ?st1\<rparr>"
    have "sys_step ?y ?y1" using sys_step.place_ok [of ?y item ?rest tP cid sock] by simp
    moreover have "sys_step ?y1 (api_abs (s\<lparr>a_store := st, a_world := w\<rparr>, ps))"
      using sys_step.running [of ?y1 item "{#}" t] placed by (simp add: api_abs_def)
    ultimately show ?thesis by simp
  qed
qed

lemma api_step_refines: "api_step srv secret x x' \<Longrightarrow> sys_step\<^sup>*\<^sup>* (api_abs x) (api_abs x')"
proof (induction rule: api_step.induct)
  case (request e r s res s' ps)
  with tracked_handle [of s e srv r] show ?case by (simp add: tracked_def)
next
  case (dispatch t tH tT ord s started sched st ps)
  with dispatch_steps [of "api_abs (s, ps)" t tH tT ord started sched st] show ?case
    by (simp add: after_dispatch_abs)
qed (rule landed_steps)

lemma api_steps_refine: "(api_step srv secret)\<^sup>*\<^sup>* x x' \<Longrightarrow> sys_step\<^sup>*\<^sup>* (api_abs x) (api_abs x')"
  by (induction rule: rtranclp_induct) (auto dest: api_step_refines)

section \<open>Properties\<close>

text \<open>
  C2: the API process keeps custody of every sandbox. From any configuration it starts with, after
  any sequence of requests, dispatches and answered placements, whatever the network answers: the
  heap holds exactly one request for each queued sandbox and none for another, exactly one placement
  is in flight for each provisioning sandbox and none for another, and the state is one the
  interleaved system reaches.
\<close>

theorem api_process_custody:
  assumes "api_main op yd z ot t0 w path = Started p"
    and "(api_step (pv_server p) (pv_secret p))\<^sup>*\<^sup>* (pv_state p, {#}) (s, ps)"
  shows "sys_reachable (api_abs (s, ps)) \<and>
    count (mset (map i_sandboxID (s_queue (a_sched s)))) i =
      (if in_state StateQueued (a_store s) i then 1 else 0) \<and>
    count (image_mset (\<lambda>(item, host). i_sandboxID item) ps) i =
      (if in_state StateProvisioning (a_store s) i then 1 else 0)"
proof -
  have "as_system (pv_state p) = api_abs (pv_state p, {#})" by (simp add: as_system_def api_abs_def)
  with api_main_reachable [OF assms(1)] have "sys_reachable (api_abs (pv_state p, {#}))" by simp
  with api_steps_refine [OF assms(2)] have reach: "sys_reachable (api_abs (s, ps))"
    unfolding sys_reachable_def by (meson rtranclp_trans)
  have flight: "in_flight (api_abs (s, ps)) = image_mset (\<lambda>(item, host). i_sandboxID item) ps"
    by (simp add: in_flight_def multiset.map_comp case_prod_unfold comp_def)
  from sys_reachable_inv [OF reach] reach show ?thesis
    unfolding sys_inv_def flight by (simp add: waiting_def)
qed

text \<open>A request for a sandbox in range, under the secret of \<open>one_agent_config\<close>.\<close>

definition sample_create :: api_request where
  "sample_create = \<lparr>ar_Method = ''POST'', ar_Path = ''/v1/sandboxes'',
     ar_Authorization = ''Bearer secret-token'',
     ar_Body = Json (JObj [(''image'', JStr ''base''), (''cpu_millis'', j_u32 500),
       (''memory_mib'', j_u32 256), (''timeout_ms'', j_u32 30000)])\<rparr>"

lemma sample_created:
  assumes "a_store s = Map.empty" "a_quota s = NewMemoryStore"
  shows "\<exists>res s'. api_handle (sample_env\<lparr>e_agentSecret := k\<rparr>)
      \<lparr>ap_defaultQuotaLimit = 20, ap_jwtSecret = ''secret-token''\<rparr> sample_create s = (res, s') \<and>
      in_state StateQueued (a_store s') ''sb-0a1b2c3d4e5f''"
proof -
  let ?srv = "\<lparr>ap_defaultQuotaLimit = 20, ap_jwtSecret = ''secret-token''\<rparr>"
  let ?req = "zero_SandboxSpec\<lparr>sp_Image := ''base'', sp_CPUMillis := 500, sp_MemoryMiB := 256, sp_TimeoutMs := 30000\<rparr>"
  let ?sp = "?req\<lparr>sp_TenantID := ''ten-secret-t''\<rparr>"
  have auth: "authenticate ?srv sample_create = Inr (Inr ''ten-secret-t'')"
    by (simp add: authenticate_cases sample_create_def)
  have route: "route_of (ar_Method sample_create) (ar_Path sample_create) = RCreate"
    by (simp add: sample_create_def route_of_def is_get_def)
  have body: "json_decode SandboxSpec_fields zero_SandboxSpec (ar_Body sample_create) = Inr ?req"
    by (simp add: sample_create_def SandboxSpec_fields_def json_simps fold_eq_def ascii_lower_def)
  have valid: "spec_Validate ?sp = Inr ()"
    by (subst spec_Validate_ok) (simp add: spec_in_range_def zero_SandboxSpec_def)
  have quota: "quota_Acquire ''ten-secret-t'' 20 (a_quota s) = (Inr (), [''ten-secret-t'' \<mapsto> 1])"
    by (simp add: quota_Acquire_def getOrCreate_def NewMemoryStore_def assms)
  have uuid: "NewSandbox (e_uuid sample_env) = Inr ''sb-0a1b2c3d4e5f''"
    by (simp add: sample_env_def NewSandbox_def shortUUID_def remove_char_def slice_to_def)
  obtain s' where sub: "orch_Submit (e_now sample_env) (e_nowEnqueue sample_env) (e_uuid sample_env) ?sp
      (s\<lparr>a_quota := [''ten-secret-t'' \<mapsto> 1]\<rparr>) = (Inr (Inr ''sb-0a1b2c3d4e5f''), s')"
    and stored: "in_state StateQueued (a_store s') ''sb-0a1b2c3d4e5f''"
    by (simp add: orch_Submit_def uuid store_Create_def assms zero_record_def in_state_def)
  have "snd (api_handle (sample_env\<lparr>e_agentSecret := k\<rparr>) ?srv sample_create s) = s'"
    unfolding api_handle_def api_serve_def route route.case handleCreateSandbox_def authenticated_def auth body
    by (simp add: quota sub valid Let_def)
  with stored show ?thesis by (metis prod.collapse)
qed

definition no_collector :: "(unit, unit, unit, unit, unit, unit) otel" where
  "no_collector = \<lparr>ot_exporter = (\<lambda>_. Inl ''no collector''), ot_resource = (\<lambda>_. Inr ()),
     ot_provider = (\<lambda>_ _. ()), ot_Tracer = (\<lambda>_ _. ()), ot_Start = (\<lambda>_ c _. (c, ())),
     ot_SpanFromContext = (\<lambda>_. ())\<rparr>"

theorem api_process_custody_witness:
  "\<exists>p s. api_main Inr (\<lambda>_. Inr one_agent_config) quiet_zap no_collector 1 () ''config.yaml'' = Started p \<and>
     api_step (pv_server p) (pv_secret p) (pv_state p, {#}) (s, {#}) \<and>
     count (mset (map i_sandboxID (s_queue (a_sched s)))) ''sb-0a1b2c3d4e5f'' = 1"
proof -
  let ?p = "api_components no_collector 1 () (applyDefaults one_agent_config)"
  have load: "config_Load Inr (\<lambda>_. Inr one_agent_config) ''config.yaml'' = Inr (applyDefaults one_agent_config)"
    by (simp add: config_Load_def)
  have start: "api_main Inr (\<lambda>_. Inr one_agent_config) quiet_zap no_collector 1 () ''config.yaml'' = Started ?p"
    by (simp add: api_main_def boot_def load log_MustInit_def log_Init_def quiet_zap_def Let_def)
  have srv: "pv_server ?p = \<lparr>ap_defaultQuotaLimit = 20, ap_jwtSecret = ''secret-token''\<rparr>"
    by (simp add: api_components_def applyDefaults_def api_defaults_def one_agent_config_def)
  have fresh: "a_store (pv_state ?p) = Map.empty" "a_quota (pv_state ?p) = NewMemoryStore"
    by (simp_all add: api_components_def NewStore_def)
  from sample_created [OF fresh, of "pv_secret ?p"] obtain res s where
    handled: "api_handle (sample_env\<lparr>e_agentSecret := pv_secret ?p\<rparr>) (pv_server ?p) sample_create (pv_state ?p) = (res, s)"
    and made: "in_state StateQueued (a_store s) ''sb-0a1b2c3d4e5f''"
    unfolding srv by blast
  have step: "api_step (pv_server ?p) (pv_secret ?p) (pv_state ?p, {#}) (s, {#})"
    by (rule api_step.request [OF _ handled]) simp
  then have steps: "(api_step (pv_server ?p) (pv_secret ?p))\<^sup>*\<^sup>* (pv_state ?p, {#}) (s, {#})"
    by (rule converse_rtranclp_into_rtranclp) (rule rtranclp.rtrancl_refl)
  from api_process_custody [OF start steps, of "''sb-0a1b2c3d4e5f''"] made
  have "count (mset (map i_sandboxID (s_queue (a_sched s)))) ''sb-0a1b2c3d4e5f'' = 1" by simp
  with start step show ?thesis by (intro exI [of _ ?p] exI [of _ s] conjI)
qed

end
