(* ===== verification/Cluster.thy ===== *)
theory Cluster
  imports ApiProcess
begin

text \<open>
  The API server and a host agent together: the placement goroutine of one
  (\<^verbatim>\<open>cmd/api/scheduler.go\<close>), connected through the client, JSON, the shared secret and the routes to
  the server of the other (\<^verbatim>\<open>cmd/host-agent\<close>). What the API records of a sandbox is compared with
  what the agent has of it on its machine.
\<close>

section \<open>What a placement leaves on the agent\<close>

definition agent_has :: "agent \<Rightarrow> string \<Rightarrow> string \<Rightarrow> u32 \<Rightarrow> bool" where
  "agent_has ag i tenant cid \<longleftrightarrow>
     (\<exists>e. agent_lookup ag i = Some e \<and> se_tenantID e = tenant \<and> se_vsockCID e = cid) \<and>
     (\<exists>w \<in> set (ag_watching ag). wa_sandboxID w = i \<and> Running (wa_pid w) \<in> held ag)"

definition agent_lacks :: "agent \<Rightarrow> agent \<Rightarrow> bool" where
  "agent_lacks ag ag' \<longleftrightarrow>
     ag_sandboxes ag' = ag_sandboxes ag \<and> ag_watching ag' = ag_watching ag \<and>
     (\<forall>p. Running p \<in> held ag' \<longrightarrow> Running p \<in> held ag) \<and>
     (\<forall>m. Mounted m \<in> held ag' \<longrightarrow> Mounted m \<in> held ag)"

lemma PlaceSandbox_leaves:
  assumes "os_GOOS s = ''linux''" and "length (hp_SandboxId req) \<ge> 8"
  shows "wp (PlaceSandbox srv req) (\<lambda>r s'.
    case r of
      Inl p \<Rightarrow> False
    | Inr (Inl e) \<Rightarrow> agent_lacks s s'
    | Inr (Inr resp) \<Rightarrow> hpr_VsockCid resp = guestCID (hp_SandboxId req) \<and>
        agent_has s' (hp_SandboxId req) (hp_TenantId req) (guestCID (hp_SandboxId req))) s"
proof (rule PlaceSandbox_wp [OF assms(1) refl], goal_cases)
  case (1 e s')
  then show ?case
    using frame_agent [OF 1(1)] leftover_cases [of _ srv "hp_SandboxId req" e]
    by (auto simp: agent_lacks_def)
next
  case (2 ctx pid s')
  with assms(2) show ?case by simp
next
  case (3 l ctx pid s')
  then show ?case
    by (auto simp: agent_has_def agent_lookup_def update_conv' new_entry_def vm_resources_def Let_def)
qed

section \<open>From the queue to the machine\<close>

text \<open>The request a placement of the API server becomes on the agent.\<close>

definition wire_place :: "string \<Rightarrow> SandboxSpec \<Rightarrow> LocalPlaceRequest" where
  "wire_place i sp =
     \<lparr>hp_SandboxId = i, hp_TenantId = sp_TenantID sp, hp_ImageRef = sp_Image sp,
      hp_CpuMillis = sp_CPUMillis sp, hp_MemMib = sp_MemoryMiB sp, hp_TimeoutMs = sp_TimeoutMs sp,
      hp_EgressAllowlist = [], hp_SnapshotKey = ''''\<rparr>"

lemma wire_place_simps [simp]:
  "hp_SandboxId (wire_place i sp) = i" "hp_TenantId (wire_place i sp) = sp_TenantID sp"
  by (simp_all add: wire_place_def)

definition agent_conn ::
  "(json_error \<Rightarrow> string) \<Rightarrow> hostAgentServer \<Rightarrow> string \<Rightarrow> HostInfo \<Rightarrow> agent transport" where
  "agent_conn jerr srv secret host =
     agent_transport (''http://'' @ h_Addr host) (agent_serve jerr srv secret)"

lemma placer_on_agent:
  assumes "is_utf8 i" "is_utf8 (sp_TenantID sp)" "is_utf8 (sp_Image sp)" "trim_space secret = secret"
  shows "grpcPlacer_PlaceSandbox jerr (agent_conn jerr' srv secret host) secret tP i host sp st ag =
    (case run_state (PlaceSandbox srv (wire_place i sp)) ag of
       (Inl p, ag') \<Rightarrow> (Inl ''host-agent PlaceSandbox: agentapi: PlaceSandbox: do: EOF'', st, ag')
     | (Inr (Inl e), ag') \<Rightarrow>
         (Inl (''host-agent PlaceSandbox: agentapi: PlaceSandbox: status 500: '' @ utf8_text (status_text e)), st, ag')
     | (Inr (Inr resp), ag') \<Rightarrow>
         (Inr (hpr_VsockCid resp), snd (store_SetVsockCID tP i (hpr_VsockCid resp) '''' st), ag'))"
proof -
  let ?req = "zero_PlaceRequest\<lparr>pl_SandboxID := i, pl_TenantID := sp_TenantID sp, pl_ImageRef := sp_Image sp,
    pl_CPUMillis := sp_CPUMillis sp, pl_MemMiB := sp_MemoryMiB sp, pl_TimeoutMs := sp_TimeoutMs sp\<rparr>"
  have "utf8_PlaceRequest ?req" using assms by (simp add: utf8_PlaceRequest_def zero_PlaceRequest_def)
  note rpc = agent.rpc_place [OF this assms(4)]
  have "local_place ?req = wire_place i sp"
    by (simp add: local_place_def wire_place_def zero_PlaceRequest_def)
  then show ?thesis
    by (simp add: grpcPlacer_PlaceSandbox_def agent_conn_def agent_serve_def rpc Let_def
        split: prod.split sum.split)
qed

lemma provisioning_moves:
  "lifecycle StateProvisioning StateRunning" "lifecycle StateProvisioning StateFailed"
  by (auto intro: lifecycle.intros)

section \<open>Properties\<close>


text \<open>An item that asks the agent of the examples for its sandbox.\<close>

definition sample_item :: pendingItem where
  "sample_item = \<lparr>i_sandboxID = ''sb-0123456789ab'',
     i_spec = \<lparr>sp_Image = ''base'', sp_CPUMillis = 500, sp_MemoryMiB = 256, sp_TimeoutMs = 30000,
       sp_EgressAllowlist = [], sp_TenantID = ''ten-1''\<rparr>,
     i_deadline = 9, i_priority = 1, i_index = 0\<rparr>"


end
