(* ===== verification/Stubs.thy ===== *)
theory Stubs
  imports Network WireGuard HostResources Firecracker
begin

text \<open>
  The files built for platforms other than Linux (\<^verbatim>\<open>network_stub.go\<close>, \<^verbatim>\<open>overlay_stub.go\<close>,
  \<^verbatim>\<open>vsock_stub.go\<close>, \<^verbatim>\<open>wireguard_stub.go\<close>, \<^verbatim>\<open>loader_stub.go\<close>). Each takes the place of the operations of
  the same names and refuses: but for \<^verbatim>\<open>removeAll\<close> they make no call at all, so they are functions of
  their arguments, and a program built with them leaves the machine as it is.
\<close>

section \<open>Networks\<close>

definition stub_network_Setup :: "string \<Rightarrow> string + SandboxNetwork" where
  "stub_network_Setup sandboxID = Inl ''network: veth/netns setup is Linux-only''"

definition stub_network_Destroy :: "string \<Rightarrow> string + unit" where
  "stub_network_Destroy sandboxID = Inl ''network: veth/netns teardown is Linux-only''"

section \<open>Overlays\<close>

definition stub_mountOverlay :: "OverlayPaths \<Rightarrow> string \<Rightarrow> string + unit" where
  "stub_mountOverlay paths lowerDir = Inl ''overlay: mount not supported on this OS (Linux required)''"

definition stub_unmountOverlay :: "string \<Rightarrow> string + unit" where
  "stub_unmountOverlay merged = Inl ''overlay: unmount not supported on this OS (Linux required)''"

definition stub_removeAll :: "string \<Rightarrow> ('s, string + unit) io" where
  "stub_removeAll path = attempt (perform (RemoveAll path)) (\<lambda>e. ret (Inl e)) (\<lambda>_. ret (Inr ()))"

text \<open>
  \<^verbatim>\<open>overlay.Setup\<close> and \<^verbatim>\<open>Teardown\<close> are built for every platform. With these stubs a set-up makes the
  three directories and then fails, a tear-down fails before it removes anything.
\<close>

definition stub_overlay_Setup :: "OverlayConfig \<Rightarrow> ('s, string + OverlayPaths) io" where
  "stub_overlay_Setup cfg =
     (let paths = overlay_paths cfg
      in attempt (mkdir_all [op_Upper paths, op_Work paths, op_Merged paths])
           (\<lambda>e. ret (Inl e))
           (\<lambda>_. case stub_mountOverlay paths (oc_LowerDir cfg) of
                  Inl e \<Rightarrow> ret (Inl e) | Inr _ \<Rightarrow> ret (Inr paths)))"

lemma wp_mkdirs_fail_or_all:
  "wp (mkdir_all ds) (\<lambda>r s'. held s' \<subseteq> held s \<union> Dir ` set ds) s"
proof -
  have "wp (mkdir_all ds) (\<lambda>r s'. held s' \<subseteq> H \<union> Dir ` set ds) s" if "held s \<subseteq> H" for H and s :: "'a host_scheme"
    using that
  proof (induction ds arbitrary: H s)
    case (Cons d ds)
    have "held (note_call (MkdirAll d) s) \<subseteq> insert (Dir d) H"
      using Cons.prems by (auto simp: held_def after_event_def Let_def)
    from Cons.IH [OF this] Cons.prems show ?case
      by (auto simp: wp_perform held_def after_event_def Let_def split: sum.split elim!: wp_mono)
  qed simp
  then show ?thesis by blast
qed

text \<open>
  A set-up built with the stub never succeeds, and leaves at most its three directories behind: no
  file system is mounted.
\<close>

lemma stub_overlay_Setup_refuses:
  assumes "run_state (stub_overlay_Setup cfg) s = (r, s')"
  shows "(\<exists>e. r = Inl e) \<and> held s' \<subseteq> held s \<union> overlay_dirs cfg"
proof -
  have "wp (stub_overlay_Setup cfg) (\<lambda>r s'. (\<exists>e. r = Inl e) \<and> held s' \<subseteq> held s \<union> overlay_dirs cfg) s"
    unfolding stub_overlay_Setup_def stub_mountOverlay_def Let_def wp_attempt
    by (rule wp_mono [OF wp_mkdirs_fail_or_all]) (auto simp: overlay_dirs_def split: sum.split)
  from wp_run [OF this assms] show ?thesis .
qed

section \<open>The other packages\<close>

definition stub_dialFirecracker :: "string \<Rightarrow> u32 \<Rightarrow> string + string" where
  "stub_dialFirecracker udsPath port =
     Inl (''vsock: firecracker UDS dial requires Linux (uds='' @ udsPath @ '' port='' @
          show_nat (unat port) @ '')'')"

definition stub_NewManager :: "string + WgManager" where
  "stub_NewManager = Inl ''wireguard: only supported on Linux (requires WireGuard kernel module)''"

definition stub_EnsureTunnel :: "TenantTunnel \<Rightarrow> string + unit" where
  "stub_EnsureTunnel t = Inl ''wireguard: only supported on Linux''"

definition stub_RemoveTunnel :: "string \<Rightarrow> string + unit" where
  "stub_RemoveTunnel tenantID = Inl ''wireguard: only supported on Linux''"

definition stub_wg_Close :: "string + unit" where
  "stub_wg_Close = Inr ()"

record stub_EgressFilter =
  sf_SandboxID :: string
  sf_HostVeth :: string

definition stub_NewEgressFilter :: "string \<Rightarrow> string \<Rightarrow> stub_EgressFilter" where
  "stub_NewEgressFilter sandboxID hostVeth = \<lparr>sf_SandboxID = sandboxID, sf_HostVeth = hostVeth\<rparr>"

definition stub_ef_Load :: "stub_EgressFilter \<Rightarrow> string \<Rightarrow> string + unit" where
  "stub_ef_Load f path = Inl ''ebpf loader: only supported on Linux (requires CAP_NET_ADMIN + CAP_BPF)''"

definition stub_ef_AddCIDR :: "stub_EgressFilter \<Rightarrow> string \<Rightarrow> string + unit" where
  "stub_ef_AddCIDR f cidr = Inl ''ebpf loader: only supported on Linux''"

definition stub_ef_Detach :: "stub_EgressFilter \<Rightarrow> string + unit" where
  "stub_ef_Detach f = Inr ()"

end
