(* ===== verification/Spec2Isabelle.thy ===== *)
theory Spec2Isabelle
  imports SandboxState Quota SandboxSpec Fencing Orchestrator ApiSystem AgentServer Network Registry Pool GoSdk
    Persistence WireGuard Telemetry Processes ApiProcess Cluster Stubs
begin

text \<open>
  A model of the sandbox platform (the Go code under \<^verbatim>\<open>src/\<close>) and the theorems that make it correct.

  \<^bold>\<open>The program.\<close> An API server takes requests for sandboxes, checks them against the quota of a
  tenant, keeps a record of each sandbox and a queue of those to be placed, and hands each to the host
  with the best score. A host agent makes the sandbox: an overlay file system, a control group, a
  Firecracker process configured over its socket, an egress filter in the kernel; one goroutine waits
  for the process and gives all of it up again. An orchestrator process holds the same scheduler and
  a heartbeat monitor that fences hosts. A client library in Go calls the API.

  \<^bold>\<open>Theories and sources.\<close>

  \<^item> \<^verbatim>\<open>Prelude\<close>, \<^verbatim>\<open>GoPath\<close>, \<^verbatim>\<open>GoNet\<close>, \<^verbatim>\<open>GoHeap\<close>, \<^verbatim>\<open>Json\<close>, \<^verbatim>\<open>Float64\<close>, \<^verbatim>\<open>Sha256\<close>: what the program
    uses of Go's standard library (slices and their panics, texts, \<^verbatim>\<open>path/filepath\<close>, \<^verbatim>\<open>net\<close>,
    \<^verbatim>\<open>container/heap\<close>, \<^verbatim>\<open>encoding/json\<close>, floating point, \<^verbatim>\<open>crypto/sha256\<close>), with the lemmas
    the components share.
  \<^item> \<^verbatim>\<open>SandboxState\<close> (\<^verbatim>\<open>internal/state\<close>), \<^verbatim>\<open>SandboxSpec\<close> (\<^verbatim>\<open>internal/spec\<close>, \<^verbatim>\<open>internal/id\<close>), \<^verbatim>\<open>Quota\<close>
    (\<^verbatim>\<open>internal/quota\<close>), \<^verbatim>\<open>Fencing\<close> (\<^verbatim>\<open>internal/fencing\<close>), \<^verbatim>\<open>AgentApi\<close> (\<^verbatim>\<open>internal/agentapi\<close>), \<^verbatim>\<open>Pool\<close>
    (\<^verbatim>\<open>internal/pool\<close>), \<^verbatim>\<open>Config\<close> (\<^verbatim>\<open>internal/config\<close>).
  \<^item> \<^verbatim>\<open>Scheduler\<close> and \<^verbatim>\<open>Orchestrator\<close> (\<^verbatim>\<open>cmd/orchestrator\<close>); \<^verbatim>\<open>ApiScheduler\<close>, \<^verbatim>\<open>ApiServer\<close> and
    \<^verbatim>\<open>ApiSystem\<close> (\<^verbatim>\<open>cmd/api\<close>: its copy of the scheduler, the handlers, and all goroutines interleaved).
  \<^item> \<^verbatim>\<open>HostWorld\<close>: the machine a host agent runs on; \<^verbatim>\<open>HostResources\<close> (\<^verbatim>\<open>internal/overlay\<close>,
    \<^verbatim>\<open>internal/cgroup\<close>, the base image), \<^verbatim>\<open>Firecracker\<close> (\<^verbatim>\<open>internal/firecracker\<close>, \<^verbatim>\<open>internal/snapshot\<close>,
    \<^verbatim>\<open>internal/vsock\<close>), \<^verbatim>\<open>EgressFilter\<close> (\<^verbatim>\<open>ebpf/loader\<close> and the kernel program), \<^verbatim>\<open>Network\<close>
    (\<^verbatim>\<open>internal/network\<close>), \<^verbatim>\<open>Registry\<close> (\<^verbatim>\<open>internal/registry\<close>), \<^verbatim>\<open>Persistence\<close>
    (\<^verbatim>\<open>internal/persistence\<close>), \<^verbatim>\<open>WireGuard\<close> (\<^verbatim>\<open>internal/wireguard\<close>), \<^verbatim>\<open>HostAgent\<close> and \<^verbatim>\<open>AgentServer\<close>
    (\<^verbatim>\<open>cmd/host-agent\<close>: the operations, and the HTTP API over them).
  \<^item> \<^verbatim>\<open>GoSdk\<close> (\<^verbatim>\<open>sdk/go/sandock\<close>), joined to the API server.
  \<^item> \<^verbatim>\<open>Telemetry\<close> (\<^verbatim>\<open>internal/log\<close>, \<^verbatim>\<open>internal/tracing\<close>, \<^verbatim>\<open>internal/metrics\<close>); \<^verbatim>\<open>Processes\<close>, the three
    \<^verbatim>\<open>main\<close> functions from the configuration to the running components, the access log, and the
    orchestrator's goroutines interleaved; \<^verbatim>\<open>ApiProcess\<close>, the API server from its \<^verbatim>\<open>main\<close> on, which
    refines \<^verbatim>\<open>ApiSystem\<close>; \<^verbatim>\<open>Cluster\<close>, a placement from that server to the machine of a host agent;
    \<^verbatim>\<open>Stubs\<close>, the files built for other platforms than Linux.

  \<^bold>\<open>How code becomes definitions.\<close> A struct is a record, an error the left of a sum, a run-time panic a
  \<open>go_panic\<close>; integers have their width. A method that runs under a lock is one function on the state.
  Clock readings, UUIDs, the iteration order of maps and the answers of the network and of the
  operating system are arguments. Host code is a state monad over a world whose answers are an
  arbitrary function of the calls made before (\<open>os_env\<close>), so a theorem about it holds whatever fails;
  what it holds on the machine is read off the trace of its calls, where a release counts when it is
  asked for. Go's interfaces are locales (the heap, the quota store, the client of the
  orchestrator, the placer, the service behind the agent's HTTP API), each interpreted on the
  definitions that implement it here.

  \<^bold>\<open>What is shown.\<close> The store refines the lifecycle graph, whose runs end; every reachable state of the
  interleaved API server has each queued or provisioning sandbox in exactly one place; the pending
  queue is drained in deadline and priority order; the copy of the scheduler equals the original; a
  tenant's requests touch no other tenant; every branch of the handlers is accounted for. A failed
  placement on a host leaves nothing behind but what the statement names, a successful one is given up
  in full when its process ends, and no reachable state of the agent has a resource without the
  goroutine that will release it. Client and server calls are the operations they stand for, through
  JSON, the secret and the routes. Started from a configuration, the API process only reaches states
  of the interleaved system, a placement leaves its record and its host in agreement, the orchestrator process never has anything to place, and no metric
  observed by a host agent has the wrong labels. Theorems of kind error or safety also state where the code falls
  short (the findings of the manifest).

  \<^bold>\<open>Bounds.\<close> No definition has fuel: loops are structural or have a measure (the sift loops of the heap,
  the parser of IPv6 addresses, the wait for a socket, bounded by twenty polls a second). Loops that
  run for ever in the code (dispatcher, monitor, waiting client) take the list of their wake-ups.

  \<^bold>\<open>Not modelled.\<close> What is logged, and where spans begin and end; command-line flags, signals and the
  order of shutting down; permission bits; the TypeScript library, the agent inside the virtual
  machine (Rust), unit tests and deployment files.
\<close>

end
